theory Spec2Isabelle
  imports Main "HOL-Library.Sublist"
begin

section \<open>Python values used by the scripts\<close>

text \<open>
  The exceptions and process exits the scripts can run into. \<open>SystemExit n\<close> is
  \<^verbatim>\<open>sys.exit(n)\<close>.
\<close>

datatype py_error = IndexError | ValueError | EOFError | SystemExit int

text \<open>
  \<^verbatim>\<open>str.lower()\<close> on the ASCII letters; every other character is left as it is. The
  three needles the scripts look for are ASCII, and no character outside ASCII lowers to a
  letter sequence that completes one of them.
\<close>

definition lower_char :: "char \<Rightarrow> char" where
  "lower_char c =
     (let n = (of_char c :: nat) in if 65 \<le> n \<and> n \<le> 90 then char_of (n + 32) else c)"

definition lower :: "string \<Rightarrow> string" where
  "lower s = map lower_char s"

text \<open>\<^verbatim>\<open>sub in s\<close> on strings: \<open>sub\<close> occurs in \<open>s\<close> as a contiguous run.\<close>

fun str_in :: "string \<Rightarrow> string \<Rightarrow> bool" where
  "str_in sub [] = (sub = [])"
| "str_in sub (c # cs) = (prefix sub (c # cs) \<or> str_in sub cs)"

text \<open>
  Subscription \<^verbatim>\<open>xs[i]\<close> of a list or tuple by a Python integer. An index from
  \<open>- len\<close> up to \<open>-1\<close> is taken from the end; anything outside \<open>- len .. len - 1\<close> raises.
\<close>

definition py_get :: "'a list \<Rightarrow> int \<Rightarrow> py_error + 'a" where
  "py_get xs i =
     (if 0 \<le> i \<and> i < int (length xs) then Inr (xs ! nat i)
      else if i < 0 \<and> - int (length xs) \<le> i then Inr (xs ! nat (int (length xs) + i))
      else Inl IndexError)"

text \<open>\<^verbatim>\<open>xs.index(x)\<close>: the position of the first element equal to \<open>x\<close>.\<close>

fun py_index :: "'a list \<Rightarrow> 'a \<Rightarrow> py_error + nat" where
  "py_index [] x = Inl ValueError"
| "py_index (y # ys) x =
     (if y = x then Inr 0
      else case py_index ys x of Inl e \<Rightarrow> Inl e | Inr k \<Rightarrow> Inr (Suc k))"

section \<open>Audio devices\<close>

text \<open>
  One entry of \<^verbatim>\<open>sd.query_devices()\<close>. The scripts read the three keys below; the
  remaining keys of the dictionary are the record's extension, so that equality of
  records is equality of the whole dictionary.
\<close>

record device =
  name :: string
  hostapi :: int
  max_input_channels :: int

subsection \<open>capture_app.py\<close>

text \<open>The condition of line 136, as written there.\<close>

definition capture_app_wanted :: "'a device_scheme \<Rightarrow> bool" where
  "capture_app_wanted dev \<longleftrightarrow>
     max_input_channels dev > 0 \<and>
     (str_in ''elgato'' (lower (name dev)) \<or>
      str_in ''avermedia'' (name dev) \<or>
      str_in ''evga'' (lower (name dev)))"

text \<open>The loop of lines 135 to 138, with both accumulators.\<close>

fun capture_app_filter_loop ::
  "'a device_scheme list \<Rightarrow> 'a device_scheme list \<times> string list \<Rightarrow>
   'a device_scheme list \<times> string list" where
  "capture_app_filter_loop [] acc = acc"
| "capture_app_filter_loop (dev # devs) (filtered_devices, filtered_names) =
     (if capture_app_wanted dev
      then capture_app_filter_loop devs (filtered_devices @ [dev], filtered_names @ [name dev])
      else capture_app_filter_loop devs (filtered_devices, filtered_names))"

definition capture_app_list_audio_input_devices_filtered ::
  "'a device_scheme list \<Rightarrow> 'a device_scheme list \<times> string list" where
  "capture_app_list_audio_input_devices_filtered devices =
     (let (filtered_devices, filtered_names) = capture_app_filter_loop devices ([], [])
      in if filtered_devices = [] then ([], []) else (filtered_devices, filtered_names))"

subsection \<open>guiver/main.py\<close>

definition guiver_wanted :: "'a device_scheme \<Rightarrow> bool" where
  "guiver_wanted dev \<longleftrightarrow>
     max_input_channels dev > 0 \<and>
     (str_in ''elgato'' (lower (name dev)) \<or>
      str_in ''avermedia'' (lower (name dev)) \<or>
      str_in ''evga'' (lower (name dev)))"

text \<open>
  The loop of lines 304 to 313 over \<^verbatim>\<open>enumerate(devices)\<close>; \<open>i\<close> is the running
  index. \<open>hostapis\<close> holds the names of \<^verbatim>\<open>sd.query_hostapis()\<close>; the lookup
  \<^verbatim>\<open>hostapis[dev['hostapi']]\<close> raises when the index is out of range.
\<close>

fun guiver_filter_loop ::
  "string list \<Rightarrow> nat \<Rightarrow> 'a device_scheme list \<Rightarrow>
   'a device_scheme list \<times> string list \<times> nat list \<Rightarrow>
   py_error + 'a device_scheme list \<times> string list \<times> nat list" where
  "guiver_filter_loop hostapis i [] acc = Inr acc"
| "guiver_filter_loop hostapis i (dev # devs) (filtered_devices, filtered_names, filtered_indices) =
     (if guiver_wanted dev
      then (case py_get hostapis (hostapi dev) of
              Inl e \<Rightarrow> Inl e
            | Inr api_name \<Rightarrow>
                guiver_filter_loop hostapis (Suc i) devs
                  (filtered_devices @ [dev],
                   filtered_names @ [name dev @ '' ('' @ api_name @ '')''],
                   filtered_indices @ [i]))
      else guiver_filter_loop hostapis (Suc i) devs
             (filtered_devices, filtered_names, filtered_indices))"

definition guiver_list_audio_input_devices_filtered ::
  "string list \<Rightarrow> 'a device_scheme list \<Rightarrow>
   py_error + 'a device_scheme list \<times> string list \<times> nat list" where
  "guiver_list_audio_input_devices_filtered hostapis devices =
     guiver_filter_loop hostapis 0 devices ([], [], [])"

subsection \<open>capture_app.py: the global index of the chosen audio device\<close>

text \<open>
  Lines 168 to 176 of \<^verbatim>\<open>main\<close>: \<open>devices\<close> is what \<^verbatim>\<open>sd.query_devices()\<close> returns
  inside \<^verbatim>\<open>list_audio_input_devices_filtered\<close>, \<open>all_devices\<close> what the second call on
  line 175 returns, and \<open>audio_choice_index\<close> the user's selection.
\<close>

definition audio_choice_device_index ::
  "'a device_scheme list \<Rightarrow> 'a device_scheme list \<Rightarrow> int \<Rightarrow> py_error + nat" where
  "audio_choice_device_index devices all_devices audio_choice_index =
     (let (audio_devices, audio_names) = capture_app_list_audio_input_devices_filtered devices
      in case py_get audio_devices audio_choice_index of
           Inl e \<Rightarrow> Inl e
         | Inr dev \<Rightarrow> py_index all_devices dev)"

text \<open>
  The positions, in the enumeration, of the devices the filter keeps: entry \<open>c\<close> is where
  the device shown as number \<open>c\<close> stands in \<^verbatim>\<open>sd.query_devices()\<close>.
\<close>

definition wanted_positions :: "'a device_scheme list \<Rightarrow> nat list" where
  "wanted_positions devices =
     filter (\<lambda>i. capture_app_wanted (devices ! i)) [0..<length devices]"

text \<open>An enumeration in which one capture card is listed twice with the same entry.\<close>

definition twin_devices :: "device list" where
  "twin_devices =
     [\<lparr>name = ''Microphone'', hostapi = 0, max_input_channels = 2\<rparr>,
      \<lparr>name = ''Elgato HD60'', hostapi = 0, max_input_channels = 2\<rparr>,
      \<lparr>name = ''Elgato HD60'', hostapi = 0, max_input_channels = 2\<rparr>,
      \<lparr>name = ''EVGA XR1'', hostapi = 0, max_input_channels = 2\<rparr>]"

section \<open>Reading and printing integers\<close>

text \<open>
  \<^verbatim>\<open>int(s)\<close> on a string whose characters lie below 256: surrounding white space is
  dropped, one sign may come first, and single underscores may stand between digits.
  Anything else raises \<^verbatim>\<open>ValueError\<close>, which is \<open>None\<close> here. The white space
  \<^verbatim>\<open>int\<close> drops is tab, line feed, vertical tab, form feed, carriage return and
  space, and of the characters from 128 on those that are Unicode white space, which are
  0x85 and 0xA0; the separators 0x1C to 0x1F are not dropped.
\<close>

definition is_digit :: "char \<Rightarrow> bool" where
  "is_digit c \<longleftrightarrow> 48 \<le> (of_char c :: nat) \<and> (of_char c :: nat) \<le> 57"

definition digit_val :: "char \<Rightarrow> nat" where
  "digit_val c = of_char c - 48"

definition digit_char :: "nat \<Rightarrow> char" where
  "digit_char d = char_of (48 + d)"

definition is_space :: "char \<Rightarrow> bool" where
  "is_space c \<longleftrightarrow> (of_char c :: nat) \<in> {9, 10, 11, 12, 13, 32, 133, 160}"

definition strip :: "string \<Rightarrow> string" where
  "strip s = rev (dropWhile is_space (rev (dropWhile is_space s)))"

fun parse_digits :: "string \<Rightarrow> nat \<Rightarrow> nat option" where
  "parse_digits [] acc = Some acc"
| "parse_digits (c # cs) acc =
     (if is_digit c then parse_digits cs (10 * acc + digit_val c)
      else if c = CHR ''_'' \<and> cs \<noteq> [] \<and> is_digit (hd cs) then parse_digits cs acc
      else None)"

definition unsigned :: "string \<Rightarrow> nat option" where
  "unsigned t = (if t \<noteq> [] \<and> is_digit (hd t) then parse_digits t 0 else None)"

definition py_int :: "string \<Rightarrow> int option" where
  "py_int s =
     (case strip s of
        [] \<Rightarrow> None
      | c # cs \<Rightarrow>
          if c = CHR ''-'' then map_option (\<lambda>n. - int n) (unsigned cs)
          else if c = CHR ''+'' then map_option int (unsigned cs)
          else map_option int (unsigned (c # cs)))"

text \<open>\<^verbatim>\<open>str(n)\<close>, as an f-string prints the index \<open>n\<close> of \<^verbatim>\<open>enumerate\<close>.\<close>

fun py_str :: "nat \<Rightarrow> string" where
  "py_str n = (if n < 10 then [digit_char n] else py_str (n div 10) @ [digit_char (n mod 10)])"

declare py_str.simps [simp del]

text \<open>The lines \<^verbatim>\<open>f"{i}: {name}"\<close> for \<^verbatim>\<open>i, name in enumerate(options)\<close>, counting from \<open>i\<close>.\<close>

fun numbered :: "nat \<Rightarrow> string list \<Rightarrow> string list" where
  "numbered i [] = []"
| "numbered i (opt # options) = (py_str i @ '': '' @ opt) # numbered (Suc i) options"

section \<open>What a run does: events\<close>

text \<open>
  The calls a script makes to the console, the toolkit and the device libraries, in the
  order it makes them. A worker is one of the \<^verbatim>\<open>QThread\<close> subclasses with the
  arguments of its constructor; \<open>Start w\<close> is \<^verbatim>\<open>w.start()\<close>. The text of a message is
  kept; where a message prints a floating-point number, the number's text is taken from
  the environment.
\<close>

datatype backend = CAP_DSHOW | CAP_MSMF

datatype cap_prop = CAP_PROP_FRAME_WIDTH | CAP_PROP_FRAME_HEIGHT | CAP_PROP_FPS

type_synonym api = string

text \<open>
  The audio classes: \<^verbatim>\<open>AudioStream\<close> of capture_app, and \<^verbatim>\<open>AudioStreamSD\<close> and
  \<^verbatim>\<open>AudioStreamRTMixer\<close> of guiver/main.
\<close>

datatype audio_thread =
    AudioStream nat
  | AudioStreamSD nat
  | AudioStreamRTMixer nat api

datatype worker =
    VideoThread int
  | AudioThread audio_thread

text \<open>The threads of a running application: the GUI thread and its two workers.\<close>

datatype tid = Main | Video | Audio

datatype event =
    Print string
  | Input string
  | AppendMessage string
  | Critical string string
  | GetItem string "string list"
  | GetInputDevices
  | QueryDevices
  | QueryHostapis
  | VideoInputs
  | CameraStart string
  | Start worker
  | Show string
  | AppExec
  | EmitDebug string
  | EmitPixmap
  | EmitFps string
  | VideoCapture int backend
  | CapSet cap_prop nat
  | CapGet cap_prop
  | CapRead
  | Msleep nat
  | CapRelease
  | SdStream nat "nat option"
  | SdSleep nat
  | StreamClose
  | RtMixerOpen nat api
  | StartStream
  | TimeSleep
  | SetRunningFalse tid
  | Quit tid
  | Wait tid
  | StopStream
  | MixerClose
  | CloseWindow string
  | AppQuit
  | Accept

section \<open>Choosing a device\<close>

subsection \<open>capture_app.py: \<^verbatim>\<open>prompt_selection\<close>\<close>

text \<open>
  The loop of lines 150 to 158. \<open>stdin\<close> holds the lines the user types; \<^verbatim>\<open>input\<close>
  raises \<^verbatim>\<open>EOFError\<close> when none is left, which the handler for \<^verbatim>\<open>ValueError\<close>
  does not catch. The result is what was written to the console, the lines not yet read,
  and the value returned or the exception raised.
\<close>

fun prompt_selection ::
  "int \<Rightarrow> string \<Rightarrow> string list \<Rightarrow> event list \<times> string list \<times> (py_error + int)" where
  "prompt_selection max_index device_type [] =
     ([Input (''Select '' @ device_type @ '' device number: '')], [], Inl EOFError)"
| "prompt_selection max_index device_type (line # stdin) =
     (case py_int line of
        Some choice \<Rightarrow>
          if 0 \<le> choice \<and> choice < max_index
          then ([Input (''Select '' @ device_type @ '' device number: '')], stdin, Inr choice)
          else (let (out, stdin', r) = prompt_selection max_index device_type stdin
                in (Input (''Select '' @ device_type @ '' device number: '') #
                    Print ''Invalid selection. Please enter one of the listed numbers.'' # out,
                    stdin', r))
      | None \<Rightarrow>
          (let (out, stdin', r) = prompt_selection max_index device_type stdin
           in (Input (''Select '' @ device_type @ '' device number: '') #
               Print ''Invalid input. Please enter a number.'' # out, stdin', r)))"

subsection \<open>guiver/main.py: \<^verbatim>\<open>prompt_selection_gui\<close>\<close>

text \<open>\<^verbatim>\<open>item.split(":")[0]\<close>: the text before the first colon.\<close>

definition split_head :: "string \<Rightarrow> string" where
  "split_head item = takeWhile (\<lambda>c. c \<noteq> CHR '':'') item"

text \<open>
  Lines 316 to 324. \<open>answer\<close> is the pair \<^verbatim>\<open>(item, ok)\<close> that
  \<^verbatim>\<open>QInputDialog.getItem\<close> returns. The dialog is opened with \<^verbatim>\<open>editable=False\<close>, so
  the toolkit hands back one of the items it was given.
\<close>

definition prompt_selection_gui ::
  "string list \<Rightarrow> string \<Rightarrow> string \<times> bool \<Rightarrow> event list \<times> (py_error + int)" where
  "prompt_selection_gui options device_type answer =
     (let items = numbered 0 options;
          (item, ok) = answer
      in if ok \<and> item \<noteq> []
         then (case py_int (split_head item) of
                 Some n \<Rightarrow> ([GetItem (''Select '' @ device_type @ '' Device'') items], Inr n)
               | None \<Rightarrow> ([GetItem (''Select '' @ device_type @ '' Device'') items], Inl ValueError))
         else ([GetItem (''Select '' @ device_type @ '' Device'') items,
                Critical ''Error'' (''No '' @ device_type @ '' device selected. Exiting.'')],
               Inl (SystemExit 1)))"

section \<open>guiver/main.py: the combined audio list\<close>

text \<open>
  The \<^verbatim>\<open>rtmixer\<close> module as the script uses it: the members of \<^verbatim>\<open>rtmixer.Api\<close>, each
  standing for its \<^verbatim>\<open>name\<close>, and for every member the device infos that a mixer opened
  on it reports, in the order of \<^verbatim>\<open>get_device_info(0)\<close>, \<^verbatim>\<open>get_device_info(1)\<close>, ...
  up to \<^verbatim>\<open>get_device_count()\<close>. The module is \<open>None\<close> when the import failed.
\<close>

record rt_info =
  rt_name :: string
  inputChannels :: int

record rtmixer =
  Api :: "api list"
  get_device_info :: "api \<Rightarrow> rt_info list"

definition get_rtmixer_api_by_name :: "rtmixer option \<Rightarrow> string \<Rightarrow> api option" where
  "get_rtmixer_api_by_name rt nm =
     (case rt of
        None \<Rightarrow> None
      | Some m \<Rightarrow> find (\<lambda>api. lower api = lower nm) (Api m))"

text \<open>The inner loop of lines 284 to 290 over \<^verbatim>\<open>range(mixer.get_device_count())\<close>.\<close>

fun rt_device_loop ::
  "string \<Rightarrow> api \<Rightarrow> nat \<Rightarrow> rt_info list \<Rightarrow>
   rt_info list \<times> string list \<times> nat list \<times> api list \<Rightarrow>
   rt_info list \<times> string list \<times> nat list \<times> api list" where
  "rt_device_loop api_name api i [] acc = acc"
| "rt_device_loop api_name api i (info # infos) (devices, names, indices, apis) =
     (if inputChannels info > 0
      then rt_device_loop api_name api (Suc i) infos
             (devices @ [info], names @ [rt_name info @ '' ('' @ api_name @ '')''],
              indices @ [i], apis @ [api])
      else rt_device_loop api_name api (Suc i) infos (devices, names, indices, apis))"

text \<open>The outer loop of lines 279 to 291 over the preferred API names.\<close>

fun rt_api_loop ::
  "rtmixer \<Rightarrow> string list \<Rightarrow>
   rt_info list \<times> string list \<times> nat list \<times> api list \<Rightarrow>
   rt_info list \<times> string list \<times> nat list \<times> api list" where
  "rt_api_loop m [] acc = acc"
| "rt_api_loop m (api_name # rest) acc =
     (case get_rtmixer_api_by_name (Some m) api_name of
        None \<Rightarrow> rt_api_loop m rest acc
      | Some api \<Rightarrow>
          rt_api_loop m rest (rt_device_loop api_name api 0 (get_device_info m api) acc))"

definition list_rtmixer_devices_by_apis ::
  "rtmixer option \<Rightarrow> string list \<Rightarrow> rt_info list \<times> string list \<times> nat list \<times> api list" where
  "list_rtmixer_devices_by_apis rt preferred_api_names =
     (case rt of
        None \<Rightarrow> ([], [], [], [])
      | Some m \<Rightarrow> rt_api_loop m preferred_api_names ([], [], [], []))"

definition preferred_api_names :: "string list" where
  "preferred_api_names = [''ASIO'', ''WASAPI'', ''WDM-KS'', ''DirectSound'']"

text \<open>
  Lines 355 to 357 and 359 to 361 of \<^verbatim>\<open>main\<close>: one loop appends every name with its
  label to \<^verbatim>\<open>all_audio_names\<close> and the source's tag to \<^verbatim>\<open>device_source\<close>.
\<close>

fun mark_loop ::
  "string \<Rightarrow> string \<Rightarrow> string list \<Rightarrow> string list \<times> string list \<Rightarrow>
   string list \<times> string list" where
  "mark_loop label tag [] acc = acc"
| "mark_loop label tag (nm # names) (all_audio_names, device_source) =
     mark_loop label tag names (all_audio_names @ [nm @ label], device_source @ [tag])"

definition combine_audio :: "string list \<Rightarrow> string list \<Rightarrow> string list \<times> string list" where
  "combine_audio rtmixer_names fallback_names =
     mark_loop '' [SoundDevice]'' ''sounddevice'' fallback_names
       (mark_loop '' [RtMixer]'' ''rtmixer'' rtmixer_names ([], []))"

text \<open>Lines 369 to 375: the audio worker built for the chosen entry.\<close>

definition audio_thread_for ::
  "string list \<Rightarrow> nat list \<Rightarrow> api list \<Rightarrow> nat list \<Rightarrow> int \<Rightarrow> py_error + audio_thread" where
  "audio_thread_for device_source rtmixer_indices rtmixer_apis fallback_indices audio_choice =
     (case py_get device_source audio_choice of
        Inl e \<Rightarrow> Inl e
      | Inr source \<Rightarrow>
          if source = ''rtmixer''
          then (case py_get rtmixer_indices audio_choice of
                  Inl e \<Rightarrow> Inl e
                | Inr i \<Rightarrow>
                    (case py_get rtmixer_apis audio_choice of
                       Inl e \<Rightarrow> Inl e
                     | Inr api \<Rightarrow> Inr (AudioStreamRTMixer i api)))
          else (let fallback_index = audio_choice - int (length rtmixer_indices)
                in case py_get fallback_indices fallback_index of
                     Inl e \<Rightarrow> Inl e
                   | Inr i \<Rightarrow> Inr (AudioStreamSD i)))"

text \<open>A system with two ASIO inputs, one output-only ASIO device and one capture card.\<close>

definition demo_rtmixer :: rtmixer where
  "demo_rtmixer =
     \<lparr>Api = [''UNSPECIFIED'', ''WASAPI'', ''ASIO''],
      get_device_info = (\<lambda>api.
        if api = ''ASIO''
        then [\<lparr>rt_name = ''Speakers'', inputChannels = 0\<rparr>,
              \<lparr>rt_name = ''Line In'', inputChannels = 2\<rparr>]
        else if api = ''WASAPI''
        then [\<lparr>rt_name = ''Mic'', inputChannels = 1\<rparr>]
        else [])\<rparr>"

definition demo_devices :: "device list" where
  "demo_devices =
     [\<lparr>name = ''Speakers'', hostapi = 0, max_input_channels = 0\<rparr>,
      \<lparr>name = ''Elgato HD60'', hostapi = 1, max_input_channels = 2\<rparr>]"

definition demo_hostapis :: "string list" where
  "demo_hostapis = [''MME'', ''Windows WASAPI'']"

text \<open>
  What the listing loops maintain: every entry of the four rtmixer lists, and of the three
  sounddevice lists, describes one device of the system at the index stored for it.
\<close>

definition rt_entry ::
  "rtmixer \<Rightarrow> string list \<Rightarrow> rt_info \<Rightarrow> string \<Rightarrow> nat \<Rightarrow> api \<Rightarrow> bool" where
  "rt_entry m ps d n i a \<longleftrightarrow>
     i < length (get_device_info m a) \<and> d = get_device_info m a ! i \<and> 0 < inputChannels d \<and>
     (\<exists>api_name \<in> set ps.
        get_rtmixer_api_by_name (Some m) api_name = Some a \<and>
        n = rt_name d @ '' ('' @ api_name @ '')'')"

definition rt_listed ::
  "rtmixer \<Rightarrow> string list \<Rightarrow> rt_info list \<times> string list \<times> nat list \<times> api list \<Rightarrow> bool" where
  "rt_listed m ps acc =
     (case acc of (devices, names, indices, apis) \<Rightarrow>
        length names = length devices \<and> length indices = length devices \<and>
        length apis = length devices \<and>
        (\<forall>k < length devices. rt_entry m ps (devices ! k) (names ! k) (indices ! k) (apis ! k)))"

definition sd_entry ::
  "string list \<Rightarrow> 'a device_scheme list \<Rightarrow> 'a device_scheme \<Rightarrow> string \<Rightarrow> nat \<Rightarrow> bool" where
  "sd_entry hostapis devices d n i \<longleftrightarrow>
     i < length devices \<and> d = devices ! i \<and> guiver_wanted d \<and>
     (\<exists>api_name. py_get hostapis (hostapi d) = Inr api_name \<and>
                 n = name d @ '' ('' @ api_name @ '')'')"

definition sd_listed ::
  "string list \<Rightarrow> 'a device_scheme list \<Rightarrow>
   'a device_scheme list \<times> string list \<times> nat list \<Rightarrow> bool" where
  "sd_listed hostapis devices acc =
     (case acc of (fd, fn, fi) \<Rightarrow>
        length fn = length fd \<and> length fi = length fd \<and>
        (\<forall>k < length fd. sd_entry hostapis devices (fd ! k) (fn ! k) (fi ! k)))"

section \<open>The four scripts, from start to the event loop\<close>

text \<open>
  How \<^verbatim>\<open>main\<close> (or the module body) ends: it returns and the interpreter exits, an
  exception leaves it (\<^verbatim>\<open>sys.exit\<close> among them), or it has entered the toolkit's
  event loop with \<^verbatim>\<open>app.exec_()\<close>.
\<close>

datatype outcome = Returned | Raised py_error | Running

definition nl :: char where
  "nl = CHR 0x0A"

definition quote :: char where
  "quote = CHR 0x27"

subsection \<open>capture_app.py\<close>

text \<open>What \<^verbatim>\<open>list_video_devices_with_names\<close> does besides returning the list.\<close>

definition capture_app_list_video_events :: "string list \<Rightarrow> event list" where
  "capture_app_list_video_events devices =
     GetInputDevices # Print (nl # ''Video Devices:'') # map Print (numbered 0 devices) @
     (if devices = [] then [Print ''No video devices found.''] else [])"

text \<open>What \<^verbatim>\<open>list_audio_input_devices_filtered\<close> does besides returning its lists.\<close>

definition capture_app_list_audio_events :: "'a device_scheme list \<Rightarrow> event list" where
  "capture_app_list_audio_events devices =
     (let (filtered_devices, filtered_names) = capture_app_filter_loop devices ([], [])
      in QueryDevices # Print (nl # ''Audio Input Devices:'') #
         (if filtered_devices = [] then [Print ''No matching audio input devices found.'']
          else map Print (numbered 0 filtered_names)))"

text \<open>
  \<^verbatim>\<open>main\<close>, lines 161 to 188. \<open>video_devices\<close> is what the filter graph reports,
  \<open>devices\<close> and \<open>all_devices\<close> the two results of \<^verbatim>\<open>sd.query_devices()\<close>, \<open>stdin\<close> the
  lines typed by the user.
\<close>

definition capture_app_main ::
  "string list \<Rightarrow> 'a device_scheme list \<Rightarrow> 'a device_scheme list \<Rightarrow> string list \<Rightarrow>
   event list \<times> outcome" where
  "capture_app_main video_devices devices all_devices stdin =
     (let ev1 = capture_app_list_video_events video_devices in
      if video_devices = []
      then (ev1 @ [Print ''No video devices detected. Exiting.''], Returned)
      else
        (case prompt_selection (int (length video_devices)) ''video'' stdin of
           (ev2, stdin2, Inl e) \<Rightarrow> (ev1 @ ev2, Raised e)
         | (ev2, stdin2, Inr video_choice) \<Rightarrow>
             (let (audio_devices, audio_names) =
                    capture_app_list_audio_input_devices_filtered devices;
                  ev3 = capture_app_list_audio_events devices
              in if audio_devices = []
                 then (ev1 @ ev2 @ ev3 @
                         [Print ''No matching audio input devices detected. Exiting.''],
                       Returned)
                 else
                   (case prompt_selection (int (length audio_devices)) ''audio input'' stdin2 of
                      (ev4, stdin3, Inl e) \<Rightarrow> (ev1 @ ev2 @ ev3 @ ev4, Raised e)
                    | (ev4, stdin3, Inr audio_choice_index) \<Rightarrow>
                        (case audio_choice_device_index devices all_devices audio_choice_index of
                           Inl e \<Rightarrow> (ev1 @ ev2 @ ev3 @ ev4 @ [QueryDevices], Raised e)
                         | Inr device_index \<Rightarrow>
                             (case (py_get video_devices video_choice,
                                    py_get audio_names audio_choice_index) of
                                (Inr video_name, Inr audio_name) \<Rightarrow>
                                  (ev1 @ ev2 @ ev3 @ ev4 @
                                   [QueryDevices,
                                    Print (nl # ''Opening video device '' @ [quote] @ video_name @
                                           [quote] @ '' and audio device '' @ [quote] @
                                           audio_name @ [quote] @ ''...''),
                                    Start (AudioThread (AudioStream device_index)),
                                    Start (VideoThread video_choice),
                                    Show ''Capture Card Viewer'',
                                    AppExec],
                                   Running)
                              | _ \<Rightarrow> (ev1 @ ev2 @ ev3 @ ev4 @ [QueryDevices],
                                      Raised IndexError)))))))"

subsection \<open>guiver/main.py\<close>

text \<open>
  \<^verbatim>\<open>main\<close>, lines 330 to 389. \<open>answer1\<close> and \<open>answer2\<close> are what the two selection
  dialogs return.
\<close>

definition guiver_main ::
  "string list \<Rightarrow> rtmixer option \<Rightarrow> string list \<Rightarrow> 'a device_scheme list \<Rightarrow>
   string \<times> bool \<Rightarrow> string \<times> bool \<Rightarrow> event list \<times> outcome" where
  "guiver_main video_devices rt hostapis devices answer1 answer2 =
     (let ev0 = [Show ''Debug Console - FPS: N/A'', GetInputDevices] in
      if video_devices = []
      then (ev0 @ [AppendMessage ''No video devices detected. Exiting.''], Raised (SystemExit 1))
      else
        (case prompt_selection_gui video_devices ''video'' answer1 of
           (ev1, Inl e) \<Rightarrow> (ev0 @ ev1, Raised e)
         | (ev1, Inr video_choice) \<Rightarrow>
             (let (rtmixer_devices, rtmixer_names, rtmixer_indices, rtmixer_apis) =
                    list_rtmixer_devices_by_apis rt preferred_api_names
              in case guiver_list_audio_input_devices_filtered hostapis devices of
                   Inl e \<Rightarrow> (ev0 @ ev1 @ [QueryDevices, QueryHostapis], Raised e)
                 | Inr (fallback_devices, fallback_names, fallback_indices) \<Rightarrow>
                     (let (all_audio_names, device_source) =
                            combine_audio rtmixer_names fallback_names;
                          ev2 = ev0 @ ev1 @ [QueryDevices, QueryHostapis]
                      in if all_audio_names = []
                         then (ev2 @ [AppendMessage ''No audio input devices found. Exiting.''],
                               Raised (SystemExit 1))
                         else
                           (case prompt_selection_gui all_audio_names ''audio input'' answer2 of
                              (ev3, Inl e) \<Rightarrow> (ev2 @ ev3, Raised e)
                            | (ev3, Inr audio_choice) \<Rightarrow>
                                (case audio_thread_for device_source rtmixer_indices rtmixer_apis
                                        fallback_indices audio_choice of
                                   Inl e \<Rightarrow> (ev2 @ ev3, Raised e)
                                 | Inr audio_thread \<Rightarrow>
                                     (case (py_get video_devices video_choice,
                                            py_get all_audio_names audio_choice) of
                                        (Inr video_name, Inr audio_name) \<Rightarrow>
                                          (ev2 @ ev3 @
                                           [AppendMessage
                                              (''Opening video device '' @ [quote] @ video_name @
                                               [quote] @ '' and audio device '' @ [quote] @
                                               audio_name @ [quote] @ ''...''),
                                            Start (AudioThread audio_thread),
                                            Start (VideoThread video_choice),
                                            Show ''Capture Card Viewer'',
                                            AppExec],
                                           Running)
                                      | _ \<Rightarrow> (ev2 @ ev3, Raised IndexError))))))))"

subsection \<open>other.py\<close>

text \<open>
  The module body with \<^verbatim>\<open>TestCamera.__init__\<close>; \<open>cameras\<close> is what
  \<^verbatim>\<open>QMediaDevices.videoInputs()\<close> returns. The script takes the first camera.
\<close>

definition other_main :: "string list \<Rightarrow> event list \<times> outcome" where
  "other_main cameras =
     (case cameras of
        [] \<Rightarrow> ([VideoInputs, Critical ''Error'' ''No cameras found''], Raised (SystemExit 1))
      | camera # _ \<Rightarrow>
          ([VideoInputs, CameraStart camera, Show ''Test Camera'', AppExec], Running))"

text \<open>The slot \<^verbatim>\<open>camera_error\<close>, connected to the camera's error signal.\<close>

definition camera_error :: "string \<Rightarrow> event list \<times> outcome" where
  "camera_error errorString = ([Critical ''Camera error'' errorString], Raised (SystemExit 1))"

subsection \<open>asiofinder.py\<close>

text \<open>The loop of lines 8 to 11: the index of the first host API named \<open>asio\<close>.\<close>

fun find_asio :: "nat \<Rightarrow> string list \<Rightarrow> nat option" where
  "find_asio i [] = None"
| "find_asio i (h # hs) = (if lower h = ''asio'' then Some i else find_asio (Suc i) hs)"

text \<open>The loop of lines 19 to 21 over \<^verbatim>\<open>enumerate(devices)\<close>.\<close>

fun asio_device_lines :: "nat \<Rightarrow> nat \<Rightarrow> 'a device_scheme list \<Rightarrow> event list" where
  "asio_device_lines asio_hostapi_index i [] = []"
| "asio_device_lines asio_hostapi_index i (dev # devs) =
     (if hostapi dev = int asio_hostapi_index
      then Print (''  '' @ py_str i @ '': '' @ name dev) #
           asio_device_lines asio_hostapi_index (Suc i) devs
      else asio_device_lines asio_hostapi_index (Suc i) devs)"

text \<open>
  The whole module; \<open>hostapis\<close> holds the names of \<^verbatim>\<open>sd.query_hostapis()\<close>, which the
  script calls twice, the first time after it has printed the heading of line 3.
\<close>

definition asiofinder_main :: "string list \<Rightarrow> 'a device_scheme list \<Rightarrow> event list \<times> outcome" where
  "asiofinder_main hostapis devices =
     (Print ''Host APIs:'' # QueryHostapis # map Print (numbered 0 hostapis) @
      QueryHostapis #
      (case find_asio 0 hostapis of
         None \<Rightarrow> [Print ''No ASIO host API found on this system.'']
       | Some asio_hostapi_index \<Rightarrow>
           Print (''ASIO host API found at index '' @ py_str asio_hostapi_index) #
           Print ''Devices supporting ASIO:'' #
           QueryDevices # asio_device_lines asio_hostapi_index 0 devices),
      Returned)"

section \<open>The running application: two workers and the window\<close>

text \<open>
  capture_app and guiver/main share the structure of their threads; they differ in where
  a message goes. In capture_app every message is printed. In guiver/main a worker sends
  it through its \<^verbatim>\<open>debug\<close> signal and the window appends it to the debug console.
\<close>

datatype app = CaptureApp | GuiverApp

definition tell :: "app \<Rightarrow> string \<Rightarrow> event" where
  "tell a msg = (case a of CaptureApp \<Rightarrow> Print msg | GuiverApp \<Rightarrow> EmitDebug msg)"

definition say :: "app \<Rightarrow> string \<Rightarrow> event" where
  "say a msg = (case a of CaptureApp \<Rightarrow> Print msg | GuiverApp \<Rightarrow> AppendMessage msg)"

definition py_str_int :: "int \<Rightarrow> string" where
  "py_str_int i = (if i < 0 then CHR ''-'' # py_str (nat (- i)) else py_str (nat i))"

subsection \<open>\<^verbatim>\<open>VideoThread.run\<close>\<close>

text \<open>
  Where the video worker stands: before \<^verbatim>\<open>run\<close> has opened the camera, at the test of
  the \<^verbatim>\<open>while\<close> loop, inside the loop body, or returned from \<^verbatim>\<open>run\<close>.
\<close>

datatype vpc = V_Start | V_Poll | V_Body | V_Done

text \<open>
  What the camera library answers during one step: whether each backend opens the device,
  the texts of the three properties read back, whether the handle is still open, whether
  \<^verbatim>\<open>cap.read()\<close> delivered a frame, and (guiver/main) whether a second has passed since
  the last report, whether the measured rate is under 30, and the rate's text.
\<close>

record video_env =
  dshow_ok :: bool
  msmf_ok :: bool
  width_text :: string
  height_text :: string
  fps_text :: string
  is_opened :: bool
  ret :: bool
  second_elapsed :: bool
  low_fps :: bool
  actual_fps :: string

text \<open>
  Lines 46 to 63 of capture_app (143 to 163 of guiver/main): both backends are tried in
  turn, and \<^verbatim>\<open>run\<close> returns when neither opens the device.
\<close>

definition video_open :: "app \<Rightarrow> int \<Rightarrow> video_env \<Rightarrow> vpc \<times> event list" where
  "video_open a device_index env =
     (let idx = py_str_int device_index;
          ev_dshow = [tell a (''Trying to open video device '' @ idx @ '' with CAP_DSHOW...''),
                      VideoCapture device_index CAP_DSHOW];
          ev_msmf = (if dshow_ok env then []
                     else [tell a (''CAP_DSHOW failed, trying CAP_MSMF for device '' @ idx @ ''...''),
                           VideoCapture device_index CAP_MSMF]);
          opened = (dshow_ok env \<or> msmf_ok env)
      in if \<not> opened
         then (V_Done,
               ev_dshow @ ev_msmf @
               [tell a (''Failed to open camera device '' @ idx @
                        '' with both CAP_DSHOW and CAP_MSMF.'')])
         else (V_Poll,
               ev_dshow @ ev_msmf @
               [tell a (''Camera device '' @ idx @ '' opened successfully.''),
                CapSet CAP_PROP_FRAME_WIDTH 1920,
                CapSet CAP_PROP_FRAME_HEIGHT 1080,
                CapSet CAP_PROP_FPS 60] @
               (case a of
                  CaptureApp \<Rightarrow>
                    [Print ''Requested resolution and FPS:'',
                     CapGet CAP_PROP_FRAME_WIDTH, Print (''  Width: '' @ width_text env),
                     CapGet CAP_PROP_FRAME_HEIGHT, Print (''  Height: '' @ height_text env),
                     CapGet CAP_PROP_FPS, Print (''  FPS: '' @ fps_text env)]
                | GuiverApp \<Rightarrow>
                    [CapGet CAP_PROP_FRAME_WIDTH, CapGet CAP_PROP_FRAME_HEIGHT,
                     CapGet CAP_PROP_FPS,
                     EmitDebug ''Requested resolution and FPS:'',
                     EmitDebug (''  Width: '' @ width_text env),
                     EmitDebug (''  Height: '' @ height_text env),
                     EmitDebug (''  FPS: '' @ fps_text env)])))"

text \<open>
  One pass through the loop body, lines 66 to 75 of capture_app (169 to 191 of
  guiver/main, which also reports the frame rate once a second).
\<close>

definition video_body :: "app \<Rightarrow> video_env \<Rightarrow> event list" where
  "video_body a env =
     (if \<not> ret env then [CapRead, Msleep 10]
      else CapRead #
           (if a = GuiverApp \<and> second_elapsed env
            then EmitFps (actual_fps env) #
                 (if low_fps env
                  then [EmitDebug (''Warning: Low FPS detected: '' @ actual_fps env)]
                  else [])
            else []) @
           [EmitPixmap])"

text \<open>
  One step of the worker. \<open>running\<close> is the value of \<^verbatim>\<open>self.running\<close> at this moment;
  the worker reads it only at the loop test, where it leaves the loop, releases the
  handle and returns as soon as the flag is false or the handle has closed.
\<close>

definition video_step :: "app \<Rightarrow> int \<Rightarrow> video_env \<Rightarrow> bool \<Rightarrow> vpc \<Rightarrow> vpc \<times> event list" where
  "video_step a device_index env running pc =
     (case pc of
        V_Start \<Rightarrow> video_open a device_index env
      | V_Poll \<Rightarrow>
          if running \<and> is_opened env then (V_Body, [])
          else (V_Done, [CapRelease, tell a ''Video thread stopped and camera released.''])
      | V_Body \<Rightarrow> (V_Poll, video_body a env)
      | V_Done \<Rightarrow> (V_Done, []))"

subsection \<open>The audio workers\<close>

text \<open>
  Where an audio worker stands: before \<^verbatim>\<open>run\<close> has opened its stream, at the test of
  the \<^verbatim>\<open>while\<close> loop, inside the loop body (a sleep), or returned from \<^verbatim>\<open>run\<close>.
\<close>

datatype apc = A_Start | A_Poll | A_Body | A_Done

text \<open>
  The attribute \<^verbatim>\<open>self.mixer\<close> of an \<^verbatim>\<open>AudioStreamRTMixer\<close>: still \<^verbatim>\<open>None\<close>, a mixer
  whose stream is not running, a mixer whose stream is running, or a mixer that
  \<^verbatim>\<open>stop\<close> has stopped and closed. \<^verbatim>\<open>self.mixer.is_stream_running()\<close> holds in the
  third state only.
\<close>

datatype mixer_state = NoMixer | MixerIdle | MixerRunning | MixerClosed

text \<open>
  What the audio library answers during one step: whether the \<^verbatim>\<open>rtmixer\<close> module was
  imported, whether the mixer could be made, whether the stream could be opened or
  started, and the text of the exception if not.
\<close>

record audio_env =
  rtmixer_installed :: bool
  mixer_ok :: bool
  stream_ok :: bool
  error_text :: string

text \<open>
  The part of \<^verbatim>\<open>run\<close> before the loop, for each of the three audio classes. The third
  component is \<^verbatim>\<open>self.mixer\<close> afterwards.
\<close>

definition audio_open :: "audio_thread \<Rightarrow> audio_env \<Rightarrow> apc \<times> event list \<times> mixer_state" where
  "audio_open w env =
     (case w of
        AudioStream i \<Rightarrow>
          if stream_ok env
          then (A_Poll,
                [Print (''Starting audio stream on device index '' @ py_str i @ ''...''),
                 SdStream i None,
                 Print ''Audio stream started successfully.''], NoMixer)
          else (A_Done,
                [Print (''Starting audio stream on device index '' @ py_str i @ ''...''),
                 SdStream i None,
                 Print (''Audio stream error: '' @ error_text env)], NoMixer)
      | AudioStreamSD i \<Rightarrow>
          if stream_ok env
          then (A_Poll,
                [EmitDebug (''Starting sounddevice audio stream on device index '' @ py_str i @
                            '' with low latency...''),
                 SdStream i (Some i),
                 EmitDebug ''Sounddevice audio stream started successfully.''], NoMixer)
          else (A_Done,
                [EmitDebug (''Starting sounddevice audio stream on device index '' @ py_str i @
                            '' with low latency...''),
                 SdStream i (Some i),
                 EmitDebug (''Sounddevice audio stream error: '' @ error_text env)], NoMixer)
      | AudioStreamRTMixer i api \<Rightarrow>
          if \<not> rtmixer_installed env
          then (A_Done,
                [EmitDebug ''python-rtmixer not installed! Cannot start RTMixer audio stream.''],
                NoMixer)
          else if \<not> mixer_ok env
          then (A_Done,
                [EmitDebug (''Starting RTMixer audio stream on device index '' @ py_str i @
                            '' with API '' @ api @ ''...''),
                 RtMixerOpen i api,
                 EmitDebug (''RTMixer audio stream error: '' @ error_text env)], NoMixer)
          else if \<not> stream_ok env
          then (A_Done,
                [EmitDebug (''Starting RTMixer audio stream on device index '' @ py_str i @
                            '' with API '' @ api @ ''...''),
                 RtMixerOpen i api, StartStream,
                 EmitDebug (''RTMixer audio stream error: '' @ error_text env)], MixerIdle)
          else (A_Poll,
                [EmitDebug (''Starting RTMixer audio stream on device index '' @ py_str i @
                            '' with API '' @ api @ ''...''),
                 RtMixerOpen i api, StartStream,
                 EmitDebug ''RTMixer audio stream started successfully.''], MixerRunning))"

text \<open>
  The loop test. A sounddevice worker leaves the loop, and with it the \<^verbatim>\<open>with\<close> block
  whose exit closes the stream, as soon as the flag is false; an rtmixer worker also
  leaves when the mixer's stream is not running.
\<close>

definition audio_poll :: "audio_thread \<Rightarrow> mixer_state \<Rightarrow> bool \<Rightarrow> apc \<times> event list" where
  "audio_poll w m running =
     (case w of
        AudioStreamRTMixer i api \<Rightarrow>
          if running \<and> m = MixerRunning then (A_Body, []) else (A_Done, [])
      | _ \<Rightarrow>
          if running then (A_Body, []) else (A_Done, [StreamClose]))"

text \<open>The loop body: \<^verbatim>\<open>sd.sleep(100)\<close>, or \<^verbatim>\<open>time.sleep(0.1)\<close> for rtmixer.\<close>

definition audio_body :: "audio_thread \<Rightarrow> event list" where
  "audio_body w = (case w of AudioStreamRTMixer i api \<Rightarrow> [TimeSleep] | _ \<Rightarrow> [SdSleep 100])"

text \<open>
  One step of an audio worker, given the flag and \<^verbatim>\<open>self.mixer\<close> at this moment; the
  third component is \<^verbatim>\<open>self.mixer\<close> afterwards.
\<close>

definition audio_step ::
  "audio_thread \<Rightarrow> audio_env \<Rightarrow> bool \<Rightarrow> mixer_state \<Rightarrow> apc \<Rightarrow>
   apc \<times> event list \<times> mixer_state" where
  "audio_step w env running m pc =
     (case pc of
        A_Start \<Rightarrow> audio_open w env
      | A_Poll \<Rightarrow> (let (pc', evs) = audio_poll w m running in (pc', evs, m))
      | A_Body \<Rightarrow> (A_Poll, audio_body w, m)
      | A_Done \<Rightarrow> (A_Done, [], m))"

text \<open>
  The callbacks, which the audio library calls on a thread of its own. A sounddevice
  worker hands its callback to the stream of its \<^verbatim>\<open>with\<close> block (lines 17 to 20 of
  capture_app, 61 to 64 of guiver/main): it is called while that stream is open, that is,
  while the worker is in its loop. An rtmixer worker hands \<^verbatim>\<open>audio_callback\<close> (lines 93
  to 98) to \<^verbatim>\<open>start_stream\<close>: it is called while the mixer's stream is running. Either
  callback reports a status that is not empty.
\<close>

definition is_sounddevice :: "audio_thread \<Rightarrow> bool" where
  "is_sounddevice w = (case w of AudioStreamRTMixer _ _ \<Rightarrow> False | _ \<Rightarrow> True)"

definition callback ::
  "app \<Rightarrow> audio_thread \<Rightarrow> string \<Rightarrow> apc \<Rightarrow> mixer_state \<Rightarrow> event list" where
  "callback a w status pc m =
     (case w of
        AudioStreamRTMixer i api \<Rightarrow>
          if m = MixerRunning \<and> status \<noteq> []
          then [EmitDebug (''RTMixer audio callback status: '' @ status)] else []
      | _ \<Rightarrow>
          if (pc = A_Poll \<or> pc = A_Body) \<and> status \<noteq> []
          then [tell a (''Audio Status: '' @ status)] else [])"

subsection \<open>\<^verbatim>\<open>CaptureWindow.closeEvent\<close> and the whole system\<close>

text \<open>
  Where the GUI thread stands: in the event loop with the window open, or inside
  \<^verbatim>\<open>closeEvent\<close> at one of its blocking calls, or past the end of the handler. In
  guiver/main, closing the debug console calls \<^verbatim>\<open>close()\<close> on the capture window,
  which runs this same handler.
\<close>

datatype mpc = M_Open | M_WaitVideo | M_StopAudio | M_WaitAudio | M_WaitAgain | M_Finish | M_Closed

record config =
  app_of :: app
  video_index :: int
  audio_worker :: audio_thread

record sys =
  v_running :: bool
  a_running :: bool
  vpc_of :: vpc
  apc_of :: apc
  mixer_of :: mixer_state
  mpc_of :: mpc
  trace :: "(tid \<times> event) list"

text \<open>What the toolkit answers to the handler: whether the debug window is visible.\<close>

record main_env =
  debug_visible :: bool

text \<open>
  What happens next: the GUI thread moves on (the user closes the window, or the handler
  continues, or a \<^verbatim>\<open>wait()\<close> returns), a worker makes a step, the audio library calls
  the callback, or the mixer's stream stops by itself.
\<close>

datatype choice =
    MainStep main_env
  | VideoStep video_env
  | AudioStep audio_env
  | CallbackStep string
  | StreamStops

text \<open>
  The \<^verbatim>\<open>stop\<close> methods of the audio classes, up to their \<^verbatim>\<open>wait()\<close>: all clear the flag
  and call \<^verbatim>\<open>quit()\<close>; \<^verbatim>\<open>AudioStreamRTMixer.stop\<close> (lines 121 to 127) stops and
  closes the mixer in between, when \<^verbatim>\<open>self.mixer\<close> is not \<^verbatim>\<open>None\<close> and its stream is
  running.
\<close>

definition audio_stop :: "audio_thread \<Rightarrow> mixer_state \<Rightarrow> event list \<times> mixer_state" where
  "audio_stop w m =
     (case w of
        AudioStreamRTMixer i api \<Rightarrow>
          if m = MixerRunning
          then ([SetRunningFalse Audio, StopStream, MixerClose, Quit Audio], MixerClosed)
          else ([SetRunningFalse Audio, Quit Audio], m)
      | _ \<Rightarrow> ([SetRunningFalse Audio, Quit Audio], m))"

text \<open>
  The handler, lines 108 to 116 of capture_app and 231 to 243 of guiver/main, cut at its
  blocking calls: \<^verbatim>\<open>self.thread.stop()\<close> clears the flag and waits for the video
  worker; \<^verbatim>\<open>self.audio_thread.stop()\<close> clears the flag and waits for the audio worker;
  \<^verbatim>\<open>self.audio_thread.wait()\<close> waits once more; then the windows are closed. A
  \<^verbatim>\<open>wait()\<close> returns only when the worker has returned from \<^verbatim>\<open>run\<close>.
\<close>

definition main_step :: "config \<Rightarrow> main_env \<Rightarrow> sys \<Rightarrow> sys" where
  "main_step cfg env s =
     (case mpc_of s of
        M_Open \<Rightarrow>
          s\<lparr>v_running := False, mpc_of := M_WaitVideo,
            trace := trace s @ [(Main, say (app_of cfg) ''Stopping video thread...''),
                                (Main, SetRunningFalse Video)]\<rparr>
      | M_WaitVideo \<Rightarrow>
          if vpc_of s = V_Done
          then s\<lparr>mpc_of := M_StopAudio, trace := trace s @ [(Main, Wait Video)]\<rparr>
          else s
      | M_StopAudio \<Rightarrow>
          s\<lparr>a_running := False, mpc_of := M_WaitAudio,
            mixer_of := snd (audio_stop (audio_worker cfg) (mixer_of s)),
            trace := trace s @
              (Main, say (app_of cfg) ''Stopping audio thread...'') #
              map (Pair Main) (fst (audio_stop (audio_worker cfg) (mixer_of s)))\<rparr>
      | M_WaitAudio \<Rightarrow>
          if apc_of s = A_Done
          then s\<lparr>mpc_of := M_WaitAgain, trace := trace s @ [(Main, Wait Audio)]\<rparr>
          else s
      | M_WaitAgain \<Rightarrow>
          if apc_of s = A_Done
          then s\<lparr>mpc_of := M_Finish, trace := trace s @ [(Main, Wait Audio)]\<rparr>
          else s
      | M_Finish \<Rightarrow>
          s\<lparr>mpc_of := M_Closed,
            trace := trace s @
              (Main, say (app_of cfg) ''Exiting application...'') #
              (if app_of cfg = GuiverApp \<and> debug_visible env
               then [(Main, CloseWindow ''Debug Console'')] else []) @
              [(Main, AppQuit), (Main, Accept)]\<rparr>
      | M_Closed \<Rightarrow> s)"

definition step :: "config \<Rightarrow> choice \<Rightarrow> sys \<Rightarrow> sys" where
  "step cfg c s =
     (case c of
        MainStep env \<Rightarrow> main_step cfg env s
      | VideoStep env \<Rightarrow>
          (let (pc', evs) = video_step (app_of cfg) (video_index cfg) env (v_running s) (vpc_of s)
           in s\<lparr>vpc_of := pc', trace := trace s @ map (Pair Video) evs\<rparr>)
      | AudioStep env \<Rightarrow>
          (let (pc', evs, m') =
                 audio_step (audio_worker cfg) env (a_running s) (mixer_of s) (apc_of s)
           in s\<lparr>apc_of := pc', mixer_of := m', trace := trace s @ map (Pair Audio) evs\<rparr>)
      | CallbackStep status \<Rightarrow>
          s\<lparr>trace := trace s @
                map (Pair Audio)
                  (callback (app_of cfg) (audio_worker cfg) status (apc_of s) (mixer_of s))\<rparr>
      | StreamStops \<Rightarrow>
          if mixer_of s = MixerRunning then s\<lparr>mixer_of := MixerIdle\<rparr> else s)"

fun exec :: "config \<Rightarrow> choice list \<Rightarrow> sys \<Rightarrow> sys" where
  "exec cfg [] s = s"
| "exec cfg (c # cs) s = exec cfg cs (step cfg c s)"

text \<open>
  The state in which \<^verbatim>\<open>main\<close> enters the event loop: both workers have been started
  with their flags set, and neither has run yet.
\<close>

definition started :: sys where
  "started = \<lparr>v_running = True, a_running = True, vpc_of = V_Start, apc_of = A_Start,
              mixer_of = NoMixer, mpc_of = M_Open, trace = []\<rparr>"

section \<open>Reading a trace\<close>

text \<open>
  A UI update is a signal a worker emits towards a widget (a frame, a debug line, a frame
  rate) or a line the GUI thread appends to the debug console. A closing event is a call
  that closes a window or ends the event loop.
\<close>

definition is_ui_update :: "event \<Rightarrow> bool" where
  "is_ui_update e =
     (case e of
        EmitPixmap \<Rightarrow> True | EmitDebug _ \<Rightarrow> True | EmitFps _ \<Rightarrow> True
      | AppendMessage _ \<Rightarrow> True | _ \<Rightarrow> False)"

definition is_closing :: "event \<Rightarrow> bool" where
  "is_closing e =
     (case e of CloseWindow _ \<Rightarrow> True | AppQuit \<Rightarrow> True | Accept \<Rightarrow> True | _ \<Rightarrow> False)"

text \<open>No UI update follows the first closing event.\<close>

fun quiet_after_close :: "(tid \<times> event) list \<Rightarrow> bool" where
  "quiet_after_close [] = True"
| "quiet_after_close (x # xs) =
     (if is_closing (snd x) then list_all (\<lambda>y. \<not> is_ui_update (snd y)) xs
      else quiet_after_close xs)"

text \<open>
  The steps of the shutdown in the handler: clearing a worker's flag, a \<^verbatim>\<open>wait()\<close> that
  has returned, and the end of the handler.
\<close>

definition is_shutdown_step :: "event \<Rightarrow> bool" where
  "is_shutdown_step e =
     (case e of
        SetRunningFalse _ \<Rightarrow> True | Wait _ \<Rightarrow> True | AppQuit \<Rightarrow> True | Accept \<Rightarrow> True
      | _ \<Rightarrow> False)"

definition shutdown_steps :: "(tid \<times> event) list \<Rightarrow> event list" where
  "shutdown_steps t = filter is_shutdown_step (map snd (filter (\<lambda>x. fst x = Main) t))"

definition shutdown_sequence :: "event list" where
  "shutdown_sequence =
     [SetRunningFalse Video, Wait Video, SetRunningFalse Audio, Wait Audio, Wait Audio,
      AppQuit, Accept]"

text \<open>How many steps of the shutdown lie behind the GUI thread at each of its positions.\<close>

fun progress :: "mpc \<Rightarrow> nat" where
  "progress M_Open = 0"
| "progress M_WaitVideo = 1"
| "progress M_StopAudio = 2"
| "progress M_WaitAudio = 3"
| "progress M_WaitAgain = 4"
| "progress M_Finish = 5"
| "progress M_Closed = 7"

text \<open>The backends tried, in order, and counters for the loop bodies run.\<close>

fun attempts :: "event list \<Rightarrow> backend list" where
  "attempts [] = []"
| "attempts (VideoCapture i b # es) = b # attempts es"
| "attempts (e # es) = attempts es"





definition main_steps :: "choice list \<Rightarrow> nat" where
  "main_steps cs = length (filter (\<lambda>c. case c of MainStep _ \<Rightarrow> True | _ \<Rightarrow> False) cs)"


text \<open>
  What the handler keeps true while it runs: a worker has returned once its \<^verbatim>\<open>wait()\<close>
  lies behind the GUI thread, no closing event has happened before the handler's last
  step, and the steps of the shutdown seen so far are those of \<open>shutdown_sequence\<close>.
\<close>

definition handler_inv :: "sys \<Rightarrow> bool" where
  "handler_inv s \<longleftrightarrow>
     (2 \<le> progress (mpc_of s) \<longrightarrow> vpc_of s = V_Done) \<and>
     (4 \<le> progress (mpc_of s) \<longrightarrow> apc_of s = A_Done) \<and>
     (mpc_of s \<noteq> M_Closed \<longrightarrow> (\<forall>x \<in> set (trace s). \<not> is_closing (snd x))) \<and>
     shutdown_steps (trace s) = take (progress (mpc_of s)) shutdown_sequence"

text \<open>
  What holds of \<^verbatim>\<open>self.mixer\<close>: only an rtmixer worker that has left the start of
  \<^verbatim>\<open>run\<close> has one, and once \<^verbatim>\<open>stop\<close> has stopped its stream it stays closed.
\<close>

definition mixer_inv :: "config \<Rightarrow> sys \<Rightarrow> bool" where
  "mixer_inv cfg s \<longleftrightarrow>
     (is_sounddevice (audio_worker cfg) \<longrightarrow> mixer_of s = NoMixer) \<and>
     (apc_of s = A_Start \<longrightarrow> mixer_of s = NoMixer) \<and>
     ((Main, StopStream) \<in> set (trace s) \<longrightarrow> mixer_of s = MixerClosed)"

text \<open>
  The audio side falls silent with the handler: the worker is a sounddevice worker, or
  \<^verbatim>\<open>stop\<close> has stopped the mixer's stream.
\<close>

definition silenced :: "config \<Rightarrow> sys \<Rightarrow> bool" where
  "silenced cfg s \<longleftrightarrow>
     is_sounddevice (audio_worker cfg) \<or> (Main, StopStream) \<in> set (trace s)"

definition silence_inv :: "config \<Rightarrow> sys \<Rightarrow> bool" where
  "silence_inv cfg s \<longleftrightarrow> (silenced cfg s \<or> mpc_of s \<noteq> M_Closed \<longrightarrow> quiet_after_close (trace s))"





text \<open>The backends tried so far in a run, and what holds of them at every moment.\<close>

definition tried :: "sys \<Rightarrow> backend list" where
  "tried s = attempts (map snd (trace s))"

definition open_inv :: "sys \<Rightarrow> bool" where
  "open_inv s \<longleftrightarrow>
     (if vpc_of s = V_Start then tried s = []
      else tried s = [CAP_DSHOW] \<or> tried s = [CAP_DSHOW, CAP_MSMF])"

text \<open>The kinds of event in the run of a script.\<close>

definition is_listing :: "event \<Rightarrow> bool" where
  "is_listing e =
     (case e of
        GetInputDevices \<Rightarrow> True | QueryDevices \<Rightarrow> True | QueryHostapis \<Rightarrow> True
      | VideoInputs \<Rightarrow> True | _ \<Rightarrow> False)"

definition is_prompt :: "event \<Rightarrow> bool" where
  "is_prompt e = (case e of Input _ \<Rightarrow> True | GetItem _ _ \<Rightarrow> True | _ \<Rightarrow> False)"

definition is_video_open :: "event \<Rightarrow> bool" where
  "is_video_open e =
     (case e of Start (VideoThread _) \<Rightarrow> True | CameraStart _ \<Rightarrow> True | _ \<Rightarrow> False)"

definition is_audio_open :: "event \<Rightarrow> bool" where
  "is_audio_open e = (case e of Start (AudioThread _) \<Rightarrow> True | _ \<Rightarrow> False)"

definition is_start :: "event \<Rightarrow> bool" where
  "is_start e = (case e of Start _ \<Rightarrow> True | _ \<Rightarrow> False)"













text \<open>
  The process ends by itself: \<^verbatim>\<open>main\<close> returns, or \<^verbatim>\<open>sys.exit\<close> is called.
\<close>

definition exits :: "outcome \<Rightarrow> bool" where
  "exits out = (case out of Returned \<Rightarrow> True | Raised (SystemExit _) \<Rightarrow> True | _ \<Rightarrow> False)"

subsection \<open>Sample runs\<close>

definition camera_works :: video_env where
  "camera_works =
     \<lparr>dshow_ok = True, msmf_ok = False, width_text = ''1920.0'', height_text = ''1080.0'',
      fps_text = ''60.0'', is_opened = True, ret = True, second_elapsed = True,
      low_fps = True, actual_fps = ''12.50''\<rparr>"

definition camera_fails :: video_env where
  "camera_fails = camera_works\<lparr>dshow_ok := False\<rparr>"

definition audio_works :: audio_env where
  "audio_works =
     \<lparr>rtmixer_installed = True, mixer_ok = True, stream_ok = True,
      error_text = ''Invalid device''\<rparr>"

definition audio_fails :: audio_env where
  "audio_fails = audio_works\<lparr>stream_ok := False\<rparr>"

definition windows_visible :: main_env where
  "windows_visible = \<lparr>debug_visible = True\<rparr>"

definition capture_app_config :: config where
  "capture_app_config = \<lparr>app_of = CaptureApp, video_index = 0, audio_worker = AudioStream 3\<rparr>"

definition guiver_config :: config where
  "guiver_config = \<lparr>app_of = GuiverApp, video_index = 1, audio_worker = AudioStreamSD 2\<rparr>"

definition rtmixer_config :: config where
  "rtmixer_config =
     \<lparr>app_of = GuiverApp, video_index = 1, audio_worker = AudioStreamRTMixer 0 ''ASIO''\<rparr>"

text \<open>
  Both workers start and run, the user closes the window while a frame is being read, the
  workers finish their pass and return, and the handler runs to its end.
\<close>

definition close_while_running :: "choice list" where
  "close_while_running =
     [VideoStep camera_works, AudioStep audio_works, VideoStep camera_works,
      VideoStep camera_works, AudioStep audio_works, VideoStep camera_works,
      MainStep windows_visible, MainStep windows_visible,
      VideoStep camera_works, CallbackStep ''input overflow'', VideoStep camera_works,
      MainStep windows_visible, MainStep windows_visible,
      AudioStep audio_works, AudioStep audio_works,
      MainStep windows_visible, MainStep windows_visible, MainStep windows_visible,
      VideoStep camera_works, CallbackStep ''input overflow'']"



text \<open>
  An event that opens a device handle or starts a worker, and the start of a video
  worker.
\<close>

definition is_open :: "event \<Rightarrow> bool" where
  "is_open e = (case e of Start _ \<Rightarrow> True | CameraStart _ \<Rightarrow> True | _ \<Rightarrow> False)"

definition is_video_start :: "event \<Rightarrow> bool" where
  "is_video_start e = (case e of Start (VideoThread _) \<Rightarrow> True | _ \<Rightarrow> False)"

text \<open>A system whose only input device is not one of the capture cards looked for.\<close>

definition no_capture_card :: "device list" where
  "no_capture_card = [\<lparr>name = ''Microphone'', hostapi = 0, max_input_channels = 2\<rparr>]"

text \<open>
  The window is closed before the rtmixer worker has made its mixer: \<^verbatim>\<open>stop\<close> finds
  \<^verbatim>\<open>self.mixer\<close> to be \<^verbatim>\<open>None\<close>, the worker then makes the mixer, starts the stream,
  sees the cleared flag and returns, and the handler runs to its end. The stream is still
  running, and the library calls the callback with a status.
\<close>

definition closed_before_mixer_made :: "choice list" where
  "closed_before_mixer_made =
     [VideoStep camera_works, VideoStep camera_works,
      MainStep windows_visible, VideoStep camera_works, VideoStep camera_works,
      MainStep windows_visible, MainStep windows_visible,
      AudioStep audio_works, AudioStep audio_works,
      MainStep windows_visible, MainStep windows_visible, MainStep windows_visible,
      CallbackStep ''input overflow'']"

text \<open>
  The same, with the window closed after the stream has started: \<^verbatim>\<open>stop\<close> stops it.
\<close>

definition closed_after_mixer_made :: "choice list" where
  "closed_after_mixer_made =
     [VideoStep camera_works, VideoStep camera_works, AudioStep audio_works,
      AudioStep audio_works, CallbackStep ''input overflow'',
      MainStep windows_visible, VideoStep camera_works, VideoStep camera_works,
      MainStep windows_visible, MainStep windows_visible,
      AudioStep audio_works, AudioStep audio_works,
      MainStep windows_visible, MainStep windows_visible, MainStep windows_visible,
      CallbackStep ''input overflow'']"

text \<open>
  The mixer's stream stops by itself while the rtmixer worker sleeps; the worker leaves
  its loop and returns. When the window is closed afterwards, \<^verbatim>\<open>stop\<close> finds a mixer
  whose stream is not running and does not close it.
\<close>

definition stream_stops_then_closed :: "choice list" where
  "stream_stops_then_closed =
     [VideoStep camera_works, VideoStep camera_works,
      AudioStep audio_works, AudioStep audio_works, StreamStops,
      AudioStep audio_works, AudioStep audio_works,
      MainStep windows_visible, VideoStep camera_works, VideoStep camera_works,
      MainStep windows_visible, MainStep windows_visible, MainStep windows_visible,
      MainStep windows_visible, MainStep windows_visible]"






section \<open>Properties of the device filters\<close>

lemma capture_app_filter_loop_eq:
  "capture_app_filter_loop devs (fd, fn) =
     (fd @ filter capture_app_wanted devs, fn @ map name (filter capture_app_wanted devs))"
  by (induction devs arbitrary: fd fn) auto

lemma capture_app_filtered_eq:
  "capture_app_list_audio_input_devices_filtered devices =
     (filter capture_app_wanted devices, map name (filter capture_app_wanted devices))"
  by (simp add: capture_app_list_audio_input_devices_filtered_def capture_app_filter_loop_eq)

lemma filter_by_positions:
  "filter P xs = map (nth xs) (filter (\<lambda>i. P (xs ! i)) [0..<length xs])"
proof -
  have "filter P xs = filter P (map (nth xs) [0..<length xs])"
    by (simp add: map_nth)
  also have "\<dots> = map (nth xs) (filter (P \<circ> nth xs) [0..<length xs])"
    by (simp only: filter_map)
  finally show ?thesis by (simp add: comp_def)
qed

lemma py_index_first:
  "x \<in> set xs \<Longrightarrow>
   \<exists>k. py_index xs x = Inr k \<and> k < length xs \<and> xs ! k = x \<and> (\<forall>j<k. xs ! j \<noteq> x)"
proof (induction xs)
  case Nil
  then show ?case by simp
next
  case (Cons y ys)
  show ?case
  proof (cases "y = x")
    case True
    then show ?thesis by simp
  next
    case False
    with Cons.prems have "x \<in> set ys" by simp
    from Cons.IH[OF this] obtain k where
      k: "py_index ys x = Inr k" "k < length ys" "ys ! k = x" "\<forall>j<k. ys ! j \<noteq> x" by blast
    have "\<forall>j<Suc k. (y # ys) ! j \<noteq> x"
      using False k(4) by (auto simp: less_Suc_eq_0_disj)
    with False k show ?thesis by simp
  qed
qed

lemma py_index_absent: "x \<notin> set xs \<Longrightarrow> py_index xs x = Inl ValueError"
  by (induction xs) auto

lemma count_list_one_unique:
  "count_list xs x = 1 \<Longrightarrow> i < length xs \<Longrightarrow> j < length xs \<Longrightarrow>
   xs ! i = x \<Longrightarrow> xs ! j = x \<Longrightarrow> i = j"
proof (induction xs arbitrary: i j)
  case Nil
  then show ?case by simp
next
  case (Cons y ys)
  show ?case
  proof (cases "y = x")
    case True
    with Cons.prems(1) have "count_list ys x = 0" by simp
    then have nin: "x \<notin> set ys" by (simp add: count_list_0_iff)
    have "i = 0" using Cons.prems(2,4) nin by (cases i) auto
    moreover have "j = 0" using Cons.prems(3,5) nin by (cases j) auto
    ultimately show ?thesis by simp
  next
    case False
    with Cons.prems(1) have c: "count_list ys x = 1" by simp
    from False Cons.prems obtain i' j' where "i = Suc i'" "j = Suc j'"
      by (cases i; cases j) auto
    with Cons.IH[OF c, of i' j'] Cons.prems show ?thesis by simp
  qed
qed

lemma twin_devices_first_occurrence:
  "0 \<le> (1::int) \<and>
   1 < int (length (fst (capture_app_list_audio_input_devices_filtered twin_devices))) \<and>
   audio_choice_device_index twin_devices twin_devices 1
     \<noteq> Inr (wanted_positions twin_devices ! nat 1)"
  by code_simp

text \<open>
  C10. In capture_app, with \<^verbatim>\<open>sd.query_devices()\<close> returning the same enumeration both
  times, let the user choose entry \<open>c\<close> of the filtered list and let \<open>p\<close> be the position
  of that device in the enumeration. The lookup \<^verbatim>\<open>all_devices.index(...)\<close> returns the
  first position \<open>k \<le> p\<close> holding an equal record; when the chosen record occurs exactly
  once, \<open>k = p\<close>: the round trip recovers the device's position. With duplicate records
  the result can differ from \<open>p\<close>, as it does for \<open>twin_devices\<close>.
\<close>

theorem audio_index_round_trip:
  "0 \<le> c \<Longrightarrow>
   c < int (length (fst (capture_app_list_audio_input_devices_filtered devices))) \<Longrightarrow>
   (let p = wanted_positions devices ! nat c in
      p < length devices \<and>
      fst (capture_app_list_audio_input_devices_filtered devices) ! nat c = devices ! p \<and>
      (\<exists>k\<le>p. audio_choice_device_index devices devices c = Inr k \<and>
              devices ! k = devices ! p \<and> (\<forall>j<k. devices ! j \<noteq> devices ! p)) \<and>
      (count_list devices (devices ! p) = 1 \<longrightarrow>
         audio_choice_device_index devices devices c = Inr p)) \<and>
   (\<exists>(ds :: device list) c'.
      0 \<le> c' \<and> c' < int (length (fst (capture_app_list_audio_input_devices_filtered ds))) \<and>
      audio_choice_device_index ds ds c' \<noteq> Inr (wanted_positions ds ! nat c'))"
proof -
  assume c0: "0 \<le> c"
    and cn: "c < int (length (fst (capture_app_list_audio_input_devices_filtered devices)))"
  define p where "p = wanted_positions devices ! nat c"
  let ?fd = "filter capture_app_wanted devices"
  have fd: "fst (capture_app_list_audio_input_devices_filtered devices) = ?fd"
    by (simp add: capture_app_filtered_eq)
  have fdp: "?fd = map (nth devices) (wanted_positions devices)"
    unfolding wanted_positions_def by (rule filter_by_positions)
  have len: "nat c < length (wanted_positions devices)"
    using c0 cn fd fdp by (metis length_map nat_less_iff)
  have pin: "p \<in> set (wanted_positions devices)"
    unfolding p_def using len by simp
  then have plt: "p < length devices"
    by (simp add: wanted_positions_def)
  have chosen: "?fd ! nat c = devices ! p"
    using len by (simp add: fdp p_def)
  have get: "py_get ?fd c = Inr (devices ! p)"
    using c0 cn fd chosen by (simp add: py_get_def)
  have res: "audio_choice_device_index devices devices c = py_index devices (devices ! p)"
    by (simp add: audio_choice_device_index_def capture_app_filtered_eq get)
  have "devices ! p \<in> set devices" using plt by simp
  from py_index_first[OF this] obtain k where
    k: "py_index devices (devices ! p) = Inr k" "k < length devices"
       "devices ! k = devices ! p" "\<forall>j<k. devices ! j \<noteq> devices ! p" by blast
  have kp: "k \<le> p"
  proof (rule ccontr)
    assume "\<not> k \<le> p"
    then have "p < k" by simp
    with k(4) show False by blast
  qed
  have uniq: "count_list devices (devices ! p) = 1 \<Longrightarrow> k = p"
    using count_list_one_unique[of devices "devices ! p" k p] k(2,3) plt by simp
  have main: "let p = wanted_positions devices ! nat c in
      p < length devices \<and>
      fst (capture_app_list_audio_input_devices_filtered devices) ! nat c = devices ! p \<and>
      (\<exists>k\<le>p. audio_choice_device_index devices devices c = Inr k \<and>
              devices ! k = devices ! p \<and> (\<forall>j<k. devices ! j \<noteq> devices ! p)) \<and>
      (count_list devices (devices ! p) = 1 \<longrightarrow>
         audio_choice_device_index devices devices c = Inr p)"
    unfolding Let_def p_def[symmetric]
    using plt chosen fd res k kp uniq by auto
  have differ: "\<exists>(ds :: device list) c'.
      0 \<le> c' \<and> c' < int (length (fst (capture_app_list_audio_input_devices_filtered ds))) \<and>
      audio_choice_device_index ds ds c' \<noteq> Inr (wanted_positions ds ! nat c')"
    using twin_devices_first_occurrence by blast
  from main differ show ?thesis by (rule conjI)
qed

theorem audio_index_round_trip_witness:
  "0 \<le> (2::int) \<and>
   2 < int (length (fst (capture_app_list_audio_input_devices_filtered twin_devices))) \<and>
   wanted_positions twin_devices ! nat 2 = 3 \<and>
   count_list twin_devices (twin_devices ! 3) = 1 \<and>
   audio_choice_device_index twin_devices twin_devices 2 = Inr 3"
proof -
  have h1: "0 \<le> (2::int)" by simp
  have h2: "2 < int (length (fst (capture_app_list_audio_input_devices_filtered twin_devices)))"
    by code_simp
  have p: "wanted_positions twin_devices ! nat 2 = 3" by code_simp
  have c: "count_list twin_devices (twin_devices ! 3) = 1" by code_simp
  show ?thesis
    using audio_index_round_trip[OF h1 h2] h2 p c by (simp add: Let_def)
qed

text \<open>
  C8. The two filters are not equivalent. On an enumeration holding one input device
  named \<open>AVerMedia Live Gamer\<close>, capture_app selects nothing (line 136 looks for
  \<open>avermedia\<close> in the name as it is spelt), while guiver/main selects the device
  (line 307 lowers the name first).
\<close>

theorem filters_differ_on_avermedia:
  "fst (capture_app_list_audio_input_devices_filtered
          [\<lparr>name = ''AVerMedia Live Gamer'', hostapi = 0, max_input_channels = 2\<rparr>]) = [] \<and>
   guiver_list_audio_input_devices_filtered [''MME'']
          [\<lparr>name = ''AVerMedia Live Gamer'', hostapi = 0, max_input_channels = 2\<rparr>]
     = Inr ([\<lparr>name = ''AVerMedia Live Gamer'', hostapi = 0, max_input_channels = 2\<rparr>],
            [''AVerMedia Live Gamer (MME)''], [0])"
  by code_simp

section \<open>Properties of reading and printing integers\<close>

lemma is_digit_digit_char: "d < 10 \<Longrightarrow> is_digit (digit_char d)"
  by (simp add: is_digit_def digit_char_def)

lemma digit_val_digit_char: "d < 10 \<Longrightarrow> digit_val (digit_char d) = d"
  by (simp add: digit_val_def digit_char_def)

lemma py_str_digits: "\<forall>c \<in> set (py_str n). is_digit c"
proof (induction n rule: py_str.induct)
  case (1 n)
  show ?case
  proof (cases "n < 10")
    case True
    then show ?thesis by (subst py_str.simps) (simp add: is_digit_digit_char)
  next
    case False
    with 1 show ?thesis by (subst py_str.simps) (simp add: is_digit_digit_char)
  qed
qed

lemma py_str_nonempty: "py_str n \<noteq> []"
  by (subst py_str.simps) simp

lemma parse_digits_append:
  "\<forall>c \<in> set ds. is_digit c \<Longrightarrow> parse_digits ds acc = Some m \<Longrightarrow> is_digit d \<Longrightarrow>
   parse_digits (ds @ [d]) acc = Some (10 * m + digit_val d)"
  by (induction ds arbitrary: acc) auto

lemma parse_digits_py_str: "parse_digits (py_str n) 0 = Some n"
proof (induction n rule: py_str.induct)
  case (1 n)
  show ?case
  proof (cases "n < 10")
    case True
    then show ?thesis
      by (subst py_str.simps) (simp add: is_digit_digit_char digit_val_digit_char)
  next
    case False
    then have ih: "parse_digits (py_str (n div 10)) 0 = Some (n div 10)" using 1 by simp
    have "parse_digits (py_str (n div 10) @ [digit_char (n mod 10)]) 0
            = Some (10 * (n div 10) + digit_val (digit_char (n mod 10)))"
      by (rule parse_digits_append[OF py_str_digits ih]) (simp add: is_digit_digit_char)
    then show ?thesis using False
      by (subst py_str.simps) (simp add: digit_val_digit_char)
  qed
qed

lemma not_space_digit: "is_digit c \<Longrightarrow> \<not> is_space c"
  by (auto simp: is_digit_def is_space_def)

lemma strip_digits: "s \<noteq> [] \<Longrightarrow> \<forall>c \<in> set s. is_digit c \<Longrightarrow> strip s = s"
proof -
  assume ne: "s \<noteq> []" and dg: "\<forall>c \<in> set s. is_digit c"
  have a: "dropWhile is_space s = s"
    using ne dg by (cases s) (auto simp: not_space_digit)
  have "rev s \<noteq> []" using ne by simp
  moreover have "\<forall>c \<in> set (rev s). is_digit c" using dg by simp
  ultimately have b: "dropWhile is_space (rev s) = rev s"
    by (cases "rev s") (auto simp: not_space_digit)
  show ?thesis by (simp add: strip_def a b)
qed

lemma py_int_py_str: "py_int (py_str n) = Some (int n)"
proof -
  obtain c cs where s: "py_str n = c # cs"
    using py_str_nonempty[of n] by (cases "py_str n") auto
  have dg: "\<forall>c \<in> set (py_str n). is_digit c" by (rule py_str_digits)
  then have c: "is_digit c" using s by simp
  have "c \<noteq> CHR ''-''" "c \<noteq> CHR ''+''" using c by (auto simp: is_digit_def)
  moreover have "strip (py_str n) = c # cs"
    using strip_digits[OF py_str_nonempty dg] s by simp
  moreover have "unsigned (c # cs) = Some n"
    using parse_digits_py_str[of n] c s by (simp add: unsigned_def)
  ultimately show ?thesis by (simp add: py_int_def)
qed

section \<open>Properties of the device prompts\<close>

lemma prompt_selection_in_range:
  "snd (snd (prompt_selection max_index device_type stdin)) = Inr i \<Longrightarrow>
   0 \<le> i \<and> i < max_index"
  by (induction stdin) (auto split: option.splits if_splits prod.splits)

lemma prompt_selection_returns_or_eof:
  "(\<exists>i. snd (snd (prompt_selection max_index device_type stdin)) = Inr i)
   \<or> snd (snd (prompt_selection max_index device_type stdin)) = Inl EOFError"
  by (induction stdin) (auto split: option.splits if_splits prod.splits)

lemma numbered_nth:
  "k < length options \<Longrightarrow> numbered i options ! k = py_str (i + k) @ '': '' @ options ! k"
proof (induction options arbitrary: i k)
  case Nil
  then show ?case by simp
next
  case (Cons n ns)
  then show ?case by (cases k) auto
qed

lemma length_numbered: "length (numbered i options) = length options"
  by (induction options arbitrary: i) auto

lemma colon_not_digit: "is_digit c \<Longrightarrow> c \<noteq> CHR '':''"
  by (auto simp: is_digit_def)

lemma split_head_numbered: "split_head (py_str n @ '': '' @ rest) = py_str n"
proof -
  have "\<forall>c \<in> set (py_str n). c \<noteq> CHR '':''"
    using py_str_digits[of n] colon_not_digit by blast
  then show ?thesis
    by (simp add: split_head_def takeWhile_append2)
qed

lemma prompt_selection_gui_item:
  assumes "item \<in> set (numbered 0 options)"
  shows "\<exists>k < length options. numbered 0 options ! k = item \<and>
           snd (prompt_selection_gui options device_type (item, True)) = Inr (int k)"
proof -
  from assms obtain k where k: "k < length (numbered 0 options)" "numbered 0 options ! k = item"
    by (auto simp: in_set_conv_nth)
  then have kl: "k < length options" by (simp add: length_numbered)
  have item: "item = py_str k @ '': '' @ options ! k"
    using numbered_nth[OF kl, of 0] k(2) by simp
  have ne: "item \<noteq> []" using item py_str_nonempty by simp
  have "py_int (split_head item) = Some (int k)"
    unfolding item by (simp only: split_head_numbered py_int_py_str)
  then have "snd (prompt_selection_gui options device_type (item, True)) = Inr (int k)"
    using ne by (simp add: prompt_selection_gui_def)
  with kl k(2) show ?thesis by blast
qed

lemma prompt_selection_gui_not_ok:
  "snd (prompt_selection_gui options device_type (item, False)) = Inl (SystemExit 1)"
  by (simp add: prompt_selection_gui_def)

text \<open>
  C4. Whatever is typed, \<^verbatim>\<open>prompt_selection\<close> of capture_app returns only an index
  \<open>i\<close> with \<open>0 \<le> i < n\<close>, where \<open>n\<close> is the length of the device list: lines that are
  not numbers and numbers out of range are asked again. In guiver/main, whenever the
  dialog hands back one of its items, \<^verbatim>\<open>prompt_selection_gui\<close> returns only the index
  of that item, which is in range.
\<close>

theorem prompt_returns_index_in_range:
  "(snd (snd (prompt_selection (int (length devices)) device_type stdin)) = Inr i \<longrightarrow>
      0 \<le> i \<and> i < int (length devices)) \<and>
   (item \<in> set (numbered 0 options) \<longrightarrow>
      snd (prompt_selection_gui options device_type' (item, ok)) = Inr j \<longrightarrow>
      0 \<le> j \<and> j < int (length options) \<and> numbered 0 options ! nat j = item)"
proof (intro conjI impI)
  assume "snd (snd (prompt_selection (int (length devices)) device_type stdin)) = Inr i"
  then have "0 \<le> i \<and> i < int (length devices)" by (rule prompt_selection_in_range)
  then show "0 \<le> i" and "i < int (length devices)" by simp_all
next
  assume item: "item \<in> set (numbered 0 options)"
    and res: "snd (prompt_selection_gui options device_type' (item, ok)) = Inr j"
  have ok: "ok"
  proof (rule ccontr)
    assume "\<not> ok"
    then have "snd (prompt_selection_gui options device_type' (item, ok)) = Inl (SystemExit 1)"
      by (simp add: prompt_selection_gui_not_ok)
    with res show False by simp
  qed
  from prompt_selection_gui_item[OF item, of device_type'] obtain k where
    k: "k < length options" "numbered 0 options ! k = item"
       "snd (prompt_selection_gui options device_type' (item, True)) = Inr (int k)" by blast
  from res ok k(3) have j: "j = int k" by simp
  from j show "0 \<le> j" by simp
  from j k(1) show "j < int (length options)" by simp
  from j k(2) show "numbered 0 options ! nat j = item" by simp
qed

theorem prompt_returns_index_in_range_witness:
  "snd (snd (prompt_selection (int (length [''Cam A'', ''Cam: B'', ''Cam C''])) ''video''
              [''x'', ''7'', ''-1'', '' 2 '', ''0''])) = Inr 2 \<and>
   (0 \<le> (2::int) \<and> (2::int) < int (length [''Cam A'', ''Cam: B'', ''Cam C''])) \<and>
   ''1: Cam: B'' \<in> set (numbered 0 [''Cam A'', ''Cam: B'', ''Cam C'']) \<and>
   snd (prompt_selection_gui [''Cam A'', ''Cam: B'', ''Cam C''] ''video'' (''1: Cam: B'', True))
     = Inr 1 \<and>
   numbered 0 [''Cam A'', ''Cam: B'', ''Cam C''] ! nat 1 = ''1: Cam: B''"
proof -
  have a: "snd (snd (prompt_selection (int (length [''Cam A'', ''Cam: B'', ''Cam C''])) ''video''
              [''x'', ''7'', ''-1'', '' 2 '', ''0''])) = Inr 2"
    by code_simp
  have b: "''1: Cam: B'' \<in> set (numbered 0 [''Cam A'', ''Cam: B'', ''Cam C''])"
    by code_simp
  have c: "snd (prompt_selection_gui [''Cam A'', ''Cam: B'', ''Cam C''] ''video''
              (''1: Cam: B'', True)) = Inr 1"
    by code_simp
  note t = prompt_returns_index_in_range
            [of "[''Cam A'', ''Cam: B'', ''Cam C'']" "''video''"
                "[''x'', ''7'', ''-1'', '' 2 '', ''0'']" 2
                "''1: Cam: B''" "[''Cam A'', ''Cam: B'', ''Cam C'']" "''video''" True 1]
  from t a have r1: "0 \<le> (2::int) \<and> (2::int) < int (length [''Cam A'', ''Cam: B'', ''Cam C''])"
    by blast
  from t b c have r2: "numbered 0 [''Cam A'', ''Cam: B'', ''Cam C''] ! nat 1 = ''1: Cam: B''"
    by blast
  from a r1 b c r2 show ?thesis by blast
qed

section \<open>Properties of the combined audio list\<close>

lemma rt_listed_snoc:
  assumes "rt_listed m ps (devices, names, indices, apis)"
    and "rt_entry m ps d n i a"
  shows "rt_listed m ps (devices @ [d], names @ [n], indices @ [i], apis @ [a])"
  using assms unfolding rt_listed_def
  by (simp add: nth_append less_Suc_eq all_conj_distrib imp_conjL)

lemma rt_device_loop_listed:
  "rt_listed m ps acc \<Longrightarrow> api_name \<in> set ps \<Longrightarrow>
   get_rtmixer_api_by_name (Some m) api_name = Some api \<Longrightarrow>
   drop i (get_device_info m api) = infos \<Longrightarrow>
   rt_listed m ps (rt_device_loop api_name api i infos acc)"
proof (induction infos arbitrary: i acc)
  case Nil
  then show ?case by simp
next
  case (Cons info infos)
  obtain devices names indices apis where acc: "acc = (devices, names, indices, apis)"
    by (cases acc) auto
  from Cons.prems(4) have i: "i < length (get_device_info m api)"
    by (metis drop_all list.distinct(1) not_le)
  from Cons.prems(4) i have at: "get_device_info m api ! i = info"
    by (metis Cons_nth_drop_Suc list.inject)
  from Cons.prems(4) i have rest: "drop (Suc i) (get_device_info m api) = infos"
    by (metis Cons_nth_drop_Suc list.inject)
  show ?case
  proof (cases "0 < inputChannels info")
    case True
    have "rt_entry m ps info (rt_name info @ '' ('' @ api_name @ '')'') i api"
      unfolding rt_entry_def using i at True Cons.prems(2,3) by blast
    then have "rt_listed m ps (devices @ [info], names @ [rt_name info @ '' ('' @ api_name @ '')''],
                          indices @ [i], apis @ [api])"
      using rt_listed_snoc Cons.prems(1) acc by blast
    from Cons.IH[OF this Cons.prems(2,3) rest] True acc show ?thesis by simp
  next
    case False
    from Cons.IH[OF _ Cons.prems(2,3) rest, of acc] Cons.prems(1) False acc show ?thesis by simp
  qed
qed

lemma rt_api_loop_listed:
  "rt_listed m qs acc \<Longrightarrow> set ps \<subseteq> set qs \<Longrightarrow> rt_listed m qs (rt_api_loop m ps acc)"
proof (induction ps arbitrary: acc)
  case Nil
  then show ?case by simp
next
  case (Cons api_name rest)
  show ?case
  proof (cases "get_rtmixer_api_by_name (Some m) api_name")
    case None
    with Cons show ?thesis by simp
  next
    case (Some api)
    have "rt_listed m qs (rt_device_loop api_name api 0 (get_device_info m api) acc)"
      using rt_device_loop_listed[OF Cons.prems(1) _ Some, of 0] Cons.prems(2) by simp
    from Cons.IH[OF this] Cons.prems(2) Some show ?thesis by simp
  qed
qed

lemma list_rtmixer_listed:
  "list_rtmixer_devices_by_apis (Some m) ps = acc \<Longrightarrow> rt_listed m ps acc"
proof -
  assume a: "list_rtmixer_devices_by_apis (Some m) ps = acc"
  have "rt_listed m ps ([], [], [], [])" by (simp add: rt_listed_def)
  from rt_api_loop_listed[OF this, of ps] a show ?thesis
    by (simp add: list_rtmixer_devices_by_apis_def)
qed

lemma list_rtmixer_none: "list_rtmixer_devices_by_apis None ps = ([], [], [], [])"
  by (simp add: list_rtmixer_devices_by_apis_def)

lemma sd_listed_snoc:
  assumes "sd_listed hostapis devices (fd, fn, fi)" and "sd_entry hostapis devices d n i"
  shows "sd_listed hostapis devices (fd @ [d], fn @ [n], fi @ [i])"
  using assms unfolding sd_listed_def
  by (simp add: nth_append less_Suc_eq all_conj_distrib imp_conjL)

lemma guiver_filter_loop_listed:
  "sd_listed hostapis devices acc \<Longrightarrow> drop i devices = devs \<Longrightarrow>
   guiver_filter_loop hostapis i devs acc = Inr r \<Longrightarrow> sd_listed hostapis devices r"
proof (induction devs arbitrary: i acc)
  case Nil
  then show ?case by simp
next
  case (Cons dev devs)
  obtain fd fn fi where acc: "acc = (fd, fn, fi)" by (cases acc) auto
  from Cons.prems(2) have i: "i < length devices"
    by (metis drop_all list.distinct(1) not_le)
  from Cons.prems(2) i have at: "devices ! i = dev"
    by (metis Cons_nth_drop_Suc list.inject)
  from Cons.prems(2) i have rest: "drop (Suc i) devices = devs"
    by (metis Cons_nth_drop_Suc list.inject)
  show ?case
  proof (cases "guiver_wanted dev")
    case True
    show ?thesis
    proof (cases "py_get hostapis (hostapi dev)")
      case (Inl e)
      with Cons.prems(3) True acc show ?thesis by simp
    next
      case (Inr api_name)
      have "sd_entry hostapis devices dev (name dev @ '' ('' @ api_name @ '')'') i"
        unfolding sd_entry_def using i at True Inr by simp
      then have l: "sd_listed hostapis devices
                   (fd @ [dev], fn @ [name dev @ '' ('' @ api_name @ '')''], fi @ [i])"
        using sd_listed_snoc Cons.prems(1) acc by blast
      from Cons.prems(3) True Inr acc
      have "guiver_filter_loop hostapis (Suc i) devs
              (fd @ [dev], fn @ [name dev @ '' ('' @ api_name @ '')''], fi @ [i]) = Inr r"
        by simp
      from Cons.IH[OF l rest this] show ?thesis .
    qed
  next
    case False
    with Cons.prems(3) acc
    have "guiver_filter_loop hostapis (Suc i) devs acc = Inr r" by simp
    from Cons.IH[OF Cons.prems(1) rest this] show ?thesis .
  qed
qed

lemma guiver_list_listed:
  "guiver_list_audio_input_devices_filtered hostapis devices = Inr r \<Longrightarrow>
   sd_listed hostapis devices r"
proof -
  assume a: "guiver_list_audio_input_devices_filtered hostapis devices = Inr r"
  have "sd_listed hostapis devices ([], [], [])" by (simp add: sd_listed_def)
  from guiver_filter_loop_listed[OF this, of 0 devices r] a show ?thesis
    by (simp add: guiver_list_audio_input_devices_filtered_def)
qed

lemma mark_loop_eq:
  "mark_loop label tag names (a, s) =
     (a @ map (\<lambda>n. n @ label) names, s @ replicate (length names) tag)"
  by (induction names arbitrary: a s) (auto simp: replicate_append_same)

lemma combine_audio_eq:
  "combine_audio rn fn =
     (map (\<lambda>n. n @ '' [RtMixer]'') rn @ map (\<lambda>n. n @ '' [SoundDevice]'') fn,
      replicate (length rn) ''rtmixer'' @ replicate (length fn) ''sounddevice'')"
  by (simp add: combine_audio_def mark_loop_eq)

lemma py_get_nat: "k < length xs \<Longrightarrow> py_get xs (int k) = Inr (xs ! k)"
  by (simp add: py_get_def)

lemma rt_entryD:
  "rt_entry m ps d n i a \<Longrightarrow>
   \<exists>api_name. api_name \<in> set ps \<and> get_rtmixer_api_by_name (Some m) api_name = Some a \<and>
      i < length (get_device_info m a) \<and>
      n = rt_name (get_device_info m a ! i) @ '' ('' @ api_name @ '')''"
  unfolding rt_entry_def by auto

lemma sd_entryD:
  "sd_entry hostapis devices d n i \<Longrightarrow>
   i < length devices \<and>
   (\<exists>api_name. py_get hostapis (hostapi (devices ! i)) = Inr api_name \<and>
        n = name (devices ! i) @ '' ('' @ api_name @ '')'')"
  unfolding sd_entry_def by auto

lemma tags_eq:
  "k < nr + nf \<Longrightarrow>
   (replicate nr ''rtmixer'' @ replicate nf ''sounddevice'') ! k =
     (if k < nr then ''rtmixer'' else ''sounddevice'')"
  by (simp add: nth_append)

lemma tag_rtmixer:
  "k < nr + nf \<Longrightarrow>
   (replicate nr ''rtmixer'' @ replicate nf ''sounddevice'') ! k = ''rtmixer'' \<longleftrightarrow> k < nr"
  by (simp add: nth_append)

lemma rt_lengths:
  assumes "list_rtmixer_devices_by_apis rt ps = (rd, rn, ri, ra)"
  shows "length ri = length rn \<and> length ra = length rn"
proof (cases rt)
  case None
  with assms show ?thesis by (simp add: list_rtmixer_none)
next
  case (Some m)
  have "rt_listed m ps (rd, rn, ri, ra)"
    using assms Some by (intro list_rtmixer_listed) simp
  then show ?thesis by (simp add: rt_listed_def)
qed

lemma rt_choice:
  assumes rt: "list_rtmixer_devices_by_apis rt ps = (rd, rn, ri, ra)" and c: "c < length rn"
  shows "\<exists>m api_name. rt = Some m \<and> api_name \<in> set ps \<and>
          get_rtmixer_api_by_name rt api_name = Some (ra ! c) \<and>
          ri ! c < length (get_device_info m (ra ! c)) \<and>
          rn ! c = rt_name (get_device_info m (ra ! c) ! (ri ! c)) @ '' ('' @ api_name @ '')''"
proof -
  from c have "rn \<noteq> []" by auto
  then obtain m where m: "rt = Some m"
    using rt by (cases rt) (auto simp: list_rtmixer_none)
  have "rt_listed m ps (rd, rn, ri, ra)"
    using rt m by (intro list_rtmixer_listed) simp
  then have "rt_entry m ps (rd ! c) (rn ! c) (ri ! c) (ra ! c)"
    using c by (simp add: rt_listed_def)
  from rt_entryD[OF this] m show ?thesis by simp
qed

lemma sd_choice:
  assumes sd: "guiver_list_audio_input_devices_filtered hostapis devices = Inr (fd, fn, fi)"
    and f: "f < length fn"
  shows "f < length fi \<and> fi ! f < length devices \<and>
         (\<exists>api_name. py_get hostapis (hostapi (devices ! (fi ! f))) = Inr api_name \<and>
              fn ! f = name (devices ! (fi ! f)) @ '' ('' @ api_name @ '')'')"
proof -
  have l: "sd_listed hostapis devices (fd, fn, fi)" using sd by (rule guiver_list_listed)
  then have len: "length fi = length fn" by (simp add: sd_listed_def)
  from l f have "sd_entry hostapis devices (fd ! f) (fn ! f) (fi ! f)"
    by (simp add: sd_listed_def)
  from sd_entryD[OF this] len f show ?thesis by simp
qed

lemma audio_thread_for_rtmixer:
  assumes "c < length device_source" "device_source ! c = ''rtmixer''"
    "c < length ri" "c < length ra"
  shows "audio_thread_for device_source ri ra fi (int c) = Inr (AudioStreamRTMixer (ri ! c) (ra ! c))"
  using assms by (simp add: audio_thread_for_def py_get_nat)

lemma audio_thread_for_sounddevice:
  assumes "c < length device_source" "device_source ! c = ''sounddevice''"
    "length ri \<le> c" "c - length ri < length fi"
  shows "audio_thread_for device_source ri ra fi (int c) = Inr (AudioStreamSD (fi ! (c - length ri)))"
proof -
  have "int c - int (length ri) = int (c - length ri)" using assms(3) by simp
  then show ?thesis
    using assms py_get_nat[OF assms(4)] by (simp add: audio_thread_for_def py_get_nat)
qed

text \<open>
  C9. In \<^verbatim>\<open>main\<close> of guiver/main the two parallel lists have the same length, the
  entries that come from rtmixer are tagged \<open>rtmixer\<close> and stand first, the others are
  tagged \<open>sounddevice\<close>. For a chosen entry tagged \<open>rtmixer\<close> the lookups
  \<^verbatim>\<open>rtmixer_indices[audio_choice]\<close> and \<^verbatim>\<open>rtmixer_apis[audio_choice]\<close> are in range
  and name the device and API whose name is displayed; for one tagged \<open>sounddevice\<close>,
  \<^verbatim>\<open>audio_choice - len(rtmixer_indices)\<close> is in range of \<^verbatim>\<open>fallback_indices\<close> and
  the index found there is the position, in \<^verbatim>\<open>sd.query_devices()\<close>, of the device whose
  name is displayed.
\<close>

theorem combined_audio_list_aligned:
  assumes rt: "list_rtmixer_devices_by_apis rt ps =
                 (rtmixer_devices, rtmixer_names, rtmixer_indices, rtmixer_apis)"
    and sd: "guiver_list_audio_input_devices_filtered hostapis devices =
                 Inr (fallback_devices, fallback_names, fallback_indices)"
    and cmb: "combine_audio rtmixer_names fallback_names = (all_audio_names, device_source)"
    and c0: "0 \<le> audio_choice" and cn: "audio_choice < int (length all_audio_names)"
  shows "length all_audio_names = length device_source \<and>
    (\<forall>k < length device_source.
        device_source ! k = (if k < length rtmixer_names then ''rtmixer'' else ''sounddevice'')) \<and>
    (device_source ! nat audio_choice = ''rtmixer'' \<longrightarrow>
       nat audio_choice < length rtmixer_indices \<and> nat audio_choice < length rtmixer_apis \<and>
       audio_thread_for device_source rtmixer_indices rtmixer_apis fallback_indices audio_choice
         = Inr (AudioStreamRTMixer (rtmixer_indices ! nat audio_choice)
                                   (rtmixer_apis ! nat audio_choice)) \<and>
       all_audio_names ! nat audio_choice = rtmixer_names ! nat audio_choice @ '' [RtMixer]'' \<and>
       (\<exists>m api_name. rt = Some m \<and> api_name \<in> set ps \<and>
          get_rtmixer_api_by_name rt api_name = Some (rtmixer_apis ! nat audio_choice) \<and>
          rtmixer_indices ! nat audio_choice
            < length (get_device_info m (rtmixer_apis ! nat audio_choice)) \<and>
          rtmixer_names ! nat audio_choice =
            rt_name (get_device_info m (rtmixer_apis ! nat audio_choice)
                       ! (rtmixer_indices ! nat audio_choice))
            @ '' ('' @ api_name @ '')'')) \<and>
    (device_source ! nat audio_choice = ''sounddevice'' \<longrightarrow>
       (let fallback_index = audio_choice - int (length rtmixer_indices) in
          0 \<le> fallback_index \<and> fallback_index < int (length fallback_indices) \<and>
          audio_thread_for device_source rtmixer_indices rtmixer_apis fallback_indices audio_choice
            = Inr (AudioStreamSD (fallback_indices ! nat fallback_index)) \<and>
          all_audio_names ! nat audio_choice
            = fallback_names ! nat fallback_index @ '' [SoundDevice]'' \<and>
          fallback_indices ! nat fallback_index < length devices \<and>
          (\<exists>api_name.
             py_get hostapis (hostapi (devices ! (fallback_indices ! nat fallback_index)))
               = Inr api_name \<and>
             fallback_names ! nat fallback_index =
               name (devices ! (fallback_indices ! nat fallback_index))
               @ '' ('' @ api_name @ '')'')))"
    (is "?A \<and> ?B \<and> (?R \<longrightarrow> ?RC) \<and> (?S \<longrightarrow> ?SC)")
proof -
  define c where "c = nat audio_choice"
  have ac: "audio_choice = int c" using c0 by (simp add: c_def)
  let ?nr = "length rtmixer_names" and ?nf = "length fallback_names"
  have names: "all_audio_names =
      map (\<lambda>n. n @ '' [RtMixer]'') rtmixer_names @ map (\<lambda>n. n @ '' [SoundDevice]'') fallback_names"
    and src: "device_source = replicate ?nr ''rtmixer'' @ replicate ?nf ''sounddevice''"
    using cmb by (simp_all add: combine_audio_eq)
  have A: "?A" by (simp add: names src)
  have cl: "c < ?nr + ?nf" using cn ac by (simp add: names)
  have cls: "c < length device_source" using cl by (simp add: src)
  have B: "?B" unfolding src by (simp add: tags_eq)
  have lens: "length rtmixer_indices = ?nr" "length rtmixer_apis = ?nr"
    using rt_lengths[OF rt] by simp_all
  have R: "?R \<longrightarrow> ?RC"
  proof
    assume r: "?R"
    then have "device_source ! c = ''rtmixer''" by (simp add: c_def)
    then have cr: "c < ?nr" using tag_rtmixer[OF cl] by (simp add: src)
    have 1: "nat audio_choice < length rtmixer_indices" using cr lens by (simp add: c_def)
    have 2: "nat audio_choice < length rtmixer_apis" using cr lens by (simp add: c_def)
    have 3: "audio_thread_for device_source rtmixer_indices rtmixer_apis fallback_indices
               audio_choice
             = Inr (AudioStreamRTMixer (rtmixer_indices ! nat audio_choice)
                                       (rtmixer_apis ! nat audio_choice))"
      using audio_thread_for_rtmixer[OF cls, of rtmixer_indices rtmixer_apis fallback_indices]
        r cr lens by (simp add: ac)
    have 4: "all_audio_names ! nat audio_choice
               = rtmixer_names ! nat audio_choice @ '' [RtMixer]''"
      using cr by (simp add: names nth_append ac)
    have 5: "\<exists>m api_name. rt = Some m \<and> api_name \<in> set ps \<and>
          get_rtmixer_api_by_name rt api_name = Some (rtmixer_apis ! nat audio_choice) \<and>
          rtmixer_indices ! nat audio_choice
            < length (get_device_info m (rtmixer_apis ! nat audio_choice)) \<and>
          rtmixer_names ! nat audio_choice =
            rt_name (get_device_info m (rtmixer_apis ! nat audio_choice)
                       ! (rtmixer_indices ! nat audio_choice))
            @ '' ('' @ api_name @ '')''"
      using rt_choice[OF rt cr] by (simp only: ac nat_int)
    from 1 2 3 4 5 show "?RC" by (intro conjI)
  qed
  have S: "?S \<longrightarrow> ?SC"
  proof
    assume s: "?S"
    then have sc: "device_source ! c = ''sounddevice''" by (simp add: c_def)
    have ncr: "\<not> c < ?nr"
    proof
      assume "c < ?nr"
      then have "device_source ! c = ''rtmixer''" using tag_rtmixer[OF cl] by (simp add: src)
      with sc show False by simp
    qed
    define f where "f = c - ?nr"
    have fl: "f < ?nf" using cl ncr by (simp add: f_def)
    have fi: "audio_choice - int (length rtmixer_indices) = int f"
      using ncr by (simp add: ac lens f_def)
    note ch = sd_choice[OF sd fl]
    have 1: "audio_thread_for device_source rtmixer_indices rtmixer_apis fallback_indices
                audio_choice = Inr (AudioStreamSD (fallback_indices ! f))"
      using audio_thread_for_sounddevice[OF cls sc, of rtmixer_indices fallback_indices rtmixer_apis]
        ncr ch lens by (simp add: ac f_def)
    have 2: "all_audio_names ! nat audio_choice = fallback_names ! f @ '' [SoundDevice]''"
      using ncr fl by (simp add: names nth_append f_def ac)
    show "?SC"
      unfolding Let_def fi nat_int using ch 1 2 by simp
  qed
  from A B R S show ?thesis by (intro conjI)
qed

theorem combined_audio_list_aligned_witness:
  "list_rtmixer_devices_by_apis (Some demo_rtmixer) preferred_api_names =
     ([\<lparr>rt_name = ''Line In'', inputChannels = 2\<rparr>, \<lparr>rt_name = ''Mic'', inputChannels = 1\<rparr>],
      [''Line In (ASIO)'', ''Mic (WASAPI)''], [1, 0], [''ASIO'', ''WASAPI'']) \<and>
   guiver_list_audio_input_devices_filtered demo_hostapis demo_devices =
     Inr ([\<lparr>name = ''Elgato HD60'', hostapi = 1, max_input_channels = 2\<rparr>],
          [''Elgato HD60 (Windows WASAPI)''], [1]) \<and>
   combine_audio [''Line In (ASIO)'', ''Mic (WASAPI)''] [''Elgato HD60 (Windows WASAPI)''] =
     ([''Line In (ASIO) [RtMixer]'', ''Mic (WASAPI) [RtMixer]'',
       ''Elgato HD60 (Windows WASAPI) [SoundDevice]''],
      [''rtmixer'', ''rtmixer'', ''sounddevice'']) \<and>
   audio_thread_for [''rtmixer'', ''rtmixer'', ''sounddevice''] [1, 0] [''ASIO'', ''WASAPI''] [1] 2
     = Inr (AudioStreamSD 1) \<and>
   audio_thread_for [''rtmixer'', ''rtmixer'', ''sounddevice''] [1, 0] [''ASIO'', ''WASAPI''] [1] 0
     = Inr (AudioStreamRTMixer 1 ''ASIO'')"
proof -
  have h1: "list_rtmixer_devices_by_apis (Some demo_rtmixer) preferred_api_names =
     ([\<lparr>rt_name = ''Line In'', inputChannels = 2\<rparr>, \<lparr>rt_name = ''Mic'', inputChannels = 1\<rparr>],
      [''Line In (ASIO)'', ''Mic (WASAPI)''], [1, 0], [''ASIO'', ''WASAPI''])"
    by code_simp
  have h2: "guiver_list_audio_input_devices_filtered demo_hostapis demo_devices =
     Inr ([\<lparr>name = ''Elgato HD60'', hostapi = 1, max_input_channels = 2\<rparr>],
          [''Elgato HD60 (Windows WASAPI)''], [1])"
    by code_simp
  have h3: "combine_audio [''Line In (ASIO)'', ''Mic (WASAPI)'']
              [''Elgato HD60 (Windows WASAPI)''] =
     ([''Line In (ASIO) [RtMixer]'', ''Mic (WASAPI) [RtMixer]'',
       ''Elgato HD60 (Windows WASAPI) [SoundDevice]''],
      [''rtmixer'', ''rtmixer'', ''sounddevice''])"
    by code_simp
  have h4: "0 \<le> (2::int)" and h4': "0 \<le> (0::int)" by simp_all
  have h5: "(2::int) < int (length [''Line In (ASIO) [RtMixer]'', ''Mic (WASAPI) [RtMixer]'',
       ''Elgato HD60 (Windows WASAPI) [SoundDevice]''])"
    and h5': "(0::int) < int (length [''Line In (ASIO) [RtMixer]'', ''Mic (WASAPI) [RtMixer]'',
       ''Elgato HD60 (Windows WASAPI) [SoundDevice]''])" by simp_all
  have sd: "audio_thread_for [''rtmixer'', ''rtmixer'', ''sounddevice''] [1, 0]
              [''ASIO'', ''WASAPI''] [1] 2 = Inr (AudioStreamSD 1)"
    using combined_audio_list_aligned[OF h1 h2 h3 h4 h5] by (simp add: Let_def)
  have rt: "audio_thread_for [''rtmixer'', ''rtmixer'', ''sounddevice''] [1, 0]
              [''ASIO'', ''WASAPI''] [1] 0 = Inr (AudioStreamRTMixer 1 ''ASIO'')"
    using combined_audio_list_aligned[OF h1 h2 h3 h4' h5'] by simp
  from h1 h2 h3 sd rt show ?thesis by (intro conjI)
qed

section \<open>Properties of the running application\<close>

lemma is_closing_simps:
  "\<not> is_closing (Print m)" "\<not> is_closing (EmitDebug m)" "\<not> is_closing (AppendMessage m)"
  "\<not> is_closing EmitPixmap" "\<not> is_closing (EmitFps m)" "\<not> is_closing (VideoCapture i b)"
  "\<not> is_closing (CapSet p n)" "\<not> is_closing (CapGet p)" "\<not> is_closing CapRead"
  "\<not> is_closing (Msleep n)" "\<not> is_closing CapRelease" "\<not> is_closing (SdStream k ko)"
  "\<not> is_closing (SdSleep n)" "\<not> is_closing StreamClose" "\<not> is_closing (RtMixerOpen k ap)"
  "\<not> is_closing StartStream" "\<not> is_closing TimeSleep" "\<not> is_closing (SetRunningFalse th)"
  "\<not> is_closing (Quit th)" "\<not> is_closing (Wait th)" "\<not> is_closing StopStream"
  "\<not> is_closing MixerClose"
  "is_closing (CloseWindow m)" "is_closing AppQuit" "is_closing Accept"
  by (simp_all add: is_closing_def)

lemma is_ui_update_simps:
  "\<not> is_ui_update (Print m)" "is_ui_update (EmitDebug m)" "is_ui_update (AppendMessage m)"
  "is_ui_update EmitPixmap" "is_ui_update (EmitFps m)" "\<not> is_ui_update (VideoCapture i b)"
  "\<not> is_ui_update (CapSet p n)" "\<not> is_ui_update (CapGet p)" "\<not> is_ui_update CapRead"
  "\<not> is_ui_update (Msleep n)" "\<not> is_ui_update CapRelease" "\<not> is_ui_update (SdStream k ko)"
  "\<not> is_ui_update (SdSleep n)" "\<not> is_ui_update StreamClose" "\<not> is_ui_update (RtMixerOpen k ap)"
  "\<not> is_ui_update StartStream" "\<not> is_ui_update TimeSleep" "\<not> is_ui_update (SetRunningFalse th)"
  "\<not> is_ui_update (Quit th)" "\<not> is_ui_update (Wait th)" "\<not> is_ui_update StopStream"
  "\<not> is_ui_update MixerClose"
  "\<not> is_ui_update (CloseWindow m)" "\<not> is_ui_update AppQuit" "\<not> is_ui_update Accept"
  by (simp_all add: is_ui_update_def)

lemma tell_not_closing: "\<not> is_closing (tell a msg)"
  by (cases a) (simp_all add: tell_def is_closing_simps)

lemma say_not_closing: "\<not> is_closing (say a msg)"
  by (cases a) (simp_all add: say_def is_closing_simps)

lemma video_open_not_closing: "\<forall>e \<in> set (snd (video_open a i env)). \<not> is_closing e"
  by (simp add: video_open_def Let_def is_closing_simps tell_not_closing split: app.split)

lemma video_body_not_closing: "\<forall>e \<in> set (video_body a env). \<not> is_closing e"
  by (auto simp: video_body_def is_closing_simps)

lemma video_step_not_closing: "\<forall>e \<in> set (snd (video_step a i env r pc)). \<not> is_closing e"
  by (cases pc)
     (simp_all add: video_step_def video_open_not_closing video_body_not_closing
        is_closing_simps tell_not_closing)

lemma audio_open_not_closing: "\<forall>e \<in> set (fst (snd (audio_open w env))). \<not> is_closing e"
  by (cases w) (simp_all add: audio_open_def is_closing_simps)

lemma audio_step_not_closing:
  "\<forall>e \<in> set (fst (snd (audio_step w env r m pc))). \<not> is_closing e"
  by (cases pc; cases w)
     (simp_all add: audio_step_def audio_poll_def audio_body_def audio_open_not_closing
        is_closing_simps)

lemma callback_not_closing: "\<forall>e \<in> set (callback a w st pc m). \<not> is_closing e"
  by (cases w) (simp_all add: callback_def tell_not_closing is_closing_simps)

lemma audio_stop_not_closing: "\<forall>e \<in> set (fst (audio_stop w m)). \<not> is_closing e"
  by (cases w) (auto simp: audio_stop_def is_closing_simps)

lemma video_step_done: "video_step a i env r V_Done = (V_Done, [])"
  by (simp add: video_step_def)

lemma audio_step_done: "audio_step w env r m A_Done = (A_Done, [], m)"
  by (simp add: audio_step_def)

lemma callback_done: "is_sounddevice w \<Longrightarrow> callback a w st A_Done m = []"
  by (cases w) (simp_all add: callback_def is_sounddevice_def)

lemma callback_stream_stopped: "m \<noteq> MixerRunning \<Longrightarrow> callback a w st A_Done m = []"
  by (cases w) (simp_all add: callback_def)

lemma quiet_no_closing:
  "\<forall>x \<in> set t. \<not> is_closing (snd x) \<Longrightarrow> quiet_after_close (t @ u) = quiet_after_close u"
  by (induction t) auto

lemma is_shutdown_step_simps:
  "\<not> is_shutdown_step (Print m)" "\<not> is_shutdown_step (AppendMessage m)"
  "is_shutdown_step (SetRunningFalse th)" "\<not> is_shutdown_step (Quit th)"
  "is_shutdown_step (Wait th)" "\<not> is_shutdown_step StopStream"
  "\<not> is_shutdown_step MixerClose" "\<not> is_shutdown_step (CloseWindow m)"
  "is_shutdown_step AppQuit" "is_shutdown_step Accept"
  by (simp_all add: is_shutdown_step_def)

lemma say_not_shutdown: "\<not> is_shutdown_step (say a msg)"
  by (cases a) (simp_all add: say_def is_shutdown_step_simps)

lemma shutdown_steps_append:
  "shutdown_steps (t @ u) = shutdown_steps t @ shutdown_steps u"
  by (simp add: shutdown_steps_def)

lemma shutdown_steps_worker:
  "th \<noteq> Main \<Longrightarrow> shutdown_steps (map (Pair th) evs) = []"
  by (induction evs) (auto simp: shutdown_steps_def)

lemma shutdown_steps_main:
  "shutdown_steps (map (Pair Main) evs) = filter is_shutdown_step evs"
  by (induction evs) (auto simp: shutdown_steps_def)

lemma audio_stop_shutdown:
  "filter is_shutdown_step (fst (audio_stop w m)) = [SetRunningFalse Audio]"
  by (cases w) (auto simp: audio_stop_def is_shutdown_step_simps)

lemma handler_inv_worker:
  assumes inv: "handler_inv s" and th: "th \<noteq> Main"
    and nc: "\<forall>e \<in> set evs. \<not> is_closing e"
    and same: "mpc_of s' = mpc_of s"
    and tr: "trace s' = trace s @ map (Pair th) evs"
    and v: "vpc_of s = V_Done \<Longrightarrow> vpc_of s' = V_Done"
    and a: "apc_of s = A_Done \<Longrightarrow> apc_of s' = A_Done"
  shows "handler_inv s'"
proof -
  have n: "mpc_of s \<noteq> M_Closed \<Longrightarrow> \<forall>x \<in> set (trace s'). \<not> is_closing (snd x)"
    using inv nc unfolding tr by (auto simp: handler_inv_def)
  have sh: "shutdown_steps (trace s') = shutdown_steps (trace s)"
    unfolding tr by (simp add: shutdown_steps_append shutdown_steps_worker[OF th])
  from inv same v a n sh show ?thesis by (simp add: handler_inv_def)
qed

lemma handler_inv_video:
  "handler_inv s \<Longrightarrow> handler_inv (step cfg (VideoStep env) s)"
proof -
  assume inv: "handler_inv s"
  obtain pc' evs where st:
    "video_step (app_of cfg) (video_index cfg) env (v_running s) (vpc_of s) = (pc', evs)"
    by (cases "video_step (app_of cfg) (video_index cfg) env (v_running s) (vpc_of s)") auto
  let ?s' = "step cfg (VideoStep env) s"
  have s': "?s' = s\<lparr>vpc_of := pc', trace := trace s @ map (Pair Video) evs\<rparr>"
    by (simp add: step_def st)
  have nc: "\<forall>e \<in> set evs. \<not> is_closing e"
    using video_step_not_closing[of "app_of cfg" "video_index cfg" env "v_running s" "vpc_of s"]
    by (simp add: st)
  have fin: "vpc_of s = V_Done \<Longrightarrow> pc' = V_Done"
    using st by (simp add: video_step_done)
  show ?thesis
    by (rule handler_inv_worker[OF inv _ nc, of Video])
       (simp_all add: s' fin)
qed

lemma handler_inv_audio:
  "handler_inv s \<Longrightarrow> handler_inv (step cfg (AudioStep env) s)"
proof -
  assume inv: "handler_inv s"
  obtain pc' evs m' where st:
    "audio_step (audio_worker cfg) env (a_running s) (mixer_of s) (apc_of s) = (pc', evs, m')"
    by (cases "audio_step (audio_worker cfg) env (a_running s) (mixer_of s) (apc_of s)") auto
  let ?s' = "step cfg (AudioStep env) s"
  have s': "?s' = s\<lparr>apc_of := pc', mixer_of := m',
                     trace := trace s @ map (Pair Audio) evs\<rparr>"
    by (simp add: step_def st)
  have nc: "\<forall>e \<in> set evs. \<not> is_closing e"
    using audio_step_not_closing[of "audio_worker cfg" env "a_running s" "mixer_of s" "apc_of s"]
    by (simp add: st)
  have fin: "apc_of s = A_Done \<Longrightarrow> pc' = A_Done"
    using st by (simp add: audio_step_done)
  show ?thesis
    by (rule handler_inv_worker[OF inv _ nc, of Audio])
       (simp_all add: s' fin)
qed

lemma handler_inv_callback:
  "handler_inv s \<Longrightarrow> handler_inv (step cfg (CallbackStep status) s)"
proof -
  assume inv: "handler_inv s"
  let ?evs = "callback (app_of cfg) (audio_worker cfg) status (apc_of s) (mixer_of s)"
  let ?s' = "step cfg (CallbackStep status) s"
  have s': "?s' = s\<lparr>trace := trace s @ map (Pair Audio) ?evs\<rparr>"
    by (simp add: step_def)
  have nc: "\<forall>e \<in> set ?evs. \<not> is_closing e" by (rule callback_not_closing)
  show ?thesis
    by (rule handler_inv_worker[OF inv _ nc, of Audio])
       (simp_all add: s')
qed

lemma handler_inv_stream:
  "handler_inv s \<Longrightarrow> handler_inv (step cfg StreamStops s)"
  by (simp add: step_def handler_inv_def)

lemma take_shutdown:
  "take 0 shutdown_sequence = []"
  "take 1 shutdown_sequence = [SetRunningFalse Video]"
  "take (Suc 0) shutdown_sequence = [SetRunningFalse Video]"
  "take 2 shutdown_sequence = [SetRunningFalse Video, Wait Video]"
  "take 3 shutdown_sequence = [SetRunningFalse Video, Wait Video, SetRunningFalse Audio]"
  "take 4 shutdown_sequence =
     [SetRunningFalse Video, Wait Video, SetRunningFalse Audio, Wait Audio]"
  "take 5 shutdown_sequence =
     [SetRunningFalse Video, Wait Video, SetRunningFalse Audio, Wait Audio, Wait Audio]"
  "take 7 shutdown_sequence = shutdown_sequence"
  by (simp_all add: shutdown_sequence_def)

lemma quiet_finish:
  "quiet_after_close
     ((Main, say a ''Exiting application...'') #
      (if a = GuiverApp \<and> vis then [(Main, CloseWindow ''Debug Console'')] else []) @
      [(Main, AppQuit), (Main, Accept)])"
  by (simp add: say_not_closing is_closing_simps is_ui_update_simps)

lemma handler_inv_main:
  "handler_inv s \<Longrightarrow> handler_inv (step cfg (MainStep env) s)"
proof -
  assume inv: "handler_inv s"
  have st: "step cfg (MainStep env) s = main_step cfg env s" by (simp add: step_def)
  show ?thesis
  proof (cases "mpc_of s")
    case M_Open
    with inv show ?thesis unfolding st
      by (simp add: main_step_def handler_inv_def shutdown_steps_append
            shutdown_steps_def say_not_closing say_not_shutdown is_closing_simps
            is_shutdown_step_simps take_shutdown)
  next
    case M_WaitVideo
    with inv show ?thesis unfolding st
      by (simp add: main_step_def handler_inv_def shutdown_steps_append
            shutdown_steps_def is_closing_simps is_shutdown_step_simps take_shutdown)
  next
    case M_StopAudio
    have nc: "\<forall>x \<in> set ((Main, say (app_of cfg) ''Stopping audio thread...'') #
              map (Pair Main) (fst (audio_stop (audio_worker cfg) (mixer_of s)))).
              \<not> is_closing (snd x)"
      using audio_stop_not_closing by (simp add: say_not_closing)
    have sh: "shutdown_steps ((Main, say (app_of cfg) ''Stopping audio thread...'') #
              map (Pair Main) (fst (audio_stop (audio_worker cfg) (mixer_of s))))
              = [SetRunningFalse Audio]"
      using shutdown_steps_main[of "say (app_of cfg) ''Stopping audio thread...'' #
              fst (audio_stop (audio_worker cfg) (mixer_of s))"]
      by (simp add: say_not_shutdown audio_stop_shutdown)
    from inv M_StopAudio have t: "\<forall>x \<in> set (trace s). \<not> is_closing (snd x)"
      by (simp add: handler_inv_def)
    from inv M_StopAudio t nc sh show ?thesis unfolding st
      by (auto simp add: main_step_def handler_inv_def shutdown_steps_append take_shutdown)
  next
    case M_WaitAudio
    with inv show ?thesis unfolding st
      by (simp add: main_step_def handler_inv_def shutdown_steps_append
            shutdown_steps_def is_closing_simps is_shutdown_step_simps take_shutdown)
  next
    case M_WaitAgain
    with inv show ?thesis unfolding st
      by (simp add: main_step_def handler_inv_def shutdown_steps_append
            shutdown_steps_def is_closing_simps is_shutdown_step_simps take_shutdown)
  next
    case M_Finish
    with inv show ?thesis unfolding st
      by (simp add: main_step_def handler_inv_def shutdown_steps_append
            shutdown_steps_def say_not_shutdown is_shutdown_step_simps take_shutdown
            shutdown_sequence_def)
  next
    case M_Closed
    with inv show ?thesis unfolding st by (simp add: main_step_def)
  qed
qed

lemma handler_inv_step: "handler_inv s \<Longrightarrow> handler_inv (step cfg c s)"
  by (cases c) (simp_all add: handler_inv_main handler_inv_video handler_inv_audio
                  handler_inv_callback handler_inv_stream)

lemma handler_inv_exec: "handler_inv s \<Longrightarrow> handler_inv (exec cfg cs s)"
  by (induction cs arbitrary: s) (simp_all add: handler_inv_step)

lemma handler_inv_started: "handler_inv started"
  by (simp add: handler_inv_def started_def shutdown_steps_def)

lemma audio_open_pc: "fst (audio_open w env) = A_Poll \<or> fst (audio_open w env) = A_Done"
  by (cases w) (simp_all add: audio_open_def)

lemma audio_open_sounddevice:
  "is_sounddevice w \<Longrightarrow> snd (snd (audio_open w env)) = NoMixer"
  by (cases w) (simp_all add: audio_open_def is_sounddevice_def)

lemma audio_step_mixer:
  "pc \<noteq> A_Start \<Longrightarrow> snd (snd (audio_step w env r m pc)) = m"
  by (cases pc) (simp_all add: audio_step_def split: prod.split)

lemma audio_step_leaves_start: "fst (audio_step w env r m pc) = A_Start \<longleftrightarrow> False"
  using audio_open_pc[of w env]
  by (cases pc) (auto simp: audio_step_def audio_poll_def split: prod.splits audio_thread.splits)

lemma audio_stop_cases:
  "audio_stop w m = ([SetRunningFalse Audio, StopStream, MixerClose, Quit Audio], MixerClosed) \<or>
   (audio_stop w m = ([SetRunningFalse Audio, Quit Audio], m))"
  by (cases w) (simp_all add: audio_stop_def)

lemma say_not_stop: "say a msg \<noteq> StopStream" "StopStream \<noteq> say a msg"
  by (cases a; simp add: say_def)+

lemma mixer_inv_step: "mixer_inv cfg s \<Longrightarrow> mixer_inv cfg (step cfg c s)"
proof (cases c)
  case (MainStep env)
  assume inv: "mixer_inv cfg s"
  have sd: "is_sounddevice (audio_worker cfg) \<Longrightarrow>
            audio_stop (audio_worker cfg) (mixer_of s) = ([SetRunningFalse Audio, Quit Audio], mixer_of s)"
    by (cases "audio_worker cfg") (simp_all add: audio_stop_def is_sounddevice_def)
  have rt: "apc_of s = A_Start \<Longrightarrow>
            audio_stop (audio_worker cfg) (mixer_of s) = ([SetRunningFalse Audio, Quit Audio], mixer_of s)"
    using inv by (cases "audio_worker cfg") (simp_all add: audio_stop_def mixer_inv_def)
  have "mixer_inv cfg (step cfg (MainStep env) s)"
  proof (cases "mpc_of s")
    case M_StopAudio
    from audio_stop_cases[of "audio_worker cfg" "mixer_of s"] show ?thesis
    proof
      assume c: "audio_stop (audio_worker cfg) (mixer_of s) =
                 ([SetRunningFalse Audio, StopStream, MixerClose, Quit Audio], MixerClosed)"
      with sd rt have "\<not> is_sounddevice (audio_worker cfg)" "apc_of s \<noteq> A_Start" by auto
      with c M_StopAudio show ?thesis
        by (simp add: step_def main_step_def mixer_inv_def)
    next
      assume c: "audio_stop (audio_worker cfg) (mixer_of s) =
                 ([SetRunningFalse Audio, Quit Audio], mixer_of s)"
      with inv M_StopAudio show ?thesis
        by (auto simp: step_def main_step_def mixer_inv_def say_not_stop)
    qed
  qed (insert inv, auto simp: step_def main_step_def mixer_inv_def say_not_stop)
  then show ?thesis unfolding MainStep .
next
  case (VideoStep env)
  assume inv: "mixer_inv cfg s"
  obtain pc' evs where
    "video_step (app_of cfg) (video_index cfg) env (v_running s) (vpc_of s) = (pc', evs)"
    by (cases "video_step (app_of cfg) (video_index cfg) env (v_running s) (vpc_of s)") auto
  with inv show ?thesis unfolding VideoStep by (auto simp: step_def mixer_inv_def)
next
  case (AudioStep env)
  assume inv: "mixer_inv cfg s"
  obtain pc' evs m' where st:
    "audio_step (audio_worker cfg) env (a_running s) (mixer_of s) (apc_of s) = (pc', evs, m')"
    by (cases "audio_step (audio_worker cfg) env (a_running s) (mixer_of s) (apc_of s)") auto
  have pc': "pc' \<noteq> A_Start"
    using audio_step_leaves_start[of "audio_worker cfg" env "a_running s" "mixer_of s" "apc_of s"]
    by (simp add: st)
  have s': "step cfg (AudioStep env) s =
              s\<lparr>apc_of := pc', mixer_of := m', trace := trace s @ map (Pair Audio) evs\<rparr>"
    by (simp add: step_def st)
  show ?thesis
  proof (cases "apc_of s = A_Start")
    case True
    with inv have no: "(Main, StopStream) \<notin> set (trace s)" by (auto simp: mixer_inv_def)
    from True st have o: "audio_open (audio_worker cfg) env = (pc', evs, m')"
      by (simp add: audio_step_def)
    have "is_sounddevice (audio_worker cfg) \<Longrightarrow> m' = NoMixer"
      using audio_open_sounddevice[of "audio_worker cfg" env] o by simp
    with no pc' show ?thesis unfolding AudioStep s' by (auto simp: mixer_inv_def)
  next
    case False
    with audio_step_mixer[of "apc_of s" "audio_worker cfg" env "a_running s" "mixer_of s"] st
    have "m' = mixer_of s" by simp
    with inv pc' show ?thesis unfolding AudioStep s' by (auto simp: mixer_inv_def)
  qed
next
  case (CallbackStep st)
  assume "mixer_inv cfg s"
  then show ?thesis unfolding CallbackStep by (auto simp: step_def mixer_inv_def)
next
  case StreamStops
  assume "mixer_inv cfg s"
  then show ?thesis unfolding StreamStops by (auto simp: step_def mixer_inv_def)
qed

lemma mixer_inv_exec: "mixer_inv cfg s \<Longrightarrow> mixer_inv cfg (exec cfg cs s)"
  by (induction cs arbitrary: s) (simp_all add: mixer_inv_step)

lemma mixer_inv_started: "mixer_inv cfg started"
  by (simp add: mixer_inv_def started_def)

lemma silence_inv_open:
  "handler_inv s \<Longrightarrow> mpc_of s \<noteq> M_Closed \<Longrightarrow> silence_inv cfg s"
proof -
  assume "handler_inv s" and "mpc_of s \<noteq> M_Closed"
  then have t: "\<forall>x \<in> set (trace s). \<not> is_closing (snd x)" by (simp add: handler_inv_def)
  from quiet_no_closing[OF t, of "[]"] show ?thesis by (simp add: silence_inv_def)
qed

lemma silence_inv_same:
  "silence_inv cfg s \<Longrightarrow> trace s' = trace s \<Longrightarrow> mpc_of s' = mpc_of s \<Longrightarrow> silence_inv cfg s'"
  by (simp add: silence_inv_def silenced_def)

lemma silence_inv_louder:
  "mpc_of s' = M_Closed \<Longrightarrow> \<not> silenced cfg s' \<Longrightarrow> silence_inv cfg s'"
  by (simp add: silence_inv_def)

lemma silenced_worker:
  "th \<noteq> Main \<Longrightarrow> trace s' = trace s @ map (Pair th) evs \<Longrightarrow> silenced cfg s' = silenced cfg s"
  by (auto simp: silenced_def)

lemma callback_silenced:
  assumes h: "handler_inv s" and m: "mixer_inv cfg s" and c: "mpc_of s = M_Closed"
    and q: "silenced cfg s"
  shows "callback (app_of cfg) (audio_worker cfg) status (apc_of s) (mixer_of s) = []"
proof -
  from h c have d: "apc_of s = A_Done" by (simp add: handler_inv_def)
  show ?thesis
  proof (cases "is_sounddevice (audio_worker cfg)")
    case True
    then show ?thesis unfolding d by (rule callback_done)
  next
    case False
    with q m have "mixer_of s = MixerClosed" by (simp add: silenced_def mixer_inv_def)
    then have "mixer_of s \<noteq> MixerRunning" by simp
    then show ?thesis unfolding d by (rule callback_stream_stopped)
  qed
qed

lemma silence_inv_step:
  assumes h: "handler_inv s" and m: "mixer_inv cfg s" and q: "silence_inv cfg s"
  shows "silence_inv cfg (step cfg c s)"
proof (cases "mpc_of s = M_Closed")
  case False
  have h': "handler_inv (step cfg c s)" using h by (rule handler_inv_step)
  show ?thesis
  proof (cases "mpc_of (step cfg c s) = M_Closed")
    case False
    with h' show ?thesis by (rule silence_inv_open)
  next
    case True
    from h \<open>mpc_of s \<noteq> M_Closed\<close> have t: "\<forall>x \<in> set (trace s). \<not> is_closing (snd x)"
      by (simp add: handler_inv_def)
    have fin: "c = MainStep env \<Longrightarrow> mpc_of s = M_Finish" for env
      using True \<open>mpc_of s \<noteq> M_Closed\<close>
      by (cases "mpc_of s") (auto simp: step_def main_step_def split: if_splits)
    have other: "mpc_of (step cfg c s) = mpc_of s" if "\<forall>env. c \<noteq> MainStep env"
      using that by (cases c) (auto simp: step_def split: prod.splits)
    from other True \<open>mpc_of s \<noteq> M_Closed\<close> obtain env where c: "c = MainStep env" by auto
    from fin[OF c] have f: "mpc_of s = M_Finish" .
    have tr: "trace (step cfg (MainStep env) s) = trace s @
      (Main, say (app_of cfg) ''Exiting application...'') #
      (if app_of cfg = GuiverApp \<and> debug_visible env
       then [(Main, CloseWindow ''Debug Console'')] else []) @
      [(Main, AppQuit), (Main, Accept)]"
      using f by (simp add: step_def main_step_def)
    have "quiet_after_close (trace (step cfg c s))"
      unfolding c tr by (subst quiet_no_closing[OF t]) (rule quiet_finish)
    then show ?thesis by (simp add: silence_inv_def)
  qed
next
  case True
  from h True have vd: "vpc_of s = V_Done" and ad: "apc_of s = A_Done"
    by (simp_all add: handler_inv_def)
  show ?thesis
  proof (cases c)
    case (MainStep env)
    with True q show ?thesis by (simp add: step_def main_step_def)
  next
    case (VideoStep env)
    show ?thesis unfolding VideoStep
      by (rule silence_inv_same[OF q]) (simp_all add: step_def vd video_step_done)
  next
    case (AudioStep env)
    show ?thesis unfolding AudioStep
      by (rule silence_inv_same[OF q]) (simp_all add: step_def ad audio_step_done)
  next
    case (CallbackStep status)
    let ?s' = "step cfg (CallbackStep status) s"
    have tr: "trace ?s' = trace s @ map (Pair Audio)
                (callback (app_of cfg) (audio_worker cfg) status (apc_of s) (mixer_of s))"
      by (simp add: step_def)
    have mp: "mpc_of ?s' = mpc_of s" by (simp add: step_def)
    have sl: "silenced cfg ?s' = silenced cfg s"
      by (rule silenced_worker[OF _ tr]) simp
    show ?thesis unfolding CallbackStep
    proof (cases "silenced cfg s")
      case True
      from callback_silenced[OF h m \<open>mpc_of s = M_Closed\<close> True, of status] tr
      have "trace ?s' = trace s" by simp
      from silence_inv_same[OF q this mp] show "silence_inv cfg ?s'" .
    next
      case False
      with sl mp \<open>mpc_of s = M_Closed\<close> show "silence_inv cfg ?s'"
        by (simp add: silence_inv_louder)
    qed
  next
    case StreamStops
    show ?thesis unfolding StreamStops
      by (rule silence_inv_same[OF q]) (simp_all add: step_def)
  qed
qed

lemma silence_inv_exec:
  "handler_inv s \<Longrightarrow> mixer_inv cfg s \<Longrightarrow> silence_inv cfg s \<Longrightarrow> silence_inv cfg (exec cfg cs s)"
proof (induction cs arbitrary: s)
  case Nil
  then show ?case by simp
next
  case (Cons c cs)
  from Cons.prems have "handler_inv (step cfg c s)" "mixer_inv cfg (step cfg c s)"
    "silence_inv cfg (step cfg c s)"
    by (simp_all add: handler_inv_step mixer_inv_step silence_inv_step)
  then show ?case using Cons.IH by simp
qed

lemma silence_inv_started: "silence_inv cfg started"
  by (simp add: silence_inv_def started_def)










































lemma attempts_append: "attempts (xs @ ys) = attempts xs @ attempts ys"
  by (induction xs rule: attempts.induct) simp_all

lemma attempts_tell: "attempts (tell a m # es) = attempts es"
  by (cases a) (simp_all add: tell_def)

lemma attempts_say: "attempts (say a m # es) = attempts es"
  by (cases a) (simp_all add: say_def)

lemma video_open_attempts:
  "attempts (snd (video_open a i env)) =
     (if dshow_ok env then [CAP_DSHOW] else [CAP_DSHOW, CAP_MSMF])"
  by (cases a) (simp_all add: video_open_def Let_def attempts_tell attempts_append)

lemma video_open_gives_up:
  "fst (video_open a i env) = V_Done \<longleftrightarrow> \<not> dshow_ok env \<and> \<not> msmf_ok env"
  by (simp add: video_open_def Let_def)

lemma video_open_pc: "fst (video_open a i env) = V_Poll \<or> fst (video_open a i env) = V_Done"
  by (simp add: video_open_def Let_def)

lemma video_body_attempts: "attempts (video_body a env) = []"
  by (simp add: video_body_def)

lemma audio_open_attempts: "attempts (fst (snd (audio_open w env))) = []"
  by (cases w) (simp_all add: audio_open_def)

lemma audio_step_attempts: "attempts (fst (snd (audio_step w env r m pc))) = []"
  by (cases pc; cases w)
     (simp_all add: audio_step_def audio_poll_def audio_body_def audio_open_attempts)

lemma callback_attempts: "attempts (callback a w st pc m) = []"
  by (cases w) (simp_all add: callback_def attempts_tell)

lemma audio_stop_attempts: "attempts (fst (audio_stop w m)) = []"
  by (cases w) (simp_all add: audio_stop_def)

lemma map_snd_Pair: "map snd (map (Pair th) evs) = evs" "map (snd \<circ> Pair th) evs = evs"
  by (induction evs) simp_all

lemma open_inv_step: "open_inv s \<Longrightarrow> open_inv (step cfg c s)"
proof (cases c)
  case (MainStep env)
  assume "open_inv s"
  then show ?thesis unfolding MainStep
    by (cases "mpc_of s")
       (auto simp: step_def main_step_def open_inv_def tried_def attempts_append attempts_say
          map_snd_Pair comp_def audio_stop_attempts split: if_splits)
next
  case (VideoStep env)
  assume inv: "open_inv s"
  show ?thesis
  proof (cases "vpc_of s")
    case V_Start
    obtain pc' evs where o: "video_open (app_of cfg) (video_index cfg) env = (pc', evs)"
      by (cases "video_open (app_of cfg) (video_index cfg) env") auto
    from video_open_pc[of "app_of cfg" "video_index cfg" env] o have "pc' \<noteq> V_Start" by auto
    moreover from video_open_attempts[of "app_of cfg" "video_index cfg" env] o
    have "attempts evs = [CAP_DSHOW] \<or> attempts evs = [CAP_DSHOW, CAP_MSMF]"
      by (simp split: if_splits)
    ultimately show ?thesis unfolding VideoStep using inv V_Start o
      by (auto simp: step_def video_step_def open_inv_def tried_def attempts_append map_snd_Pair)
  next
    case V_Poll
    with inv show ?thesis unfolding VideoStep
      by (auto simp: step_def video_step_def open_inv_def tried_def attempts_append
            attempts_tell)
  next
    case V_Body
    with inv show ?thesis unfolding VideoStep
      by (auto simp: step_def video_step_def open_inv_def tried_def attempts_append
            map_snd_Pair video_body_attempts)
  next
    case V_Done
    with inv show ?thesis unfolding VideoStep
      by (auto simp: step_def video_step_def open_inv_def tried_def)
  qed
next
  case (AudioStep env)
  assume inv: "open_inv s"
  obtain pc' evs m' where o:
    "audio_step (audio_worker cfg) env (a_running s) (mixer_of s) (apc_of s) = (pc', evs, m')"
    by (cases "audio_step (audio_worker cfg) env (a_running s) (mixer_of s) (apc_of s)") auto
  from audio_step_attempts[of "audio_worker cfg" env "a_running s" "mixer_of s" "apc_of s"] o
  have "attempts evs = []" by simp
  with inv o show ?thesis unfolding AudioStep
    by (auto simp: step_def open_inv_def tried_def attempts_append map_snd_Pair)
next
  case (CallbackStep st)
  assume "open_inv s"
  then show ?thesis unfolding CallbackStep
    by (auto simp: step_def open_inv_def tried_def attempts_append map_snd_Pair
          callback_attempts)
next
  case StreamStops
  assume "open_inv s"
  then show ?thesis unfolding StreamStops
    by (auto simp: step_def open_inv_def tried_def)
qed

lemma open_inv_exec: "open_inv s \<Longrightarrow> open_inv (exec cfg cs s)"
  by (induction cs arbitrary: s) (simp_all add: open_inv_step)

lemma open_inv_started: "open_inv started"
  by (simp add: open_inv_def started_def tried_def)

lemma tried_prefix: "prefix (tried (exec cfg cs started)) [CAP_DSHOW, CAP_MSMF]"
  using open_inv_exec[OF open_inv_started, of cfg cs]
  by (auto simp: open_inv_def split: if_splits)









































text \<open>
  C1. In every run of capture_app and of guiver/main, whatever the workers and the
  libraries do and whenever the window is closed, the handler's shutdown steps are, in this
  order: clear the video worker's flag, wait for it, clear the audio worker's flag, wait
  for it (twice), end the event loop and accept the close event. A \<^verbatim>\<open>wait()\<close> lies
  behind the GUI thread only when the worker has returned. When the audio worker is a
  sounddevice worker, or \<^verbatim>\<open>stop\<close> has stopped the mixer's stream, no frame, debug line
  or frame rate is emitted by a worker or by a callback, and no line is appended to the
  debug console, after the first call that closes a window or ends the event loop. The
  run \<open>closed_before_mixer_made\<close> below shows that this condition cannot be dropped.
\<close>

theorem shutdown_order_and_silence:
  "shutdown_steps (trace (exec cfg cs started)) =
     take (progress (mpc_of (exec cfg cs started))) shutdown_sequence \<and>
   (2 \<le> progress (mpc_of (exec cfg cs started)) \<longrightarrow> vpc_of (exec cfg cs started) = V_Done) \<and>
   (4 \<le> progress (mpc_of (exec cfg cs started)) \<longrightarrow> apc_of (exec cfg cs started) = A_Done) \<and>
   (is_sounddevice (audio_worker cfg) \<or> (Main, StopStream) \<in> set (trace (exec cfg cs started))
      \<longrightarrow> quiet_after_close (trace (exec cfg cs started)))"
proof -
  have h: "handler_inv (exec cfg cs started)"
    using handler_inv_started by (rule handler_inv_exec)
  have q: "silence_inv cfg (exec cfg cs started)"
    using handler_inv_started mixer_inv_started silence_inv_started by (rule silence_inv_exec)
  from h q show ?thesis by (simp add: handler_inv_def silence_inv_def silenced_def)
qed

theorem shutdown_order_and_silence_witness:
  "mpc_of (exec guiver_config close_while_running started) = M_Closed \<and>
   shutdown_steps (trace (exec guiver_config close_while_running started)) = shutdown_sequence \<and>
   is_sounddevice (audio_worker guiver_config) \<and>
   quiet_after_close (trace (exec guiver_config close_while_running started)) \<and>
   vpc_of (exec guiver_config close_while_running started) = V_Done \<and>
   apc_of (exec guiver_config close_while_running started) = A_Done \<and>
   (Video, EmitPixmap) \<in> set (trace (exec guiver_config close_while_running started)) \<and>
   \<not> is_sounddevice (audio_worker rtmixer_config) \<and>
   (Main, StopStream) \<in> set (trace (exec rtmixer_config closed_after_mixer_made started)) \<and>
   (Audio, EmitDebug ''RTMixer audio callback status: input overflow'')
     \<in> set (trace (exec rtmixer_config closed_after_mixer_made started)) \<and>
   quiet_after_close (trace (exec rtmixer_config closed_after_mixer_made started))"
proof -
  have m: "mpc_of (exec guiver_config close_while_running started) = M_Closed"
    by code_simp
  have e: "(Video, EmitPixmap) \<in> set (trace (exec guiver_config close_while_running started))"
    by code_simp
  have sd: "is_sounddevice (audio_worker guiver_config)" by code_simp
  have rt: "\<not> is_sounddevice (audio_worker rtmixer_config)" by code_simp
  have st: "(Main, StopStream) \<in> set (trace (exec rtmixer_config closed_after_mixer_made started))"
    by code_simp
  have cb: "(Audio, EmitDebug ''RTMixer audio callback status: input overflow'')
     \<in> set (trace (exec rtmixer_config closed_after_mixer_made started))"
    by code_simp
  note g = shutdown_order_and_silence[of guiver_config close_while_running]
  note r = shutdown_order_and_silence[of rtmixer_config closed_after_mixer_made]
  from g m have s1: "shutdown_steps (trace (exec guiver_config close_while_running started))
      = shutdown_sequence"
    by (simp add: take_shutdown)
  from g sd have q1: "quiet_after_close (trace (exec guiver_config close_while_running started))"
    by blast
  from g m have v1: "vpc_of (exec guiver_config close_while_running started) = V_Done"
    and a1: "apc_of (exec guiver_config close_while_running started) = A_Done"
    by simp_all
  from r st have q2: "quiet_after_close (trace (exec rtmixer_config closed_after_mixer_made started))"
    by blast
  from m s1 sd q1 v1 a1 e rt st cb q2 show ?thesis by (intro conjI)
qed

theorem stream_left_running_reports_after_close:
  "mpc_of (exec rtmixer_config closed_before_mixer_made started) = M_Closed \<and>
   shutdown_steps (trace (exec rtmixer_config closed_before_mixer_made started))
     = shutdown_sequence \<and>
   (Main, StopStream) \<notin> set (trace (exec rtmixer_config closed_before_mixer_made started)) \<and>
   mixer_of (exec rtmixer_config closed_before_mixer_made started) = MixerRunning \<and>
   last (trace (exec rtmixer_config closed_before_mixer_made started))
     = (Audio, EmitDebug ''RTMixer audio callback status: input overflow'') \<and>
   \<not> quiet_after_close (trace (exec rtmixer_config closed_before_mixer_made started))"
  by code_simp

text \<open>
  C3. \<^verbatim>\<open>VideoThread.run\<close> tries \<^verbatim>\<open>CAP_DSHOW\<close> first and \<^verbatim>\<open>CAP_MSMF\<close> only when
  the first attempt did not open the device; it returns without a handle exactly when
  both failed; and over a whole run no further attempt is ever made, so the backends
  tried are at most these two, in this order.
\<close>

theorem two_backend_attempts:
  "attempts (snd (video_open a i env)) =
     (if dshow_ok env then [CAP_DSHOW] else [CAP_DSHOW, CAP_MSMF]) \<and>
   (fst (video_open a i env) = V_Done \<longleftrightarrow> \<not> dshow_ok env \<and> \<not> msmf_ok env) \<and>
   prefix (tried (exec cfg cs started)) [CAP_DSHOW, CAP_MSMF] \<and>
   length (tried (exec cfg cs started)) \<le> 2"
proof -
  have "length (tried (exec cfg cs started)) \<le> length [CAP_DSHOW, CAP_MSMF]"
    using tried_prefix by (rule prefix_length_le)
  then show ?thesis
    by (simp add: video_open_attempts video_open_gives_up tried_prefix)
qed

theorem two_backend_attempts_witness:
  "attempts (snd (video_open CaptureApp 0 camera_fails)) = [CAP_DSHOW, CAP_MSMF] \<and>
   fst (video_open CaptureApp 0 camera_fails) = V_Done \<and>
   tried (exec capture_app_config
            [VideoStep camera_fails, VideoStep camera_works, VideoStep camera_works] started)
     = [CAP_DSHOW, CAP_MSMF]"
proof -
  have f: "\<not> dshow_ok camera_fails \<and> \<not> msmf_ok camera_fails"
    by (simp add: camera_fails_def camera_works_def)
  have t: "tried (exec capture_app_config
            [VideoStep camera_fails, VideoStep camera_works, VideoStep camera_works] started)
            = [CAP_DSHOW, CAP_MSMF]"
    by code_simp
  from two_backend_attempts[of CaptureApp 0 camera_fails capture_app_config
         "[VideoStep camera_fails, VideoStep camera_works, VideoStep camera_works]"] f t
  show ?thesis by simp
qed



text \<open>
  The claim C7 as stated fails for the rtmixer worker. When the mixer's stream has
  stopped by itself, the worker leaves its loop and returns, the window is closed, and
  the handler runs to its end: the mixer is never closed. The same holds when the window
  is closed before the worker has made its mixer: then the stream is even left running.
\<close>

theorem rtmixer_mixer_never_closed:
  "\<not> is_sounddevice (audio_worker rtmixer_config) \<and>
   mpc_of (exec rtmixer_config stream_stops_then_closed started) = M_Closed \<and>
   apc_of (exec rtmixer_config stream_stops_then_closed started) = A_Done \<and>
   (Audio, RtMixerOpen 0 ''ASIO'')
     \<in> set (trace (exec rtmixer_config stream_stops_then_closed started)) \<and>
   (Main, SetRunningFalse Audio)
     \<in> set (trace (exec rtmixer_config stream_stops_then_closed started)) \<and>
   mixer_of (exec rtmixer_config stream_stops_then_closed started) = MixerIdle \<and>
   \<not> list_ex (\<lambda>x. snd x = MixerClose \<or> snd x = StopStream \<or> snd x = StreamClose)
        (trace (exec rtmixer_config stream_stops_then_closed started)) \<and>
   mpc_of (exec rtmixer_config closed_before_mixer_made started) = M_Closed \<and>
   apc_of (exec rtmixer_config closed_before_mixer_made started) = A_Done \<and>
   (Audio, RtMixerOpen 0 ''ASIO'')
     \<in> set (trace (exec rtmixer_config closed_before_mixer_made started)) \<and>
   mixer_of (exec rtmixer_config closed_before_mixer_made started) = MixerRunning \<and>
   \<not> list_ex (\<lambda>x. snd x = MixerClose \<or> snd x = StopStream \<or> snd x = StreamClose)
        (trace (exec rtmixer_config closed_before_mixer_made started))"
  by code_simp

section \<open>Properties of the four scripts\<close>

lemma is_open_simps:
  "\<not> is_open (Print m)" "\<not> is_open (Input m)" "\<not> is_open (AppendMessage m)"
  "\<not> is_open (Critical m m')" "\<not> is_open (GetItem m ms)" "\<not> is_open GetInputDevices"
  "\<not> is_open QueryDevices" "\<not> is_open QueryHostapis" "\<not> is_open VideoInputs"
  "\<not> is_open (Show m)" "\<not> is_open AppExec" "is_open (Start w)" "is_open (CameraStart m)"
  by (simp_all add: is_open_def)

lemma kinds_open:
  "is_start e \<Longrightarrow> is_open e" "is_video_open e \<Longrightarrow> is_open e"
  "is_audio_open e \<Longrightarrow> is_open e" "is_video_start e \<Longrightarrow> is_open e"
  by (cases e; simp add: is_start_def is_video_open_def is_audio_open_def is_video_start_def
        is_open_def)+

lemma filter_kind_empty:
  assumes "\<forall>e \<in> set evs. \<not> is_open e"
  shows "filter is_start evs = []" "filter is_video_open evs = []"
    "filter is_audio_open evs = []" "filter is_video_start evs = []"
  using assms kinds_open by (auto simp: filter_empty_conv)

lemma map_Print_no_open: "\<forall>e \<in> set (map Print xs). \<not> is_open e"
  by (simp add: is_open_simps)

lemma list_video_no_open: "\<forall>e \<in> set (capture_app_list_video_events v). \<not> is_open e"
  by (auto simp: capture_app_list_video_events_def is_open_simps)

lemma list_audio_no_open: "\<forall>e \<in> set (capture_app_list_audio_events d). \<not> is_open e"
  by (auto simp: capture_app_list_audio_events_def Let_def is_open_simps split: prod.splits)

lemma prompt_selection_no_open:
  "\<forall>e \<in> set (fst (prompt_selection m dt stdin)). \<not> is_open e"
  by (induction stdin) (auto simp: is_open_simps split: option.splits prod.splits)

lemma prompt_selection_head:
  "\<exists>rest. fst (prompt_selection m dt stdin) = Input (''Select '' @ dt @ '' device number: '') # rest"
  by (cases stdin) (auto split: option.splits prod.splits)

lemma prompt_gui_no_open:
  "\<forall>e \<in> set (fst (prompt_selection_gui opts dt ans)). \<not> is_open e"
  by (cases ans) (auto simp: prompt_selection_gui_def Let_def is_open_simps split: option.splits)

lemma prompt_gui_head:
  "\<exists>rest. fst (prompt_selection_gui opts dt ans) =
      GetItem (''Select '' @ dt @ '' Device'') (numbered 0 opts) # rest"
  by (cases ans) (auto simp: prompt_selection_gui_def Let_def split: option.splits)

lemma capture_app_main_cases:
  obtains
    (no_video) "v = []"
      "capture_app_main v d d' stdin =
         (capture_app_list_video_events v @ [Print ''No video devices detected. Exiting.''],
          Returned)"
  | (video_prompt_raised) ev2 s2 e where
      "prompt_selection (int (length v)) ''video'' stdin = (ev2, s2, Inl e)"
      "capture_app_main v d d' stdin = (capture_app_list_video_events v @ ev2, Raised e)"
  | (no_audio) ev2 s2 vc where
      "v \<noteq> []"
      "prompt_selection (int (length v)) ''video'' stdin = (ev2, s2, Inr vc)"
      "fst (capture_app_list_audio_input_devices_filtered d) = []"
      "capture_app_main v d d' stdin =
         (capture_app_list_video_events v @ ev2 @ capture_app_list_audio_events d @
            [Print ''No matching audio input devices detected. Exiting.''],
          Returned)"
  | (later_raised) ev2 s2 vc ev4 tl e where
      "prompt_selection (int (length v)) ''video'' stdin = (ev2, s2, Inr vc)"
      "\<exists>n s3 r. prompt_selection n ''audio input'' s2 = (ev4, s3, r)"
      "tl = [] \<or> tl = [QueryDevices]"
      "capture_app_main v d d' stdin =
         (capture_app_list_video_events v @ ev2 @ capture_app_list_audio_events d @ ev4 @ tl,
          Raised e)"
  | (running) ev2 s2 vc ev4 msg k where
      "prompt_selection (int (length v)) ''video'' stdin = (ev2, s2, Inr vc)"
      "\<exists>n s3 r. prompt_selection n ''audio input'' s2 = (ev4, s3, r)"
      "capture_app_main v d d' stdin =
         (capture_app_list_video_events v @ ev2 @ capture_app_list_audio_events d @ ev4 @
            [QueryDevices, Print msg, Start (AudioThread (AudioStream k)),
             Start (VideoThread vc), Show ''Capture Card Viewer'', AppExec],
          Running)"
proof (cases "v = []")
  case True
  then have "capture_app_main v d d' stdin =
         (capture_app_list_video_events v @ [Print ''No video devices detected. Exiting.''],
          Returned)"
    by (simp add: capture_app_main_def)
  with True show ?thesis by (rule no_video)
next
  case nv: False
  obtain ev2 s2 r2 where p1: "prompt_selection (int (length v)) ''video'' stdin = (ev2, s2, r2)"
    by (cases "prompt_selection (int (length v)) ''video'' stdin") auto
  show ?thesis
  proof (cases r2)
    case (Inl e)
    have "capture_app_main v d d' stdin = (capture_app_list_video_events v @ ev2, Raised e)"
      using nv p1 Inl by (simp add: capture_app_main_def)
    with p1 Inl show ?thesis using video_prompt_raised by blast
  next
    case (Inr vc)
    note p1' = p1[unfolded Inr]
    obtain ad an where f: "capture_app_list_audio_input_devices_filtered d = (ad, an)"
      by (cases "capture_app_list_audio_input_devices_filtered d") auto
    show ?thesis
    proof (cases "ad = []")
      case True
      have "capture_app_main v d d' stdin =
         (capture_app_list_video_events v @ ev2 @ capture_app_list_audio_events d @
            [Print ''No matching audio input devices detected. Exiting.''],
          Returned)"
        using nv p1' f True by (simp add: capture_app_main_def)
      moreover have "fst (capture_app_list_audio_input_devices_filtered d) = []"
        using f True by simp
      ultimately show ?thesis using no_audio[OF nv p1'] by blast
    next
      case na: False
      obtain ev4 s3 r4 where
        p2: "prompt_selection (int (length ad)) ''audio input'' s2 = (ev4, s3, r4)"
        by (cases "prompt_selection (int (length ad)) ''audio input'' s2") auto
      have ex: "\<exists>n s3 r. prompt_selection n ''audio input'' s2 = (ev4, s3, r)"
        using p2 by blast
      show ?thesis
      proof (cases r4)
        case (Inl e)
        have "capture_app_main v d d' stdin =
           (capture_app_list_video_events v @ ev2 @ capture_app_list_audio_events d @ ev4 @ [],
            Raised e)"
          using nv p1' f na p2 Inl by (simp add: capture_app_main_def)
        then show ?thesis using later_raised[OF p1' ex] by blast
      next
        case (Inr ac)
        note p2' = p2[unfolded Inr]
        show ?thesis
        proof (cases "audio_choice_device_index d d' ac")
          case (Inl e)
          have "capture_app_main v d d' stdin =
             (capture_app_list_video_events v @ ev2 @ capture_app_list_audio_events d @ ev4 @
                [QueryDevices], Raised e)"
            using nv p1' f na p2' Inl by (simp add: capture_app_main_def)
          then show ?thesis using later_raised[OF p1' ex] by blast
        next
          case (Inr k)
          note idx = Inr
          show ?thesis
          proof (cases "py_get v vc")
            case (Inl e)
            have "capture_app_main v d d' stdin =
               (capture_app_list_video_events v @ ev2 @ capture_app_list_audio_events d @ ev4 @
                  [QueryDevices], Raised IndexError)"
              using nv p1' f na p2' idx Inl by (simp add: capture_app_main_def)
            then show ?thesis using later_raised[OF p1' ex] by blast
          next
            case (Inr vn)
            note vname = Inr
            show ?thesis
            proof (cases "py_get an ac")
              case (Inl e)
              have "capture_app_main v d d' stdin =
                 (capture_app_list_video_events v @ ev2 @ capture_app_list_audio_events d @ ev4 @
                    [QueryDevices], Raised IndexError)"
                using nv p1' f na p2' idx vname Inl by (simp add: capture_app_main_def)
              then show ?thesis using later_raised[OF p1' ex] by blast
            next
              case (Inr an')
              have "\<exists>msg. capture_app_main v d d' stdin =
                 (capture_app_list_video_events v @ ev2 @ capture_app_list_audio_events d @ ev4 @
                    [QueryDevices, Print msg, Start (AudioThread (AudioStream k)),
                     Start (VideoThread vc), Show ''Capture Card Viewer'', AppExec],
                  Running)"
                using nv p1' f na p2' idx vname Inr by (simp add: capture_app_main_def)
              then show ?thesis using running[OF p1' ex] by blast
            qed
          qed
        qed
      qed
    qed
  qed
qed

lemma guiver_main_cases:
  obtains
    (no_video) "v = []"
      "guiver_main v rt hs d a1 a2 =
         ([Show ''Debug Console - FPS: N/A'', GetInputDevices,
           AppendMessage ''No video devices detected. Exiting.''],
          Raised (SystemExit 1))"
  | (no_audio) ev1 vc fd fn fi where
      "v \<noteq> []"
      "prompt_selection_gui v ''video'' a1 = (ev1, Inr vc)"
      "guiver_list_audio_input_devices_filtered hs d = Inr (fd, fn, fi)"
      "fst (combine_audio (fst (snd (list_rtmixer_devices_by_apis rt preferred_api_names))) fn)
         = []"
      "guiver_main v rt hs d a1 a2 =
         ([Show ''Debug Console - FPS: N/A'', GetInputDevices] @ ev1 @
          [QueryDevices, QueryHostapis,
           AppendMessage ''No audio input devices found. Exiting.''],
          Raised (SystemExit 1))"
  | (raised) evs e where
      "\<forall>x \<in> set evs. \<not> is_open x"
      "guiver_main v rt hs d a1 a2 = (evs, Raised e)"
  | (running) ev1 vc ev3 msg at where
      "prompt_selection_gui v ''video'' a1 = (ev1, Inr vc)"
      "\<exists>opts r. prompt_selection_gui opts ''audio input'' a2 = (ev3, r)"
      "guiver_main v rt hs d a1 a2 =
         ([Show ''Debug Console - FPS: N/A'', GetInputDevices] @ ev1 @
          [QueryDevices, QueryHostapis] @ ev3 @
          [AppendMessage msg, Start (AudioThread at), Start (VideoThread vc),
           Show ''Capture Card Viewer'', AppExec],
          Running)"
proof (cases "v = []")
  case True
  then have "guiver_main v rt hs d a1 a2 =
         ([Show ''Debug Console - FPS: N/A'', GetInputDevices,
           AppendMessage ''No video devices detected. Exiting.''],
          Raised (SystemExit 1))"
    by (simp add: guiver_main_def)
  with True show ?thesis by (rule no_video)
next
  case nv: False
  obtain ev1 r1 where p1: "prompt_selection_gui v ''video'' a1 = (ev1, r1)"
    by (cases "prompt_selection_gui v ''video'' a1") auto
  have no1: "\<forall>x \<in> set ev1. \<not> is_open x"
    using prompt_gui_no_open[of v "''video''" a1] p1 by simp
  show ?thesis
  proof (cases r1)
    case (Inl e)
    have "guiver_main v rt hs d a1 a2 =
            ([Show ''Debug Console - FPS: N/A'', GetInputDevices] @ ev1, Raised e)"
      using nv p1 Inl by (simp add: guiver_main_def)
    moreover have "\<forall>x \<in> set ([Show ''Debug Console - FPS: N/A'', GetInputDevices] @ ev1).
                     \<not> is_open x"
      using no1 by (simp add: is_open_simps)
    ultimately show ?thesis using raised by blast
  next
    case (Inr vc)
    note p1' = p1[unfolded Inr]
    obtain rd rn ri ra where
      l: "list_rtmixer_devices_by_apis rt preferred_api_names = (rd, rn, ri, ra)"
      by (cases "list_rtmixer_devices_by_apis rt preferred_api_names") auto
    show ?thesis
    proof (cases "guiver_list_audio_input_devices_filtered hs d")
      case (Inl e)
      have "guiver_main v rt hs d a1 a2 =
              ([Show ''Debug Console - FPS: N/A'', GetInputDevices] @ ev1 @
               [QueryDevices, QueryHostapis], Raised e)"
        using nv p1' l Inl by (simp add: guiver_main_def)
      moreover have "\<forall>x \<in> set ([Show ''Debug Console - FPS: N/A'', GetInputDevices] @ ev1 @
               [QueryDevices, QueryHostapis]). \<not> is_open x"
        using no1 by (simp add: is_open_simps)
      ultimately show ?thesis using raised by blast
    next
      case (Inr trip)
      obtain fd fn fi where trip: "trip = (fd, fn, fi)" by (cases trip) auto
      note g = Inr[unfolded trip]
      obtain an ds where c: "combine_audio rn fn = (an, ds)"
        by (cases "combine_audio rn fn") auto
      show ?thesis
      proof (cases "an = []")
        case True
        have "guiver_main v rt hs d a1 a2 =
           ([Show ''Debug Console - FPS: N/A'', GetInputDevices] @ ev1 @
            [QueryDevices, QueryHostapis,
             AppendMessage ''No audio input devices found. Exiting.''],
            Raised (SystemExit 1))"
          using nv p1' l g c True by (simp add: guiver_main_def)
        moreover have "fst (combine_audio
            (fst (snd (list_rtmixer_devices_by_apis rt preferred_api_names))) fn) = []"
          using l c True by simp
        ultimately show ?thesis using no_audio[OF nv p1' g] by blast
      next
        case na: False
        obtain ev3 r3 where p3: "prompt_selection_gui an ''audio input'' a2 = (ev3, r3)"
          by (cases "prompt_selection_gui an ''audio input'' a2") auto
        have no3: "\<forall>x \<in> set ev3. \<not> is_open x"
          using prompt_gui_no_open[of an "''audio input''" a2] p3 by simp
        have ex: "\<exists>opts r. prompt_selection_gui opts ''audio input'' a2 = (ev3, r)"
          using p3 by blast
        have no: "\<forall>x \<in> set ([Show ''Debug Console - FPS: N/A'', GetInputDevices] @ ev1 @
               [QueryDevices, QueryHostapis] @ ev3). \<not> is_open x"
          using no1 no3 by (auto simp: is_open_simps)
        show ?thesis
        proof (cases r3)
          case (Inl e)
          have "guiver_main v rt hs d a1 a2 =
             ([Show ''Debug Console - FPS: N/A'', GetInputDevices] @ ev1 @
               [QueryDevices, QueryHostapis] @ ev3, Raised e)"
            using nv p1' l g c na p3 Inl by (simp add: guiver_main_def)
          with no show ?thesis using raised by blast
        next
          case (Inr ac)
          note p3' = p3[unfolded Inr]
          show ?thesis
          proof (cases "audio_thread_for ds ri ra fi ac")
            case (Inl e)
            have "guiver_main v rt hs d a1 a2 =
               ([Show ''Debug Console - FPS: N/A'', GetInputDevices] @ ev1 @
                 [QueryDevices, QueryHostapis] @ ev3, Raised e)"
              using nv p1' l g c na p3' Inl by (simp add: guiver_main_def)
            with no show ?thesis using raised by blast
          next
            case (Inr at)
            note th = Inr
            show ?thesis
            proof (cases "py_get v vc")
              case (Inl e)
              have "guiver_main v rt hs d a1 a2 =
                 ([Show ''Debug Console - FPS: N/A'', GetInputDevices] @ ev1 @
                   [QueryDevices, QueryHostapis] @ ev3, Raised IndexError)"
                using nv p1' l g c na p3' th Inl by (simp add: guiver_main_def)
              with no show ?thesis using raised by blast
            next
              case (Inr vn)
              note vname = Inr
              show ?thesis
              proof (cases "py_get an ac")
                case (Inl e)
                have "guiver_main v rt hs d a1 a2 =
                   ([Show ''Debug Console - FPS: N/A'', GetInputDevices] @ ev1 @
                     [QueryDevices, QueryHostapis] @ ev3, Raised IndexError)"
                  using nv p1' l g c na p3' th vname Inl by (simp add: guiver_main_def)
                with no show ?thesis using raised by blast
              next
                case (Inr an')
                have "\<exists>msg. guiver_main v rt hs d a1 a2 =
                   ([Show ''Debug Console - FPS: N/A'', GetInputDevices] @ ev1 @
                    [QueryDevices, QueryHostapis] @ ev3 @
                    [AppendMessage msg, Start (AudioThread at), Start (VideoThread vc),
                     Show ''Capture Card Viewer'', AppExec],
                    Running)"
                  using nv p1' l g c na p3' th vname Inr by (simp add: guiver_main_def)
                then show ?thesis using running[OF p1' ex] by blast
              qed
            qed
          qed
        qed
      qed
    qed
  qed
qed

lemma is_listing_simps:
  "is_listing GetInputDevices" "is_listing QueryDevices" "is_listing QueryHostapis"
  "is_listing VideoInputs" "\<not> is_listing (Print m)" "\<not> is_listing (Show m)"
  "\<not> is_listing (Input m)" "\<not> is_listing (GetItem m ms)"
  by (simp_all add: is_listing_def)

lemma is_prompt_simps:
  "is_prompt (Input m)" "is_prompt (GetItem m ms)" "\<not> is_prompt (Print m)"
  "\<not> is_prompt GetInputDevices" "\<not> is_prompt QueryDevices" "\<not> is_prompt QueryHostapis"
  "\<not> is_prompt VideoInputs" "\<not> is_prompt (Show m)" "\<not> is_prompt AppExec"
  "\<not> is_prompt (CameraStart m)" "\<not> is_prompt (Critical m m')"
  by (simp_all add: is_prompt_def)

lemma kind_simps:
  "is_start (Start w)" "is_video_start (Start (VideoThread c))"
  "\<not> is_video_start (Start (AudioThread t))" "is_audio_open (Start (AudioThread t))"
  "\<not> is_audio_open (Start (VideoThread c))" "is_video_open (Start (VideoThread c))"
  "\<not> is_video_open (Start (AudioThread t))"
  "\<not> is_start (Show m)" "\<not> is_start AppExec" "\<not> is_start (Print m)" "\<not> is_start QueryDevices"
  "\<not> is_start (AppendMessage m)"
  "\<not> is_video_start (Show m)" "\<not> is_video_start AppExec" "\<not> is_video_start (Print m)"
  "\<not> is_video_start QueryDevices" "\<not> is_video_start (AppendMessage m)"
  "\<not> is_audio_open (Show m)" "\<not> is_audio_open AppExec" "\<not> is_audio_open (Print m)"
  "\<not> is_audio_open QueryDevices" "\<not> is_audio_open (AppendMessage m)"
  "\<not> is_video_open (Show m)" "\<not> is_video_open AppExec" "\<not> is_video_open (Print m)"
  "\<not> is_video_open QueryDevices" "\<not> is_video_open (AppendMessage m)"
  by (simp_all add: is_start_def is_video_start_def is_audio_open_def is_video_open_def)






lemma prompt_events_no_open:
  "prompt_selection n dt s = (ev, s', r) \<Longrightarrow> \<forall>e \<in> set ev. \<not> is_open e"
  using prompt_selection_no_open[of n dt s] by simp

lemma prompt_gui_events_no_open:
  "prompt_selection_gui opts dt a = (ev, r) \<Longrightarrow> \<forall>e \<in> set ev. \<not> is_open e"
  using prompt_gui_no_open[of opts dt a] by simp

lemma list_video_shape:
  "\<exists>A. capture_app_list_video_events v = GetInputDevices # A \<and>
       (\<forall>e \<in> set A. \<not> is_prompt e \<and> \<not> is_open e)"
  by (auto simp: capture_app_list_video_events_def is_prompt_simps is_open_simps)

lemma take_filter_le: "length (filter P (take n xs)) \<le> length (filter P xs)"
proof -
  have "length (filter P xs) = length (filter P (take n xs @ drop n xs))" by simp
  also have "\<dots> = length (filter P (take n xs)) + length (filter P (drop n xs))"
    by (simp only: filter_append length_append)
  finally show ?thesis by simp
qed

lemma counts_shape:
  assumes "\<forall>e \<in> set X. \<not> is_open e"
  shows "filter is_start (X @ [Start (AudioThread a), Start (VideoThread c), Show w, AppExec])
           = [Start (AudioThread a), Start (VideoThread c)]"
    and "filter is_video_start
           (X @ [Start (AudioThread a), Start (VideoThread c), Show w, AppExec])
           = [Start (VideoThread c)]"
    and "filter is_audio_open
           (X @ [Start (AudioThread a), Start (VideoThread c), Show w, AppExec])
           = [Start (AudioThread a)]"
  unfolding filter_append filter_kind_empty[OF assms] by (simp_all add: kind_simps)

lemma capture_app_main_shape:
  "(snd (capture_app_main v d d' stdin) \<noteq> Running \<and>
      (\<forall>e \<in> set (fst (capture_app_main v d d' stdin)). \<not> is_open e)) \<or>
   (snd (capture_app_main v d d' stdin) = Running \<and>
      (\<exists>A p B a c w.
         (\<forall>e \<in> set A. \<not> is_prompt e \<and> \<not> is_open e) \<and> is_prompt p \<and> \<not> is_open p \<and>
         (\<forall>e \<in> set B. \<not> is_open e) \<and>
         fst (capture_app_main v d d' stdin) =
           [] @ GetInputDevices # A @ p # B @
           [Start (AudioThread a), Start (VideoThread c), Show w, AppExec]))"
proof (cases rule: capture_app_main_cases[where v=v and d=d and d'=d' and stdin=stdin])
  case no_video
  then show ?thesis using list_video_no_open[of v] by (auto simp: is_open_simps)
next
  case (video_prompt_raised ev2 s2 e)
  then show ?thesis
    using list_video_no_open[of v] prompt_events_no_open[OF video_prompt_raised(1)] by auto
next
  case (no_audio ev2 s2 vc)
  then show ?thesis
    using list_video_no_open[of v] prompt_events_no_open[OF no_audio(2)]
      list_audio_no_open[of d] by (auto simp: is_open_simps)
next
  case (later_raised ev2 s2 vc ev4 tl e)
  from later_raised(2) obtain n s3 r where p2: "prompt_selection n ''audio input'' s2 = (ev4, s3, r)"
    by blast
  have "\<forall>x \<in> set tl. \<not> is_open x" using later_raised(3) by (auto simp: is_open_simps)
  then show ?thesis
    using later_raised(4) list_video_no_open[of v] prompt_events_no_open[OF later_raised(1)]
      list_audio_no_open[of d] prompt_events_no_open[OF p2] by auto
next
  case (running ev2 s2 vc ev4 msg k)
  from running(2) obtain n s3 r where p2: "prompt_selection n ''audio input'' s2 = (ev4, s3, r)"
    by blast
  from list_video_shape obtain A where
    A: "capture_app_list_video_events v = GetInputDevices # A"
       "\<forall>e \<in> set A. \<not> is_prompt e \<and> \<not> is_open e" by blast
  from prompt_selection_head[of "int (length v)" "''video''" stdin] running(1)
  obtain rest where rest: "ev2 = Input (''Select '' @ ''video'' @ '' device number: '') # rest"
    by auto
  have no2: "\<forall>e \<in> set rest. \<not> is_open e"
    using prompt_events_no_open[OF running(1)] rest by simp
  let ?B = "rest @ capture_app_list_audio_events d @ ev4 @ [QueryDevices, Print msg]"
  have B: "\<forall>e \<in> set ?B. \<not> is_open e"
    using no2 list_audio_no_open[of d] prompt_events_no_open[OF p2]
    by (auto simp: is_open_simps)
  have eq: "fst (capture_app_main v d d' stdin) =
           [] @ GetInputDevices # A @ Input (''Select '' @ ''video'' @ '' device number: '') # ?B @
           [Start (AudioThread (AudioStream k)), Start (VideoThread vc),
            Show ''Capture Card Viewer'', AppExec]"
    using running(3) A(1) rest by simp
  have "snd (capture_app_main v d d' stdin) = Running" using running(3) by simp
  moreover have "is_prompt (Input (''Select '' @ ''video'' @ '' device number: ''))"
    "\<not> is_open (Input (''Select '' @ ''video'' @ '' device number: ''))"
    by (simp_all add: is_prompt_simps is_open_simps)
  ultimately show ?thesis using A(2) B eq by blast
qed

lemma guiver_main_shape:
  "(snd (guiver_main v rt hs d a1 a2) \<noteq> Running \<and>
      (\<forall>e \<in> set (fst (guiver_main v rt hs d a1 a2)). \<not> is_open e)) \<or>
   (snd (guiver_main v rt hs d a1 a2) = Running \<and>
      (\<exists>p B a c w.
         is_prompt p \<and> \<not> is_open p \<and> (\<forall>e \<in> set B. \<not> is_open e) \<and>
         fst (guiver_main v rt hs d a1 a2) =
           [Show ''Debug Console - FPS: N/A''] @ GetInputDevices # [] @ p # B @
           [Start (AudioThread a), Start (VideoThread c), Show w, AppExec]))"
proof (cases rule: guiver_main_cases[where v=v and rt=rt and hs=hs and d=d and ?a1.0=a1 and ?a2.0=a2])
  case no_video
  then show ?thesis by (simp add: is_open_simps)
next
  case (no_audio ev1 vc fd fn fi)
  then show ?thesis
    using prompt_gui_events_no_open[OF no_audio(2)] by (auto simp: is_open_simps)
next
  case (raised evs e)
  then show ?thesis by simp
next
  case (running ev1 vc ev3 msg at)
  from running(2) obtain opts r where p3: "prompt_selection_gui opts ''audio input'' a2 = (ev3, r)"
    by blast
  from prompt_gui_head[of v "''video''" a1] running(1)
  obtain rest where rest: "ev1 = GetItem (''Select '' @ ''video'' @ '' Device'') (numbered 0 v) # rest"
    by auto
  have no1: "\<forall>e \<in> set rest. \<not> is_open e"
    using prompt_gui_events_no_open[OF running(1)] rest by simp
  let ?B = "rest @ [QueryDevices, QueryHostapis] @ ev3 @ [AppendMessage msg]"
  have B: "\<forall>e \<in> set ?B. \<not> is_open e"
    using no1 prompt_gui_events_no_open[OF p3] by (auto simp: is_open_simps)
  have eq: "fst (guiver_main v rt hs d a1 a2) =
           [Show ''Debug Console - FPS: N/A''] @ GetInputDevices # [] @
           GetItem (''Select '' @ ''video'' @ '' Device'') (numbered 0 v) # ?B @
           [Start (AudioThread at), Start (VideoThread vc), Show ''Capture Card Viewer'', AppExec]"
    using running(3) rest by simp
  have "snd (guiver_main v rt hs d a1 a2) = Running" using running(3) by simp
  moreover have "is_prompt (GetItem (''Select '' @ ''video'' @ '' Device'') (numbered 0 v))"
    "\<not> is_open (GetItem (''Select '' @ ''video'' @ '' Device'') (numbered 0 v))"
    by (simp_all add: is_prompt_simps is_open_simps)
  ultimately show ?thesis using B eq by blast
qed



lemma main_counts:
  assumes "(out \<noteq> Running \<and> (\<forall>e \<in> set evs. \<not> is_open e)) \<or>
     (out = Running \<and>
      (\<exists>X a c w. (\<forall>e \<in> set X. \<not> is_open e) \<and>
         evs = X @ [Start (AudioThread a), Start (VideoThread c), Show w, AppExec]))"
  shows "length (filter is_start (take n evs)) \<le> 2 \<and>
         length (filter is_video_start (take n evs)) \<le> 1 \<and>
         length (filter is_audio_open (take n evs)) \<le> 1"
proof -
  have "length (filter is_start evs) \<le> 2 \<and> length (filter is_video_start evs) \<le> 1 \<and>
        length (filter is_audio_open evs) \<le> 1"
    using assms
  proof (elim disjE conjE exE)
    assume "\<forall>e \<in> set evs. \<not> is_open e"
    then show ?thesis by (simp add: filter_kind_empty)
  next
    fix X a c w
    assume X: "\<forall>e \<in> set X. \<not> is_open e"
      and e: "evs = X @ [Start (AudioThread a), Start (VideoThread c), Show w, AppExec]"
    show ?thesis unfolding e by (simp only: counts_shape[OF X]) simp
  qed
  then show ?thesis
    using take_filter_le[of is_start n evs] take_filter_le[of is_video_start n evs]
      take_filter_le[of is_audio_open n evs] by linarith
qed

lemma capture_app_counts:
  "length (filter is_start (take n (fst (capture_app_main v d d' stdin)))) \<le> 2 \<and>
   length (filter is_video_start (take n (fst (capture_app_main v d d' stdin)))) \<le> 1 \<and>
   length (filter is_audio_open (take n (fst (capture_app_main v d d' stdin)))) \<le> 1"
proof (rule main_counts[where out = "snd (capture_app_main v d d' stdin)"])
  from capture_app_main_shape[of v d d' stdin]
  show "(snd (capture_app_main v d d' stdin) \<noteq> Running \<and>
      (\<forall>e \<in> set (fst (capture_app_main v d d' stdin)). \<not> is_open e)) \<or>
     (snd (capture_app_main v d d' stdin) = Running \<and>
      (\<exists>X a c w. (\<forall>e \<in> set X. \<not> is_open e) \<and>
         fst (capture_app_main v d d' stdin) =
           X @ [Start (AudioThread a), Start (VideoThread c), Show w, AppExec]))"
  proof (elim disjE conjE exE)
    assume "snd (capture_app_main v d d' stdin) \<noteq> Running"
      "\<forall>e \<in> set (fst (capture_app_main v d d' stdin)). \<not> is_open e"
    then show ?thesis by blast
  next
    fix A p B a c w
    assume r: "snd (capture_app_main v d d' stdin) = Running"
      and A: "\<forall>e \<in> set A. \<not> is_prompt e \<and> \<not> is_open e" and p: "\<not> is_open p"
      and B: "\<forall>e \<in> set B. \<not> is_open e"
      and e: "fst (capture_app_main v d d' stdin) =
           [] @ GetInputDevices # A @ p # B @
           [Start (AudioThread a), Start (VideoThread c), Show w, AppExec]"
    have "\<forall>e \<in> set (GetInputDevices # A @ p # B). \<not> is_open e"
      using A p B by (auto simp: is_open_simps)
    moreover have "fst (capture_app_main v d d' stdin) =
        (GetInputDevices # A @ p # B) @
        [Start (AudioThread a), Start (VideoThread c), Show w, AppExec]"
      using e by simp
    ultimately show ?thesis using r by blast
  qed
qed

lemma guiver_counts:
  "length (filter is_start (take n (fst (guiver_main v rt hs d a1 a2)))) \<le> 2 \<and>
   length (filter is_video_start (take n (fst (guiver_main v rt hs d a1 a2)))) \<le> 1 \<and>
   length (filter is_audio_open (take n (fst (guiver_main v rt hs d a1 a2)))) \<le> 1"
proof (rule main_counts[where out = "snd (guiver_main v rt hs d a1 a2)"])
  from guiver_main_shape[of v rt hs d a1 a2]
  show "(snd (guiver_main v rt hs d a1 a2) \<noteq> Running \<and>
      (\<forall>e \<in> set (fst (guiver_main v rt hs d a1 a2)). \<not> is_open e)) \<or>
     (snd (guiver_main v rt hs d a1 a2) = Running \<and>
      (\<exists>X a c w. (\<forall>e \<in> set X. \<not> is_open e) \<and>
         fst (guiver_main v rt hs d a1 a2) =
           X @ [Start (AudioThread a), Start (VideoThread c), Show w, AppExec]))"
  proof (elim disjE conjE exE)
    assume "snd (guiver_main v rt hs d a1 a2) \<noteq> Running"
      "\<forall>e \<in> set (fst (guiver_main v rt hs d a1 a2)). \<not> is_open e"
    then show ?thesis by blast
  next
    fix p B a c w
    assume r: "snd (guiver_main v rt hs d a1 a2) = Running"
      and p: "\<not> is_open p" and B: "\<forall>e \<in> set B. \<not> is_open e"
      and e: "fst (guiver_main v rt hs d a1 a2) =
           [Show ''Debug Console - FPS: N/A''] @ GetInputDevices # [] @ p # B @
           [Start (AudioThread a), Start (VideoThread c), Show w, AppExec]"
    have "\<forall>e \<in> set (Show ''Debug Console - FPS: N/A'' # GetInputDevices # p # B). \<not> is_open e"
      using p B by (auto simp: is_open_simps)
    moreover have "fst (guiver_main v rt hs d a1 a2) =
        (Show ''Debug Console - FPS: N/A'' # GetInputDevices # p # B) @
        [Start (AudioThread a), Start (VideoThread c), Show w, AppExec]"
      using e by simp
    ultimately show ?thesis using r by blast
  qed
qed

lemma asio_device_lines_prints:
  "\<forall>e \<in> set (asio_device_lines k i devs). \<exists>m. e = Print m"
  by (induction devs arbitrary: i) auto

lemma asiofinder_events:
  "\<forall>e \<in> set (fst (asiofinder_main hs d)). (\<exists>m. e = Print m) \<or> is_listing e"
  using asio_device_lines_prints
  by (auto simp: asiofinder_main_def is_listing_simps split: option.splits) blast+

lemma asiofinder_quiet:
  "\<forall>e \<in> set (fst (asiofinder_main hs d)). \<not> is_prompt e \<and> \<not> is_open e \<and> e \<noteq> AppExec"
proof
  fix e assume "e \<in> set (fst (asiofinder_main hs d))"
  with asiofinder_events consider m where "e = Print m" | "is_listing e" by blast
  then show "\<not> is_prompt e \<and> \<not> is_open e \<and> e \<noteq> AppExec"
  proof cases
    case 1
    then show ?thesis by (simp add: is_prompt_simps is_open_simps)
  next
    case 2
    then show ?thesis
      by (cases e) (simp_all add: is_listing_def is_prompt_def is_open_def)
  qed
qed

lemma other_quiet:
  "\<forall>e \<in> set (fst (other_main cams)). \<not> is_prompt e \<and> \<not> is_audio_open e \<and> \<not> is_start e"
  by (cases cams)
     (simp_all add: other_main_def is_prompt_simps is_audio_open_def is_start_def)

lemma is_open_worker_simps:
  "\<not> is_open (EmitDebug m)" "\<not> is_open EmitPixmap" "\<not> is_open (EmitFps m)"
  "\<not> is_open (VideoCapture i b)" "\<not> is_open (CapSet p n)" "\<not> is_open (CapGet p)"
  "\<not> is_open CapRead" "\<not> is_open (Msleep n)" "\<not> is_open CapRelease"
  "\<not> is_open (SdStream k ko)" "\<not> is_open (SdSleep n)" "\<not> is_open StreamClose"
  "\<not> is_open (RtMixerOpen k ap)" "\<not> is_open StartStream" "\<not> is_open TimeSleep"
  "\<not> is_open (SetRunningFalse th)" "\<not> is_open (Quit th)" "\<not> is_open (Wait th)"
  "\<not> is_open StopStream" "\<not> is_open MixerClose" "\<not> is_open (CloseWindow m)"
  "\<not> is_open AppQuit" "\<not> is_open Accept"
  by (simp_all add: is_open_def)

lemma tell_no_open: "\<not> is_open (tell a m)"
  by (cases a) (simp_all add: tell_def is_open_simps is_open_worker_simps)

lemma say_no_open: "\<not> is_open (say a m)"
  by (cases a) (simp_all add: say_def is_open_simps)

lemma video_step_no_open: "\<forall>e \<in> set (snd (video_step a i env r pc)). \<not> is_open e"
  by (cases pc; cases a)
     (auto simp: video_step_def video_open_def video_body_def Let_def tell_no_open
        is_open_simps is_open_worker_simps)

lemma audio_step_no_open: "\<forall>e \<in> set (fst (snd (audio_step w env r m pc))). \<not> is_open e"
  by (cases pc; cases w)
     (auto simp: audio_step_def audio_open_def audio_poll_def audio_body_def
        is_open_simps is_open_worker_simps)

lemma callback_no_open: "\<forall>e \<in> set (callback a w st pc m). \<not> is_open e"
  by (cases w) (simp_all add: callback_def tell_no_open is_open_simps is_open_worker_simps)

lemma audio_stop_no_open: "\<forall>e \<in> set (fst (audio_stop w m)). \<not> is_open e"
  by (cases w) (auto simp: audio_stop_def is_open_simps is_open_worker_simps)

lemma step_no_open:
  "\<forall>x \<in> set (trace s). \<not> is_open (snd x) \<Longrightarrow>
   \<forall>x \<in> set (trace (step cfg c s)). \<not> is_open (snd x)"
proof (cases c)
  case (MainStep env)
  assume "\<forall>x \<in> set (trace s). \<not> is_open (snd x)"
  then show ?thesis unfolding MainStep using audio_stop_no_open
    by (cases "mpc_of s")
       (auto simp: step_def main_step_def say_no_open is_open_worker_simps)
next
  case (VideoStep env)
  assume t: "\<forall>x \<in> set (trace s). \<not> is_open (snd x)"
  obtain pc' evs where st:
    "video_step (app_of cfg) (video_index cfg) env (v_running s) (vpc_of s) = (pc', evs)"
    by (cases "video_step (app_of cfg) (video_index cfg) env (v_running s) (vpc_of s)") auto
  from video_step_no_open[of "app_of cfg" "video_index cfg" env "v_running s" "vpc_of s"] st
  have "\<forall>e \<in> set evs. \<not> is_open e" by simp
  with t st show ?thesis unfolding VideoStep by (auto simp: step_def)
next
  case (AudioStep env)
  assume t: "\<forall>x \<in> set (trace s). \<not> is_open (snd x)"
  obtain pc' evs m' where st:
    "audio_step (audio_worker cfg) env (a_running s) (mixer_of s) (apc_of s) = (pc', evs, m')"
    by (cases "audio_step (audio_worker cfg) env (a_running s) (mixer_of s) (apc_of s)") auto
  from audio_step_no_open[of "audio_worker cfg" env "a_running s" "mixer_of s" "apc_of s"] st
  have "\<forall>e \<in> set evs. \<not> is_open e" by simp
  with t st show ?thesis unfolding AudioStep by (auto simp: step_def)
next
  case (CallbackStep status)
  assume "\<forall>x \<in> set (trace s). \<not> is_open (snd x)"
  then show ?thesis unfolding CallbackStep using callback_no_open
    by (auto simp: step_def)
next
  case StreamStops
  assume "\<forall>x \<in> set (trace s). \<not> is_open (snd x)"
  then show ?thesis unfolding StreamStops by (auto simp: step_def)
qed

lemma exec_no_open:
  "\<forall>x \<in> set (trace s). \<not> is_open (snd x) \<Longrightarrow>
   \<forall>x \<in> set (trace (exec cfg cs s)). \<not> is_open (snd x)"
proof (induction cs arbitrary: s)
  case Nil
  then show ?case by simp
next
  case (Cons c cs)
  from step_no_open[OF Cons.prems, of cfg c]
  have "\<forall>x \<in> set (trace (step cfg c s)). \<not> is_open (snd x)" .
  from Cons.IH[OF this] show ?case by simp
qed

lemma running_no_start: "filter is_start (map snd (trace (exec cfg cs started))) = []"
proof -
  have "\<forall>x \<in> set (trace started). \<not> is_open (snd x)" by (simp add: started_def)
  from exec_no_open[OF this, of cfg cs]
  have "\<forall>e \<in> set (map snd (trace (exec cfg cs started))). \<not> is_open e" by simp
  then show ?thesis by (rule filter_kind_empty)
qed

lemma capture_app_no_video:
  "exits (snd (capture_app_main [] d d' stdin)) \<and>
   last (fst (capture_app_main [] d d' stdin)) = Print ''No video devices detected. Exiting.''"
  by (simp add: capture_app_main_def exits_def)

lemma capture_app_no_audio:
  assumes "v \<noteq> []"
    and "snd (snd (prompt_selection (int (length v)) ''video'' stdin)) = Inr vc"
    and "fst (capture_app_list_audio_input_devices_filtered d) = []"
  shows "exits (snd (capture_app_main v d d' stdin)) \<and>
         last (fst (capture_app_main v d d' stdin)) =
           Print ''No matching audio input devices detected. Exiting.''"
proof -
  obtain ev2 s2 where p: "prompt_selection (int (length v)) ''video'' stdin = (ev2, s2, Inr vc)"
    using assms(2) by (cases "prompt_selection (int (length v)) ''video'' stdin") auto
  obtain an where f: "capture_app_list_audio_input_devices_filtered d = ([], an)"
    using assms(3) by (cases "capture_app_list_audio_input_devices_filtered d") auto
  have "capture_app_main v d d' stdin =
         (capture_app_list_video_events v @ ev2 @ capture_app_list_audio_events d @
            [Print ''No matching audio input devices detected. Exiting.''],
          Returned)"
    using assms(1) p f by (simp add: capture_app_main_def)
  then show ?thesis by (simp add: exits_def)
qed

lemma guiver_no_video:
  "snd (guiver_main [] rt hs d a1 a2) = Raised (SystemExit 1) \<and>
   last (fst (guiver_main [] rt hs d a1 a2)) = AppendMessage ''No video devices detected. Exiting.''"
  by (simp add: guiver_main_def)

lemma guiver_no_audio:
  assumes "v \<noteq> []"
    and "snd (prompt_selection_gui v ''video'' a1) = Inr vc"
    and "guiver_list_audio_input_devices_filtered hs d = Inr (fd, fn, fi)"
    and "fst (combine_audio (fst (snd (list_rtmixer_devices_by_apis rt preferred_api_names))) fn)
           = []"
  shows "snd (guiver_main v rt hs d a1 a2) = Raised (SystemExit 1) \<and>
         last (fst (guiver_main v rt hs d a1 a2)) =
           AppendMessage ''No audio input devices found. Exiting.''"
proof -
  obtain ev1 where p: "prompt_selection_gui v ''video'' a1 = (ev1, Inr vc)"
    using assms(2) by (cases "prompt_selection_gui v ''video'' a1") auto
  obtain rd rn ri ra where
    l: "list_rtmixer_devices_by_apis rt preferred_api_names = (rd, rn, ri, ra)"
    by (cases "list_rtmixer_devices_by_apis rt preferred_api_names") auto
  obtain ds where c: "combine_audio rn fn = ([], ds)"
    using assms(4) l by (cases "combine_audio rn fn") auto
  have "guiver_main v rt hs d a1 a2 =
         ([Show ''Debug Console - FPS: N/A'', GetInputDevices] @ ev1 @
          [QueryDevices, QueryHostapis,
           AppendMessage ''No audio input devices found. Exiting.''],
          Raised (SystemExit 1))"
    using assms(1,3) p l c by (simp add: guiver_main_def)
  then show ?thesis by simp
qed

lemma video_open_failure:
  "\<not> dshow_ok env \<Longrightarrow> \<not> msmf_ok env \<Longrightarrow>
   fst (video_open a i env) = V_Done \<and>
   last (snd (video_open a i env)) =
     tell a (''Failed to open camera device '' @ py_str_int i @
             '' with both CAP_DSHOW and CAP_MSMF.'')"
  by (simp add: video_open_def Let_def)

lemma sounddevice_open_failure:
  "is_sounddevice w \<Longrightarrow> \<not> stream_ok aenv \<Longrightarrow>
   fst (audio_open w aenv) = A_Done \<and>
   (last (fst (snd (audio_open w aenv))) = Print (''Audio stream error: '' @ error_text aenv) \<or>
    last (fst (snd (audio_open w aenv))) =
      EmitDebug (''Sounddevice audio stream error: '' @ error_text aenv))"
  by (cases w) (simp_all add: audio_open_def is_sounddevice_def)

lemma rtmixer_open_failure:
  "\<not> is_sounddevice w \<Longrightarrow> rtmixer_installed aenv \<Longrightarrow> \<not> mixer_ok aenv \<or> \<not> stream_ok aenv \<Longrightarrow>
   fst (audio_open w aenv) = A_Done \<and>
   last (fst (snd (audio_open w aenv))) =
     EmitDebug (''RTMixer audio stream error: '' @ error_text aenv)"
  by (cases w) (auto simp: audio_open_def is_sounddevice_def)

lemma main_steps_Cons: "main_steps (c # cs) = main_steps [c] + main_steps cs"
  by (simp add: main_steps_def)

lemma window_stays_open_step:
  "main_steps [c] = 0 \<Longrightarrow> mpc_of (step cfg c s) = mpc_of s"
  by (cases c) (auto simp: step_def main_steps_def split: prod.splits)

lemma window_stays_open:
  "main_steps cs = 0 \<Longrightarrow> mpc_of (exec cfg cs s) = mpc_of s"
proof (induction cs arbitrary: s)
  case Nil
  then show ?case by simp
next
  case (Cons c cs)
  from Cons.prems have a: "main_steps [c] = 0" and b: "main_steps cs = 0"
    by (simp_all add: main_steps_Cons[of c cs])
  from Cons.IH[OF b, of "step cfg c s"] window_stays_open_step[OF a, of cfg s]
  show ?case by simp
qed

lemma workers_never_close:
  "main_steps cs = 0 \<Longrightarrow>
   mpc_of (exec cfg cs started) = M_Open \<and>
   (\<forall>x \<in> set (trace (exec cfg cs started)). \<not> is_closing (snd x))"
proof -
  assume m: "main_steps cs = 0"
  have o: "mpc_of (exec cfg cs started) = M_Open"
    using window_stays_open[OF m, of cfg started] by (simp add: started_def)
  have "handler_inv (exec cfg cs started)"
    by (rule handler_inv_exec[OF handler_inv_started])
  with o show ?thesis by (simp add: handler_inv_def)
qed

lemma rtmixer_missing:
  "\<not> is_sounddevice w \<Longrightarrow> \<not> rtmixer_installed aenv \<Longrightarrow>
   fst (audio_open w aenv) = A_Done \<and>
   fst (snd (audio_open w aenv)) =
     [EmitDebug ''python-rtmixer not installed! Cannot start RTMixer audio stream.'']"
  by (cases w) (simp_all add: audio_open_def is_sounddevice_def)






text \<open>
  C6. At every point of every run, capture_app and guiver/main have started at most two
  workers, of which at most one is the video worker and at most one an audio worker;
  asiofinder and other start none; and once the event loop runs, no step of the close
  handler, of a worker or of the callback starts another.
\<close>

theorem at_most_two_workers:
  "length (filter is_start (take n (fst (capture_app_main v d d' stdin)))) \<le> 2 \<and>
   length (filter is_video_start (take n (fst (capture_app_main v d d' stdin)))) \<le> 1 \<and>
   length (filter is_audio_open (take n (fst (capture_app_main v d d' stdin)))) \<le> 1 \<and>
   length (filter is_start (take n (fst (guiver_main v' rt hs d2 a1 a2)))) \<le> 2 \<and>
   length (filter is_video_start (take n (fst (guiver_main v' rt hs d2 a1 a2)))) \<le> 1 \<and>
   length (filter is_audio_open (take n (fst (guiver_main v' rt hs d2 a1 a2)))) \<le> 1 \<and>
   filter is_start (fst (asiofinder_main hs' d3)) = [] \<and>
   filter is_start (fst (other_main cams)) = [] \<and>
   filter is_start (map snd (trace (exec cfg cs started))) = []"
proof -
  have "\<forall>e \<in> set (fst (asiofinder_main hs' d3)). \<not> is_open e"
    using asiofinder_quiet[of hs' d3] by blast
  then have a: "filter is_start (fst (asiofinder_main hs' d3)) = []"
    by (rule filter_kind_empty)
  have o: "filter is_start (fst (other_main cams)) = []"
    using other_quiet[of cams] by (simp add: filter_empty_conv)
  from capture_app_counts[of n v d d' stdin] guiver_counts[of n v' rt hs d2 a1 a2] a o
    running_no_start[of cfg cs]
  show ?thesis by (intro conjI) simp_all
qed

theorem at_most_two_workers_witness:
  "filter is_start (fst (capture_app_main [''Cam A'', ''Cam B''] twin_devices twin_devices
                           [''1'', ''x'', ''2'']))
     = [Start (AudioThread (AudioStream 3)), Start (VideoThread 1)] \<and>
   length (filter is_start (take 40 (fst (capture_app_main [''Cam A'', ''Cam B''] twin_devices
                           twin_devices [''1'', ''x'', ''2''])))) \<le> 2 \<and>
   filter is_start (map snd (trace (exec guiver_config close_while_running started))) = []"
proof -
  have a: "filter is_start (fst (capture_app_main [''Cam A'', ''Cam B''] twin_devices
             twin_devices [''1'', ''x'', ''2'']))
             = [Start (AudioThread (AudioStream 3)), Start (VideoThread 1)]"
    by code_simp
  note t = at_most_two_workers[of 40 "[''Cam A'', ''Cam B'']" twin_devices twin_devices
      "[''1'', ''x'', ''2'']" _ _ _ _ _ _ _ _ _ guiver_config close_while_running]
  from t have b: "length (filter is_start (take 40 (fst (capture_app_main [''Cam A'', ''Cam B'']
                   twin_devices twin_devices [''1'', ''x'', ''2''])))) \<le> 2" by blast
  from t have c: "filter is_start (map snd (trace (exec guiver_config close_while_running
                   started))) = []" by blast
  from a b c show ?thesis by (intro conjI)
qed

text \<open>
  C2 (amended). When no device is found, the script says so and the process ends:
  capture_app prints the message and \<^verbatim>\<open>main\<close> returns, guiver/main appends it to the
  debug console and calls \<^verbatim>\<open>sys.exit(1)\<close>, other shows a dialog and calls
  \<^verbatim>\<open>sys.exit(1)\<close>, as it does for a camera error. When the camera cannot be opened
  in capture_app or guiver/main, or the audio stream cannot be opened or started (the
  sounddevice stream, the rtmixer mixer or its stream, or the rtmixer module is
  missing), the worker reports the error (printed, or sent to the debug console) and
  returns from \<^verbatim>\<open>run\<close>; the process does not exit: as long as the user does not close
  the window, it stays open and no closing call is made, whatever the workers do.
\<close>

theorem errors_reported_and_who_exits:
  "exits (snd (capture_app_main [] d d' stdin)) \<and>
   last (fst (capture_app_main [] d d' stdin)) = Print ''No video devices detected. Exiting.'' \<and>
   (v \<noteq> [] \<longrightarrow> snd (snd (prompt_selection (int (length v)) ''video'' stdin')) = Inr vc \<longrightarrow>
      fst (capture_app_list_audio_input_devices_filtered d1) = [] \<longrightarrow>
      exits (snd (capture_app_main v d1 d1' stdin')) \<and>
      last (fst (capture_app_main v d1 d1' stdin')) =
        Print ''No matching audio input devices detected. Exiting.'') \<and>
   snd (guiver_main [] rt hs d2 a1 a2) = Raised (SystemExit 1) \<and>
   last (fst (guiver_main [] rt hs d2 a1 a2)) =
     AppendMessage ''No video devices detected. Exiting.'' \<and>
   (v' \<noteq> [] \<longrightarrow> snd (prompt_selection_gui v' ''video'' a1') = Inr vc' \<longrightarrow>
      guiver_list_audio_input_devices_filtered hs' d3 = Inr (fd, fn, fi) \<longrightarrow>
      fst (combine_audio (fst (snd (list_rtmixer_devices_by_apis rt' preferred_api_names))) fn)
        = [] \<longrightarrow>
      snd (guiver_main v' rt' hs' d3 a1' a2') = Raised (SystemExit 1) \<and>
      last (fst (guiver_main v' rt' hs' d3 a1' a2')) =
        AppendMessage ''No audio input devices found. Exiting.'') \<and>
   other_main [] = ([VideoInputs, Critical ''Error'' ''No cameras found''],
                    Raised (SystemExit 1)) \<and>
   camera_error msg = ([Critical ''Camera error'' msg], Raised (SystemExit 1)) \<and>
   (\<not> dshow_ok env \<longrightarrow> \<not> msmf_ok env \<longrightarrow>
      fst (video_open a i env) = V_Done \<and>
      last (snd (video_open a i env)) =
        tell a (''Failed to open camera device '' @ py_str_int i @
                '' with both CAP_DSHOW and CAP_MSMF.'')) \<and>
   (is_sounddevice w \<longrightarrow> \<not> stream_ok aenv \<longrightarrow>
      fst (audio_open w aenv) = A_Done \<and>
      (last (fst (snd (audio_open w aenv))) = Print (''Audio stream error: '' @ error_text aenv) \<or>
       last (fst (snd (audio_open w aenv))) =
         EmitDebug (''Sounddevice audio stream error: '' @ error_text aenv))) \<and>
   (\<not> is_sounddevice w \<longrightarrow> rtmixer_installed aenv \<longrightarrow> \<not> mixer_ok aenv \<or> \<not> stream_ok aenv \<longrightarrow>
      fst (audio_open w aenv) = A_Done \<and>
      last (fst (snd (audio_open w aenv))) =
        EmitDebug (''RTMixer audio stream error: '' @ error_text aenv)) \<and>
   (\<not> is_sounddevice w \<longrightarrow> \<not> rtmixer_installed aenv \<longrightarrow>
      fst (audio_open w aenv) = A_Done \<and>
      fst (snd (audio_open w aenv)) =
        [EmitDebug ''python-rtmixer not installed! Cannot start RTMixer audio stream.'']) \<and>
   (main_steps cs = 0 \<longrightarrow>
      mpc_of (exec cfg cs started) = M_Open \<and>
      (\<forall>x \<in> set (trace (exec cfg cs started)). \<not> is_closing (snd x)))"
proof (intro conjI impI)
  show "exits (snd (capture_app_main [] d d' stdin))"
    and "last (fst (capture_app_main [] d d' stdin)) = Print ''No video devices detected. Exiting.''"
    using capture_app_no_video[of d d' stdin] by simp_all
  show "snd (guiver_main [] rt hs d2 a1 a2) = Raised (SystemExit 1)"
    and "last (fst (guiver_main [] rt hs d2 a1 a2)) =
           AppendMessage ''No video devices detected. Exiting.''"
    using guiver_no_video[of rt hs d2 a1 a2] by simp_all
  show "other_main [] = ([VideoInputs, Critical ''Error'' ''No cameras found''],
                         Raised (SystemExit 1))"
    by (simp add: other_main_def)
  show "camera_error msg = ([Critical ''Camera error'' msg], Raised (SystemExit 1))"
    by (simp add: camera_error_def)
next
  assume h: "v \<noteq> []" "snd (snd (prompt_selection (int (length v)) ''video'' stdin')) = Inr vc"
    "fst (capture_app_list_audio_input_devices_filtered d1) = []"
  from capture_app_no_audio[OF h, of d1']
  show "exits (snd (capture_app_main v d1 d1' stdin'))"
    and "last (fst (capture_app_main v d1 d1' stdin')) =
        Print ''No matching audio input devices detected. Exiting.''" by simp_all
next
  assume h: "v' \<noteq> []" "snd (prompt_selection_gui v' ''video'' a1') = Inr vc'"
    "guiver_list_audio_input_devices_filtered hs' d3 = Inr (fd, fn, fi)"
    "fst (combine_audio (fst (snd (list_rtmixer_devices_by_apis rt' preferred_api_names))) fn) = []"
  from guiver_no_audio[OF h, of a2']
  show "snd (guiver_main v' rt' hs' d3 a1' a2') = Raised (SystemExit 1)"
    and "last (fst (guiver_main v' rt' hs' d3 a1' a2')) =
        AppendMessage ''No audio input devices found. Exiting.''" by simp_all
next
  assume h: "\<not> dshow_ok env" "\<not> msmf_ok env"
  from video_open_failure[OF h, of a i]
  show "fst (video_open a i env) = V_Done"
    and "last (snd (video_open a i env)) =
        tell a (''Failed to open camera device '' @ py_str_int i @
                '' with both CAP_DSHOW and CAP_MSMF.'')" by simp_all
next
  assume h: "is_sounddevice w" "\<not> stream_ok aenv"
  from sounddevice_open_failure[OF h]
  show "fst (audio_open w aenv) = A_Done"
    and "last (fst (snd (audio_open w aenv))) = Print (''Audio stream error: '' @ error_text aenv) \<or>
       last (fst (snd (audio_open w aenv))) =
         EmitDebug (''Sounddevice audio stream error: '' @ error_text aenv)" by simp_all
next
  assume h: "\<not> is_sounddevice w" "rtmixer_installed aenv" "\<not> mixer_ok aenv \<or> \<not> stream_ok aenv"
  from rtmixer_open_failure[OF h]
  show "fst (audio_open w aenv) = A_Done"
    and "last (fst (snd (audio_open w aenv))) =
        EmitDebug (''RTMixer audio stream error: '' @ error_text aenv)" by simp_all
next
  assume h: "\<not> is_sounddevice w" "\<not> rtmixer_installed aenv"
  from rtmixer_missing[OF h]
  show "fst (audio_open w aenv) = A_Done"
    and "fst (snd (audio_open w aenv)) =
        [EmitDebug ''python-rtmixer not installed! Cannot start RTMixer audio stream.'']"
    by simp_all
next
  assume h: "main_steps cs = 0"
  from workers_never_close[OF h, of cfg]
  show "mpc_of (exec cfg cs started) = M_Open"
    and "\<forall>x \<in> set (trace (exec cfg cs started)). \<not> is_closing (snd x)" by simp_all
qed

theorem errors_reported_and_who_exits_witness:
  "snd (snd (prompt_selection (int (length [''Cam A''])) ''video'' [''0''])) = Inr 0 \<and>
   fst (capture_app_list_audio_input_devices_filtered no_capture_card) = [] \<and>
   exits (snd (capture_app_main [''Cam A''] no_capture_card no_capture_card [''0''])) \<and>
   snd (prompt_selection_gui [''Cam A''] ''video'' (''0: Cam A'', True)) = Inr 0 \<and>
   guiver_list_audio_input_devices_filtered demo_hostapis no_capture_card = Inr ([], [], []) \<and>
   snd (guiver_main [''Cam A''] None demo_hostapis no_capture_card (''0: Cam A'', True)
          (''0: Cam A'', True)) = Raised (SystemExit 1) \<and>
   fst (video_open CaptureApp 0 camera_fails) = V_Done \<and>
   fst (audio_open (AudioStream 3) audio_fails) = A_Done \<and>
   main_steps [VideoStep camera_fails, AudioStep audio_fails] = 0 \<and>
   mpc_of (exec capture_app_config [VideoStep camera_fails, AudioStep audio_fails] started)
     = M_Open \<and>
   \<not> is_sounddevice (AudioStreamRTMixer 0 ''ASIO'') \<and>
   fst (audio_open (AudioStreamRTMixer 0 ''ASIO'') audio_fails) = A_Done \<and>
   last (fst (snd (audio_open (AudioStreamRTMixer 0 ''ASIO'') audio_fails))) =
     EmitDebug ''RTMixer audio stream error: Invalid device'' \<and>
   fst (audio_open (AudioStreamRTMixer 0 ''ASIO'') (audio_fails\<lparr>rtmixer_installed := False\<rparr>))
     = A_Done \<and>
   mpc_of (exec rtmixer_config [VideoStep camera_fails, AudioStep audio_fails] started) = M_Open"
proof -
  have h1: "[''Cam A''] \<noteq> []" by simp
  have h2: "snd (snd (prompt_selection (int (length [''Cam A''])) ''video'' [''0''])) = Inr 0"
    by code_simp
  have h3: "fst (capture_app_list_audio_input_devices_filtered no_capture_card) = []"
    by code_simp
  have h4: "snd (prompt_selection_gui [''Cam A''] ''video'' (''0: Cam A'', True)) = Inr 0"
    by code_simp
  have h5: "guiver_list_audio_input_devices_filtered demo_hostapis no_capture_card
              = Inr ([], [], [])"
    by code_simp
  have h6: "fst (combine_audio
              (fst (snd (list_rtmixer_devices_by_apis None preferred_api_names))) []) = []"
    by code_simp
  have h7: "\<not> dshow_ok camera_fails" "\<not> msmf_ok camera_fails"
    by (simp_all add: camera_fails_def camera_works_def)
  have h8: "is_sounddevice (AudioStream 3)" "\<not> stream_ok audio_fails"
    by (simp_all add: is_sounddevice_def audio_fails_def audio_works_def)
  have h9: "main_steps [VideoStep camera_fails, AudioStep audio_fails] = 0"
    by (simp add: main_steps_def)
  note base = errors_reported_and_who_exits[where v = "[''Cam A'']" and stdin' = "[''0'']"
      and vc = 0 and ?d1.0 = no_capture_card and d1' = no_capture_card
      and v' = "[''Cam A'']" and a1' = "(''0: Cam A'', True)" and a2' = "(''0: Cam A'', True)"
      and vc' = 0 and hs' = demo_hostapis and ?d3.0 = no_capture_card and rt' = None
      and fd = "[]" and fn = "[]" and fi = "[]"
      and env = camera_fails and a = CaptureApp and i = 0
      and cs = "[VideoStep camera_fails, AudioStep audio_fails]"]
  note t = base[where w = "AudioStream 3" and aenv = audio_fails and cfg = capture_app_config]
  from t h1 h2 h3
  have c1: "exits (snd (capture_app_main [''Cam A''] no_capture_card no_capture_card [''0'']))"
    by blast
  from t h1 h4 h5 h6
  have c2: "snd (guiver_main [''Cam A''] None demo_hostapis no_capture_card (''0: Cam A'', True)
          (''0: Cam A'', True)) = Raised (SystemExit 1)"
    by blast
  from t h7 have c3: "fst (video_open CaptureApp 0 camera_fails) = V_Done" by blast
  from t h8 have c4: "fst (audio_open (AudioStream 3) audio_fails) = A_Done" by blast
  from t h9 have c5: "mpc_of (exec capture_app_config
      [VideoStep camera_fails, AudioStep audio_fails] started) = M_Open" by blast
  have r1: "\<not> is_sounddevice (AudioStreamRTMixer 0 ''ASIO'')" by (simp add: is_sounddevice_def)
  have r2: "rtmixer_installed audio_fails" "\<not> stream_ok audio_fails"
    by (simp_all add: audio_fails_def audio_works_def)
  have r3: "\<not> rtmixer_installed (audio_fails\<lparr>rtmixer_installed := False\<rparr>)" by simp
  have r4: "error_text audio_fails = ''Invalid device''"
    by (simp add: audio_fails_def audio_works_def)
  note u = base[where w = "AudioStreamRTMixer 0 ''ASIO''" and aenv = audio_fails
      and cfg = rtmixer_config]
  note u' = base[where w = "AudioStreamRTMixer 0 ''ASIO''"
      and aenv = "audio_fails\<lparr>rtmixer_installed := False\<rparr>" and cfg = rtmixer_config]
  have r5: "\<not> mixer_ok audio_fails \<or> \<not> stream_ok audio_fails" using r2 by simp
  from u r1 r2(1) r5
  have c6: "fst (audio_open (AudioStreamRTMixer 0 ''ASIO'') audio_fails) = A_Done"
    by blast
  from u r1 r2(1) r5
  have "last (fst (snd (audio_open (AudioStreamRTMixer 0 ''ASIO'') audio_fails))) =
     EmitDebug (''RTMixer audio stream error: '' @ error_text audio_fails)" by blast
  then have c7: "last (fst (snd (audio_open (AudioStreamRTMixer 0 ''ASIO'') audio_fails))) =
     EmitDebug ''RTMixer audio stream error: Invalid device''" unfolding r4 by simp
  from u' r1 r3 have c8: "fst (audio_open (AudioStreamRTMixer 0 ''ASIO'')
      (audio_fails\<lparr>rtmixer_installed := False\<rparr>)) = A_Done" by blast
  from u h9 have c9: "mpc_of (exec rtmixer_config
      [VideoStep camera_fails, AudioStep audio_fails] started) = M_Open" by blast
  from h2 h3 c1 h4 h5 c2 c3 c4 h9 c5 r1 c6 c7 c8 c9 show ?thesis by (intro conjI)
qed

text \<open>
  The claim C2 as stated fails for a device-open failure: when both backends fail in
  capture_app, the worker prints the failure and returns, the window stays open, and
  nothing ends the process.
\<close>

theorem open_failure_keeps_running:
  "vpc_of (exec capture_app_config [VideoStep camera_fails] started) = V_Done \<and>
   mpc_of (exec capture_app_config [VideoStep camera_fails] started) = M_Open \<and>
   map snd (trace (exec capture_app_config [VideoStep camera_fails] started)) =
     [Print ''Trying to open video device 0 with CAP_DSHOW...'',
      VideoCapture 0 CAP_DSHOW,
      Print ''CAP_DSHOW failed, trying CAP_MSMF for device 0...'',
      VideoCapture 0 CAP_MSMF,
      Print ''Failed to open camera device 0 with both CAP_DSHOW and CAP_MSMF.''] \<and>
   \<not> list_ex (\<lambda>x. is_closing (snd x))
        (trace (exec capture_app_config [VideoStep camera_fails] started))"
  by code_simp

end
